(* ===== verification/Prelude.thy ===== *)
theory Prelude
  imports Complex_Main "HOL-Library.Word" "HOL-Library.Multiset"
begin

text \<open>
  Shared vocabulary of the development.

  \<^item> Go's machine types: \<open>uint64\<close> and \<open>int64\<close> are 64-bit words; \<open>sint\<close> reads an
    \<open>int64\<close>. \<open>time.Time\<close> is an unbounded integer count of nanoseconds (the Go type
    spans far more than 64 bits of nanoseconds), with the zero value \<open>time.Time{}\<close>
    as \<open>0\<close>; \<open>time.Duration\<close> is an integer count of nanoseconds.
  \<^item> Go panics (a nil dereference, an index out of range, an explicit \<open>panic\<close>) are
    values: either \<open>None\<close> of an option or a \<open>panicked\<close> flag of the state.
  \<^item> Generic facts about lists updated at two positions and about word sums.
\<close>

unbundle bit_operations_syntax

type_synonym uint64 = "64 word"
type_synonym int64 = "64 word"
type_synonym gotime = int
type_synonym duration = int


definition zero_time :: gotime where
  "zero_time = 0"

definition IsZero :: "gotime \<Rightarrow> bool" where
  "IsZero t \<longleftrightarrow> t = zero_time"

subsection \<open>Swapping two list positions\<close>

definition list_swap :: "nat \<Rightarrow> nat \<Rightarrow> 'a list \<Rightarrow> 'a list" where
  "list_swap i j xs = xs[i := xs ! j, j := xs ! i]"

lemma length_list_swap [simp]: "length (list_swap i j xs) = length xs"
  by (simp add: list_swap_def)

lemma nth_list_swap:
  "i < length xs \<Longrightarrow> j < length xs \<Longrightarrow> k < length xs \<Longrightarrow>
    list_swap i j xs ! k = (if k = i then xs ! j else if k = j then xs ! i else xs ! k)"
  by (auto simp: list_swap_def nth_list_update)

lemma mset_list_swap [simp]:
  "i < length xs \<Longrightarrow> j < length xs \<Longrightarrow> mset (list_swap i j xs) = mset xs"
  by (simp add: list_swap_def mset_swap)

lemma set_list_swap [simp]:
  "i < length xs \<Longrightarrow> j < length xs \<Longrightarrow> set (list_swap i j xs) = set xs"
  by (metis mset_list_swap set_mset_mset)

lemma distinct_list_swap [simp]:
  "i < length xs \<Longrightarrow> j < length xs \<Longrightarrow> distinct (list_swap i j xs) = distinct xs"
  by (simp add: list_swap_def distinct_swap)

subsection \<open>Word sums\<close>

lemma word_sub_as_add: "a + (NOT b + 1) = a - (b :: 'a::len word)"
  by (simp add: minus_eq_not_plus_1 [symmetric])

lemma sint64_of_int:
  assumes "- (2 ^ 63) \<le> x" and "x < 2 ^ 63"
  shows "sint (word_of_int x :: 64 word) = x"
  using assms by (simp only: sint_sbintrunc') (simp add: signed_take_bit_int_eq_self)

lemma sum_filter_split:
  fixes f :: "'a \<Rightarrow> 'b::ab_group_add"
  shows "(\<Sum>x\<in>#mset (filter (\<lambda>x. \<not> P x) xs). f x) = (\<Sum>x\<in>#mset xs. f x) - (\<Sum>x\<leftarrow>filter P xs. f x)"
  by (induction xs) auto

end
