(* ===== verification/Flow_Types.thy ===== *)
theory Flow_Types
  imports Prelude
begin

text \<open>
  The data shared by the flow-control layer (\<open>pkg/epp/framework/interface/flowcontrol\<close>,
  \<open>pkg/epp/flowcontrol/types\<close>, \<open>pkg/epp/flowcontrol/contracts\<close>).

  \<^item> Errors are the sentinels of \<open>errors.New\<close> and the wrapping errors of \<open>fmt.Errorf\<close>
    with the errors of their \<open>%w\<close> verbs; \<open>errors_Is\<close> is \<open>errors.Is\<close>.
  \<^item> \<open>flow_key\<close>, \<open>flow_request\<close> and \<open>queue_item\<close> are the immutable parts of a flow key,
    a request and a queued item; \<open>item_ptr\<close> is the identity of the \<open>FlowItem\<close> pointer.
  \<^item> \<open>world\<close> is the Go heap as the queues and the processor see it: the mutable cells of
    every \<open>FlowItem\<close> (its handle, its final state and its \<open>done\<close> channel), the
    \<open>isInvalidated\<close> flag of every handle object, and the next free address.
\<close>

subsection \<open>Errors\<close>

datatype sentinel =
    ErrRejected
  | ErrEvicted
  | ErrQueueAtCapacity
  | ErrTTLExpired
  | ErrContextCancelled
  | ErrFlowControllerNotRunning
  | ErrFlowInstanceNotFound
  | ErrFlowIDEmpty
  | ErrPriorityBandNotFound
  | ErrPolicyQueueIncompatible
  | ErrInvalidShardCount
  | ErrShardDraining
  | ErrInvalidQueueItemHandle
  | ErrQueueItemNotFound
  | ErrIncompatiblePriorityType
  | ErrProcessorBusy
  | ErrNoShards
  | ContextCanceled
  | ContextDeadlineExceeded

datatype gerror = Sentinel sentinel | Errorf string "gerror list"

fun errors_Is :: "gerror \<Rightarrow> sentinel \<Rightarrow> bool" where
  "errors_Is (Sentinel s) t = (s = t)"
| "errors_Is (Errorf _ es) t = list_ex (\<lambda>e. errors_Is e t) es"

subsection \<open>Outcomes\<close>

datatype queue_outcome =
    QueueOutcomeNotYetFinalized
  | QueueOutcomeDispatched
  | QueueOutcomeRejectedCapacity
  | QueueOutcomeRejectedOther
  | QueueOutcomeEvictedTTL
  | QueueOutcomeEvictedContextCancelled
  | QueueOutcomeEvictedOther

fun outcome_String :: "queue_outcome \<Rightarrow> string" where
  "outcome_String QueueOutcomeNotYetFinalized = ''NotYetFinalized''"
| "outcome_String QueueOutcomeDispatched = ''Dispatched''"
| "outcome_String QueueOutcomeRejectedCapacity = ''RejectedCapacity''"
| "outcome_String QueueOutcomeRejectedOther = ''RejectedOther''"
| "outcome_String QueueOutcomeEvictedTTL = ''EvictedTTL''"
| "outcome_String QueueOutcomeEvictedContextCancelled = ''EvictedContextCancelled''"
| "outcome_String QueueOutcomeEvictedOther = ''EvictedOther''"

record final_state =
  Outcome :: queue_outcome
  Err :: "gerror option"

subsection \<open>Flow keys\<close>

record flow_key =
  ID :: string
  Priority :: int

text \<open>\<open>strings.Compare\<close>: byte-wise lexicographic comparison.\<close>

fun strings_Compare :: "string \<Rightarrow> string \<Rightarrow> int" where
  "strings_Compare [] [] = 0"
| "strings_Compare [] (_ # _) = - 1"
| "strings_Compare (_ # _) [] = 1"
| "strings_Compare (a # as) (b # bs) =
     (if (of_char a :: nat) < of_char b then - 1
      else if (of_char b :: nat) < of_char a then 1
      else strings_Compare as bs)"

definition flow_key_Compare :: "flow_key \<Rightarrow> flow_key \<Rightarrow> int" where
  "flow_key_Compare k other =
     (if Priority k > Priority other then - 1
      else if Priority k < Priority other then 1
      else strings_Compare (ID k) (ID other))"

subsection \<open>Requests and queue items\<close>

text \<open>
  \<open>infReq_headers\<close> is \<open>None\<close> when \<open>InferenceRequest()\<close> or its header map is nil; a header
  map is the list of its entries in the order in which \<open>range\<close> visits them.
\<close>

record flow_request =
  req_id :: string
  req_flowKey :: flow_key
  req_byteSize :: uint64
  receivedTimestamp :: gotime
  initialEffectiveTTL :: duration
  infReq_headers :: "(string \<times> string) list option"

record queue_item =
  item_ptr :: nat
  enqueueTime :: gotime
  effectiveTTL :: duration
  originalRequest :: flow_request

abbreviation item_size :: "queue_item \<Rightarrow> uint64" where
  "item_size it \<equiv> req_byteSize (originalRequest it)"

abbreviation item_key :: "queue_item \<Rightarrow> flow_key" where
  "item_key it \<equiv> req_flowKey (originalRequest it)"

subsection \<open>Handles and the mutable cells\<close>

text \<open>
  A handle is a pointer to a \<open>heapItem\<close> or to a \<open>listItemHandle\<close>. The first component is
  its address; the immutable fields of a list handle (its list element and its owning
  queue) are part of the value, the mutable flag is in the \<open>world\<close>.
\<close>

datatype queue_handle =
    HeapItem nat
  | ListItemHandle nat nat nat

record world =
  item_handle :: "nat \<Rightarrow> queue_handle option"
  item_final :: "nat \<Rightarrow> final_state option"
  item_done :: "nat \<Rightarrow> final_state list"
  isInvalidated :: "queue_handle \<Rightarrow> bool"
  next_addr :: nat

definition init_world :: world where
  "init_world = \<lparr>item_handle = (\<lambda>_. None), item_final = (\<lambda>_. None), item_done = (\<lambda>_. []),
     isInvalidated = (\<lambda>_. False), next_addr = 0\<rparr>"

definition Handle :: "world \<Rightarrow> queue_item \<Rightarrow> queue_handle option" where
  "Handle w it = item_handle w (item_ptr it)"

definition SetHandle :: "queue_item \<Rightarrow> queue_handle \<Rightarrow> world \<Rightarrow> world" where
  "SetHandle it hn w = w\<lparr>item_handle := (item_handle w)(item_ptr it := Some hn)\<rparr>"

definition Invalidate :: "queue_handle \<Rightarrow> world \<Rightarrow> world" where
  "Invalidate hn w = w\<lparr>isInvalidated := (isInvalidated w)(hn := True)\<rparr>"

definition invalidate_item :: "queue_item \<Rightarrow> world \<Rightarrow> world" where
  "invalidate_item it w = (case Handle w it of None \<Rightarrow> w | Some hn \<Rightarrow> Invalidate hn w)"

subsection \<open>Facts\<close>

lemma strings_Compare_refl [simp]: "strings_Compare s s = 0"
  by (induction s) auto

lemma strings_Compare_eq_0 [simp]: "strings_Compare s t = 0 \<longleftrightarrow> s = t"
  by (induction s t rule: strings_Compare.induct) (auto simp: linorder_neq_iff)

lemma strings_Compare_sym: "strings_Compare s t = - strings_Compare t s"
  by (induction s t rule: strings_Compare.induct) auto

lemma strings_Compare_Cons_less_0:
  "strings_Compare (a # as) (b # bs) < 0 \<longleftrightarrow>
     (of_char a :: nat) < of_char b \<or> (of_char a :: nat) = of_char b \<and> strings_Compare as bs < 0"
  by (simp only: strings_Compare.simps split: if_split) linarith

lemma strings_Compare_trans:
  "strings_Compare s t < 0 \<Longrightarrow> strings_Compare t u < 0 \<Longrightarrow> strings_Compare s u < 0"
proof (induction s t arbitrary: u rule: strings_Compare.induct)
  case (2 b bs)
  then show ?case by (cases u) simp_all
next
  case (4 a as b bs)
  then obtain c cs where u: "u = c # cs" by (cases u) auto
  from "4.prems"(1) have ab: "(of_char a :: nat) < of_char b \<or>
      (of_char a :: nat) = of_char b \<and> strings_Compare as bs < 0"
    by (simp only: strings_Compare_Cons_less_0)
  from "4.prems"(2) have bc: "(of_char b :: nat) < of_char c \<or>
      (of_char b :: nat) = of_char c \<and> strings_Compare bs cs < 0"
    by (simp only: u strings_Compare_Cons_less_0)
  have "(of_char a :: nat) = of_char b \<Longrightarrow> strings_Compare as bs < 0 \<Longrightarrow>
      strings_Compare bs cs < 0 \<Longrightarrow> strings_Compare as cs < 0"
    by (rule "4.IH") simp_all
  with ab bc show ?case
    unfolding u strings_Compare_Cons_less_0 by linarith
qed simp_all

lemma flow_key_Compare_eq_0: "flow_key_Compare k l = 0 \<longleftrightarrow> k = l"
  by (auto simp: flow_key_Compare_def)

lemma flow_key_Compare_sym: "flow_key_Compare k l = - flow_key_Compare l k"
  using strings_Compare_sym [of "ID k" "ID l"] by (simp add: flow_key_Compare_def)

lemma flow_key_Compare_trans:
  "flow_key_Compare k l < 0 \<Longrightarrow> flow_key_Compare l m < 0 \<Longrightarrow> flow_key_Compare k m < 0"
  by (auto simp: flow_key_Compare_def split: if_splits dest: strings_Compare_trans)

lemma Handle_SetHandle [simp]:
  "Handle (SetHandle it hn w) it' = (if item_ptr it' = item_ptr it then Some hn else Handle w it')"
  by (simp add: Handle_def SetHandle_def)

lemma Handle_Invalidate [simp]: "Handle (Invalidate hn w) it = Handle w it"
  by (simp add: Handle_def Invalidate_def)

lemma Handle_invalidate_item [simp]: "Handle (invalidate_item it' w) it = Handle w it"
  by (simp add: invalidate_item_def split: option.split)

lemma next_addr_SetHandle [simp]: "next_addr (SetHandle it hn w) = next_addr w"
  by (simp add: SetHandle_def)

lemma next_addr_Invalidate [simp]: "next_addr (Invalidate hn w) = next_addr w"
  by (simp add: Invalidate_def)

lemma next_addr_invalidate_item [simp]: "next_addr (invalidate_item it w) = next_addr w"
  by (simp add: invalidate_item_def split: option.split)

lemma isInvalidated_Invalidate [simp]:
  "isInvalidated (Invalidate hn w) hn' \<longleftrightarrow> hn' = hn \<or> isInvalidated w hn'"
  by (auto simp: Invalidate_def)

lemma isInvalidated_SetHandle [simp]: "isInvalidated (SetHandle it hn w) = isInvalidated w"
  by (simp add: SetHandle_def)

lemma isInvalidated_invalidate_item [simp]:
  "isInvalidated (invalidate_item it w) hn \<longleftrightarrow> Handle w it = Some hn \<or> isInvalidated w hn"
  by (auto simp: invalidate_item_def split: option.split)

end
