(* ===== verification/Ordering_Policies.thy ===== *)
theory Ordering_Policies
  imports Flow_Types
begin

text \<open>
  The ordering policies (\<open>pkg/epp/framework/plugins/flowcontrol/ordering\<close>): FCFS, EDF and
  SLO deadline. A policy is the record of what the rest of the system calls: its type
  name, its comparator and the queue capabilities it requires.

  The contract every client of a comparator relies on is the locale \<open>strict_weak_order\<close>;
  the three policies interpret it, both on nillable items (the Go signature) and on items.
\<close>

subsection \<open>The policy interface\<close>

datatype queue_capability = CapabilityFIFO | CapabilityPriorityConfigurable

record ordering_policy =
  policy_type :: string
  Less :: "queue_item option \<Rightarrow> queue_item option \<Rightarrow> bool"
  RequiredQueueCapabilities :: "queue_capability list"

abbreviation item_less :: "ordering_policy \<Rightarrow> queue_item \<Rightarrow> queue_item \<Rightarrow> bool" where
  "item_less p a b \<equiv> Less p (Some a) (Some b)"

subsection \<open>First come, first served\<close>

definition fcfs_Less :: "queue_item option \<Rightarrow> queue_item option \<Rightarrow> bool" where
  "fcfs_Less a b = (case (a, b) of
       (None, None) \<Rightarrow> False
     | (None, Some _) \<Rightarrow> False
     | (Some _, None) \<Rightarrow> True
     | (Some x, Some y) \<Rightarrow> enqueueTime x < enqueueTime y)"

definition fcfs :: ordering_policy where
  "fcfs = \<lparr>policy_type = ''fcfs-ordering-policy'', Less = fcfs_Less, RequiredQueueCapabilities = []\<rparr>"

subsection \<open>Earliest deadline first\<close>

definition maxDeadlineTime :: gotime where
  "maxDeadlineTime = 2 ^ 63 - 1"

definition calculateDeadline :: "queue_item \<Rightarrow> gotime" where
  "calculateDeadline it =
     (if effectiveTTL it \<le> 0 then maxDeadlineTime else enqueueTime it + effectiveTTL it)"

definition edf_Less :: "queue_item option \<Rightarrow> queue_item option \<Rightarrow> bool" where
  "edf_Less a b = (case (a, b) of
       (None, None) \<Rightarrow> False
     | (None, Some _) \<Rightarrow> False
     | (Some _, None) \<Rightarrow> True
     | (Some x, Some y) \<Rightarrow>
         (let deadlineA = calculateDeadline x; deadlineB = calculateDeadline y
          in if deadlineA \<noteq> deadlineB then deadlineA < deadlineB
             else enqueueTime x < enqueueTime y))"

definition edf :: ordering_policy where
  "edf = \<lparr>policy_type = ''edf-ordering-policy'', Less = edf_Less,
     RequiredQueueCapabilities = [CapabilityPriorityConfigurable]\<rparr>"

subsection \<open>SLO deadline\<close>

text \<open>
  The standard-library calls of \<open>slo_deadline.go\<close>: \<open>strings.ToLower\<close> and
  \<open>strings.TrimSpace\<close> on ASCII strings (header names and values), and
  \<open>strconv.ParseInt(s, 10, 64)\<close>, which accepts an optional sign and decimal digits and
  fails outside the \<open>int64\<close> range.
\<close>

definition ToLower :: "string \<Rightarrow> string" where
  "ToLower = map (\<lambda>c. let n = (of_char c :: nat) in if 65 \<le> n \<and> n \<le> 90 then char_of (n + 32) else c)"

definition is_space :: "char \<Rightarrow> bool" where
  "is_space c \<longleftrightarrow> (of_char c :: nat) \<in> {9, 10, 11, 12, 13, 32}"

definition TrimSpace :: "string \<Rightarrow> string" where
  "TrimSpace s = rev (dropWhile is_space (rev (dropWhile is_space s)))"

definition digit_val :: "char \<Rightarrow> int option" where
  "digit_val c = (let n = (of_char c :: int) in if 48 \<le> n \<and> n \<le> 57 then Some (n - 48) else None)"

fun parse_digits :: "string \<Rightarrow> int \<Rightarrow> int option" where
  "parse_digits [] acc = Some acc"
| "parse_digits (c # cs) acc =
     (case digit_val c of None \<Rightarrow> None | Some d \<Rightarrow> parse_digits cs (10 * acc + d))"

definition ParseInt :: "string \<Rightarrow> int option" where
  "ParseInt s =
     (let (neg, ds) = (case s of
            [] \<Rightarrow> (False, [])
          | c # cs \<Rightarrow> if c = CHR ''-'' then (True, cs) else if c = CHR ''+'' then (False, cs) else (False, s))
      in if ds = [] then None
         else (case parse_digits ds 0 of
                 None \<Rightarrow> None
               | Some n \<Rightarrow>
                   (let v = (if neg then - n else n)
                    in if - (2 ^ 63) \<le> v \<and> v < 2 ^ 63 then Some v else None)))"

definition GetHeader :: "(string \<times> string) list \<Rightarrow> string \<Rightarrow> string" where
  "GetHeader headers key =
     (case map_of headers key of
        Some v \<Rightarrow> v
      | None \<Rightarrow>
          (case List.find (\<lambda>(k, v). ToLower k = ToLower key) headers of
             Some (k, v) \<Rightarrow> v
           | None \<Rightarrow> []))"

definition sloTtftHeader :: string where
  "sloTtftHeader = ''x-slo-ttft-ms''"

text \<open>\<open>time.Duration(ms) * time.Millisecond\<close> is an \<open>int64\<close> product, which wraps around.\<close>

definition ms_duration :: "int \<Rightarrow> duration" where
  "ms_duration ms = sint (word_of_int ms * 1000000 :: int64)"

definition calculateSLODeadline :: "queue_item \<Rightarrow> gotime" where
  "calculateSLODeadline it =
     (let req = originalRequest it
      in case infReq_headers req of
           None \<Rightarrow> maxDeadlineTime
         | Some headers \<Rightarrow>
             (let sloTtft = GetHeader headers sloTtftHeader
              in if sloTtft = [] then maxDeadlineTime
                 else (case ParseInt (TrimSpace sloTtft) of
                         None \<Rightarrow> maxDeadlineTime
                       | Some ms \<Rightarrow>
                           if ms < 0 then maxDeadlineTime
                           else receivedTimestamp req + ms_duration ms)))"

definition slo_Less :: "queue_item option \<Rightarrow> queue_item option \<Rightarrow> bool" where
  "slo_Less a b = (case (a, b) of
       (None, None) \<Rightarrow> False
     | (None, Some _) \<Rightarrow> False
     | (Some _, None) \<Rightarrow> True
     | (Some x, Some y) \<Rightarrow>
         (let deadlineA = calculateSLODeadline x; deadlineB = calculateSLODeadline y
          in if deadlineA \<noteq> deadlineB then deadlineA < deadlineB
             else receivedTimestamp (originalRequest x) < receivedTimestamp (originalRequest y)))"

definition slo_deadline :: ordering_policy where
  "slo_deadline = \<lparr>policy_type = ''slo-deadline-ordering-policy'', Less = slo_Less,
     RequiredQueueCapabilities = [CapabilityPriorityConfigurable]\<rparr>"

subsection \<open>The comparator contract\<close>

locale strict_weak_order =
  fixes lt :: "'a \<Rightarrow> 'a \<Rightarrow> bool"
  assumes asym: "lt a b \<Longrightarrow> \<not> lt b a"
    and neg_trans: "lt a c \<Longrightarrow> lt a b \<or> lt b c"
begin

lemma irrefl [simp]: "\<not> lt a a"
  using asym by blast

lemma lt_trans: "lt a b \<Longrightarrow> lt b c \<Longrightarrow> lt a c"
  using asym neg_trans by blast

lemma not_less_trans: "\<not> lt b a \<Longrightarrow> \<not> lt c b \<Longrightarrow> \<not> lt c a"
  using neg_trans by blast

lemma lt_not_less_trans: "lt a b \<Longrightarrow> \<not> lt c b \<Longrightarrow> lt a c"
  using neg_trans by blast

lemma flipped: "strict_weak_order (\<lambda>a b. lt b a)"
  by unfold_locales (use asym neg_trans in blast)+

end

lemma strict_weak_order_lex:
  fixes f g :: "'a \<Rightarrow> int"
  assumes "\<And>a b. lt a b \<longleftrightarrow> f a < f b \<or> f a = f b \<and> g a < g b"
  shows "strict_weak_order lt"
  by unfold_locales (auto simp: assms)

lemma strict_weak_order_nil_last:
  assumes "strict_weak_order (\<lambda>a b. lt (Some a) (Some b))"
    and "\<And>a. \<not> lt None a" and "\<And>a. lt (Some a) None"
  shows "strict_weak_order lt"
proof unfold_locales
  fix a b :: "'a option"
  show "\<not> lt b a" if "lt a b"
    using that assms strict_weak_order.asym [OF assms(1)] by (cases a; cases b) auto
next
  fix a b c :: "'a option"
  show "lt a b \<or> lt b c" if "lt a c"
    using that assms strict_weak_order.neg_trans [OF assms(1)]
    by (cases a; cases b; cases c) auto
qed

lemma fcfs_item_less: "strict_weak_order (item_less fcfs)"
  by (rule strict_weak_order_lex [where f = enqueueTime and g = "\<lambda>_. 0"])
    (simp add: fcfs_def fcfs_Less_def)

lemma edf_item_less: "strict_weak_order (item_less edf)"
  by (rule strict_weak_order_lex [where f = calculateDeadline and g = enqueueTime])
    (auto simp: edf_def edf_Less_def Let_def)

lemma slo_item_less: "strict_weak_order (item_less slo_deadline)"
  by (rule strict_weak_order_lex [where f = calculateSLODeadline
        and g = "\<lambda>it. receivedTimestamp (originalRequest it)"])
    (auto simp: slo_deadline_def slo_Less_def Let_def)

interpretation fcfs_items: strict_weak_order "item_less fcfs"
  by (rule fcfs_item_less)

interpretation edf_items: strict_weak_order "item_less edf"
  by (rule edf_item_less)

interpretation slo_items: strict_weak_order "item_less slo_deadline"
  by (rule slo_item_less)

interpretation fcfs_nil: strict_weak_order fcfs_Less
  using fcfs_item_less
  by (intro strict_weak_order_nil_last) (auto simp: fcfs_def fcfs_Less_def split: option.split)

interpretation edf_nil: strict_weak_order edf_Less
  using edf_item_less
  by (intro strict_weak_order_nil_last) (auto simp: edf_def edf_Less_def split: option.split)

interpretation slo_nil: strict_weak_order slo_Less
  using slo_item_less
  by (intro strict_weak_order_nil_last) (auto simp: slo_deadline_def slo_Less_def split: option.split)

subsection \<open>Deadlines\<close>

lemma ms_duration_exact: "0 \<le> ms \<Longrightarrow> ms \<le> 9223372036854 \<Longrightarrow> ms_duration ms = ms * 1000000"
  using sint64_of_int [of "ms * 1000000"] by (simp add: ms_duration_def)

end
