(* ===== verification/MaxMinHeap.thy ===== *)
theory MaxMinHeap
  imports Ordering_Policies
begin

text \<open>
  The priority queue of \<open>pkg/epp/flowcontrol/framework/plugins/queue/maxminheap.go\<close>.

  \<open>heap_items\<close> is the array; \<open>heap_handles\<close> maps a handle of this heap to the index field
  of its \<open>heapItem\<close> (the handle is the pointer to the \<open>heapItem\<close>, so the map's value is
  the handle's own object and only its mutable index is kept); \<open>heap_panicked\<close> records
  that an operation dereferenced nil or indexed out of range. The comparator reads
  \<open>Less a b\<close> as "a before b": the root is the item no other item comes before.

  \<open>isMinLevel\<close> computes \<open>int(math.Log2(float64(i + 1)))\<close>; the model takes the integer
  logarithm, with which the float computation agrees for every heap that fits in memory
  (\<open>math.Log2\<close> is exact at powers of two).
\<close>

subsection \<open>State\<close>

record maxMinHeap =
  heap_items :: "queue_item list"
  heap_handles :: "queue_handle \<Rightarrow> nat option"
  heap_byteSize :: uint64
  heap_policy :: ordering_policy
  heap_panicked :: bool

abbreviation heap_less :: "maxMinHeap \<Rightarrow> queue_item \<Rightarrow> queue_item \<Rightarrow> bool" where
  "heap_less h \<equiv> item_less (heap_policy h)"

definition newMaxMinHeap :: "ordering_policy \<Rightarrow> maxMinHeap" where
  "newMaxMinHeap policy = \<lparr>heap_items = [], heap_handles = (\<lambda>_. None), heap_byteSize = 0,
     heap_policy = policy, heap_panicked = False\<rparr>"

subsection \<open>Reading\<close>

definition heap_PeekHead :: "maxMinHeap \<Rightarrow> queue_item option" where
  "heap_PeekHead h = (if length (heap_items h) = 0 then None else Some (heap_items h ! 0))"

definition heap_PeekTail :: "maxMinHeap \<Rightarrow> queue_item option" where
  "heap_PeekTail h =
     (let n = length (heap_items h)
      in if n = 0 then None
         else if n = 1 then Some (heap_items h ! 0)
         else if n = 2 then Some (heap_items h ! 1)
         else if heap_less h (heap_items h ! 1) (heap_items h ! 2) then Some (heap_items h ! 2)
         else Some (heap_items h ! 1))"

definition heap_Len :: "maxMinHeap \<Rightarrow> nat" where
  "heap_Len h = length (heap_items h)"

definition heap_ByteSize :: "maxMinHeap \<Rightarrow> uint64" where
  "heap_ByteSize h = heap_byteSize h"

fun floor_log2 :: "nat \<Rightarrow> nat" where
  "floor_log2 n = (if n \<le> 1 then 0 else Suc (floor_log2 (n div 2)))"

definition isMinLevel :: "nat \<Rightarrow> bool" where
  "isMinLevel i \<longleftrightarrow> floor_log2 (i + 1) mod 2 \<noteq> 0"

subsection \<open>Swapping and bubbling up\<close>

definition set_index :: "world \<Rightarrow> queue_item \<Rightarrow> nat \<Rightarrow> maxMinHeap \<Rightarrow> maxMinHeap" where
  "set_index w it k h =
     (case Handle w it of
        None \<Rightarrow> h\<lparr>heap_panicked := True\<rparr>
      | Some hn \<Rightarrow>
          (case heap_handles h hn of
             None \<Rightarrow> h\<lparr>heap_panicked := True\<rparr>
           | Some _ \<Rightarrow> h\<lparr>heap_handles := (heap_handles h)(hn := Some k)\<rparr>))"

definition swap :: "world \<Rightarrow> nat \<Rightarrow> nat \<Rightarrow> maxMinHeap \<Rightarrow> maxMinHeap" where
  "swap w i j h =
     (if i < length (heap_items h) \<and> j < length (heap_items h)
      then let h1 = h\<lparr>heap_items := list_swap i j (heap_items h)\<rparr>;
               h2 = set_index w (heap_items h1 ! i) i h1
           in set_index w (heap_items h2 ! j) j h2
      else h\<lparr>heap_panicked := True\<rparr>)"

function upMin :: "world \<Rightarrow> nat \<Rightarrow> maxMinHeap \<Rightarrow> maxMinHeap" where
  "upMin w i h =
     (let parentIndex = (i - 1) div 2
      in if parentIndex = 0 then h
         else let grandparentIndex = (parentIndex - 1) div 2
              in if heap_less h (heap_items h ! grandparentIndex) (heap_items h ! i)
                 then upMin w grandparentIndex (swap w i grandparentIndex h)
                 else h)"
  by pat_completeness auto
termination
  by (relation "measure (\<lambda>(w, i, h). i)") auto

function upMax :: "world \<Rightarrow> nat \<Rightarrow> maxMinHeap \<Rightarrow> maxMinHeap" where
  "upMax w i h =
     (let parentIndex = (i - 1) div 2
      in if parentIndex = 0 then h
         else let grandparentIndex = (parentIndex - 1) div 2
              in if heap_less h (heap_items h ! i) (heap_items h ! grandparentIndex)
                 then upMax w grandparentIndex (swap w i grandparentIndex h)
                 else h)"
  by pat_completeness auto
termination
  by (relation "measure (\<lambda>(w, i, h). i)") auto

definition up :: "world \<Rightarrow> nat \<Rightarrow> maxMinHeap \<Rightarrow> maxMinHeap" where
  "up w i h =
     (if i = 0 then h
      else let parentIndex = (i - 1) div 2
           in if isMinLevel i
              then if heap_less h (heap_items h ! i) (heap_items h ! parentIndex)
                   then upMax w parentIndex (swap w i parentIndex h)
                   else upMin w i h
              else if heap_less h (heap_items h ! parentIndex) (heap_items h ! i)
                   then upMin w parentIndex (swap w i parentIndex h)
                   else upMax w i h)"

subsection \<open>Bubbling down\<close>

definition findSmallestChildOrGrandchild :: "nat \<Rightarrow> maxMinHeap \<Rightarrow> nat option" where
  "findSmallestChildOrGrandchild i h =
     (let xs = heap_items h; leftChild = 2 * i + 1
      in if leftChild \<ge> length xs then None
         else let rightChild = 2 * i + 2;
                  m = (if rightChild < length xs \<and> heap_less h (xs ! leftChild) (xs ! rightChild)
                       then rightChild else leftChild);
                  grandchildStart = 2 * leftChild + 1
              in Some (foldl (\<lambda>m j. if heap_less h (xs ! m) (xs ! j) then j else m) m
                   [grandchildStart ..< min (grandchildStart + 4) (length xs)]))"

definition findLargestChildOrGrandchild :: "nat \<Rightarrow> maxMinHeap \<Rightarrow> nat option" where
  "findLargestChildOrGrandchild i h =
     (let xs = heap_items h; leftChild = 2 * i + 1
      in if leftChild \<ge> length xs then None
         else let rightChild = 2 * i + 2;
                  m = (if rightChild < length xs \<and> heap_less h (xs ! rightChild) (xs ! leftChild)
                       then rightChild else leftChild);
                  grandchildStart = 2 * leftChild + 1
              in Some (foldl (\<lambda>m j. if heap_less h (xs ! j) (xs ! m) then j else m) m
                   [grandchildStart ..< min (grandchildStart + 4) (length xs)]))"

lemma set_index_items [simp]: "heap_items (set_index w it k h) = heap_items h"
  by (simp add: set_index_def split: option.split)

lemma swap_length [simp]: "length (heap_items (swap w i j h)) = length (heap_items h)"
  by (simp add: swap_def Let_def)

lemma foldl_pick_in:
  "foldl (\<lambda>m j. if P m j then j else m) m js \<in> insert m (set js)"
proof (induction js arbitrary: m)
  case (Cons j js)
  from Cons.IH [of "if P m j then j else m"] show ?case by auto
qed simp

text \<open>Both searches are one search, for the comparator and for its converse.\<close>

definition pick_descendant :: "('a \<Rightarrow> 'a \<Rightarrow> bool) \<Rightarrow> nat \<Rightarrow> 'a list \<Rightarrow> nat option" where
  "pick_descendant lt i xs =
     (if length xs \<le> 2 * i + 1 then None
      else Some (foldl (\<lambda>m j. if lt (xs ! m) (xs ! j) then j else m)
             (if 2 * i + 2 < length xs \<and> lt (xs ! (2 * i + 1)) (xs ! (2 * i + 2))
              then 2 * i + 2 else 2 * i + 1)
             [2 * (2 * i + 1) + 1 ..< min (2 * (2 * i + 1) + 1 + 4) (length xs)]))"

lemma findSmallest_pick:
  "findSmallestChildOrGrandchild i h = pick_descendant (heap_less h) i (heap_items h)"
  by (simp add: findSmallestChildOrGrandchild_def pick_descendant_def Let_def del: One_nat_def)

lemma findLargest_pick:
  "findLargestChildOrGrandchild i h = pick_descendant (\<lambda>a b. heap_less h b a) i (heap_items h)"
  by (simp add: findLargestChildOrGrandchild_def pick_descendant_def Let_def del: One_nat_def)

lemma pick_descendant_cases:
  assumes "pick_descendant lt i xs = Some m"
  shows "m < length xs \<and> (m = 2 * i + 1 \<or> m = 2 * i + 2 \<or> 4 * i + 3 \<le> m \<and> m \<le> 4 * i + 6)"
proof -
  define m0 where "m0 = (if 2 * i + 2 < length xs \<and> lt (xs ! (2 * i + 1)) (xs ! (2 * i + 2))
    then 2 * i + 2 else 2 * i + 1)"
  define js where "js = [2 * (2 * i + 1) + 1 ..< min (2 * (2 * i + 1) + 1 + 4) (length xs)]"
  from assms have n: "2 * i + 1 < length xs"
    and m: "m = foldl (\<lambda>m j. if lt (xs ! m) (xs ! j) then j else m) m0 js"
    unfolding pick_descendant_def m0_def js_def by (auto split: if_splits)
  have "m = m0 \<or> m \<in> set js"
    using foldl_pick_in [of "\<lambda>m j. lt (xs ! m) (xs ! j)" m0 js] by (simp add: m)
  moreover have "m0 < length xs \<and> (m0 = 2 * i + 1 \<or> m0 = 2 * i + 2)"
    using n by (simp add: m0_def)
  ultimately show ?thesis by (auto simp: js_def)
qed

lemma findSmallest_range:
  "findSmallestChildOrGrandchild i h = Some m \<Longrightarrow> i < m \<and> m < length (heap_items h)"
  using pick_descendant_cases [of "heap_less h" i "heap_items h" m] by (auto simp: findSmallest_pick)

lemma findLargest_range:
  "findLargestChildOrGrandchild i h = Some m \<Longrightarrow> i < m \<and> m < length (heap_items h)"
  using pick_descendant_cases [of "\<lambda>a b. heap_less h b a" i "heap_items h" m]
  by (auto simp: findLargest_pick)

function downMin :: "world \<Rightarrow> nat \<Rightarrow> maxMinHeap \<Rightarrow> maxMinHeap" where
  "downMin w i h =
     (case findSmallestChildOrGrandchild i h of
        None \<Rightarrow> h
      | Some m \<Rightarrow>
          if heap_less h (heap_items h ! i) (heap_items h ! m)
          then let h1 = swap w i m h;
                   parentOfM = (m - 1) div 2;
                   h2 = (if parentOfM \<noteq> i
                         then if heap_less h1 (heap_items h1 ! m) (heap_items h1 ! parentOfM)
                              then swap w m parentOfM h1 else h1
                         else h1)
               in downMin w m h2
          else h)"
  by pat_completeness auto
termination
  by (relation "measure (\<lambda>(w, i, h). length (heap_items h) - i)")
    (auto dest!: findSmallest_range intro!: diff_less_mono2)

function downMax :: "world \<Rightarrow> nat \<Rightarrow> maxMinHeap \<Rightarrow> maxMinHeap" where
  "downMax w i h =
     (case findLargestChildOrGrandchild i h of
        None \<Rightarrow> h
      | Some m \<Rightarrow>
          if heap_less h (heap_items h ! m) (heap_items h ! i)
          then let h1 = swap w i m h;
                   parentOfM = (m - 1) div 2;
                   h2 = (if parentOfM \<noteq> i
                         then if heap_less h1 (heap_items h1 ! parentOfM) (heap_items h1 ! m)
                              then swap w m parentOfM h1 else h1
                         else h1)
               in downMax w m h2
          else h)"
  by pat_completeness auto
termination
  by (relation "measure (\<lambda>(w, i, h). length (heap_items h) - i)")
    (auto dest!: findLargest_range intro!: diff_less_mono2)

definition down :: "world \<Rightarrow> nat \<Rightarrow> maxMinHeap \<Rightarrow> maxMinHeap" where
  "down w i h = (if isMinLevel i then downMin w i h else downMax w i h)"

declare upMin.simps [simp del] upMax.simps [simp del] downMin.simps [simp del]
  downMax.simps [simp del] floor_log2.simps [simp del]

subsection \<open>Adding\<close>

definition push :: "queue_item \<Rightarrow> world \<times> maxMinHeap \<Rightarrow> world \<times> maxMinHeap" where
  "push it = (\<lambda>(w, h).
     let heapItem = HeapItem (next_addr w);
         w1 = SetHandle it heapItem (w\<lparr>next_addr := Suc (next_addr w)\<rparr>);
         h1 = h\<lparr>heap_items := heap_items h @ [it],
                heap_handles := (heap_handles h)(heapItem := Some (length (heap_items h)))\<rparr>
     in (w1, up w1 (length (heap_items h1) - 1) h1))"

definition heap_Add :: "queue_item \<Rightarrow> world \<times> maxMinHeap \<Rightarrow> world \<times> maxMinHeap" where
  "heap_Add it s =
     (let (w, h) = push it s in (w, h\<lparr>heap_byteSize := heap_byteSize h + item_size it\<rparr>))"

subsection \<open>Removing\<close>

definition heap_Remove ::
  "queue_handle option \<Rightarrow> world \<times> maxMinHeap \<Rightarrow> (gerror + queue_item) \<times> world \<times> maxMinHeap" where
  "heap_Remove handle = (\<lambda>(w, h).
     case handle of
       None \<Rightarrow> (Inl (Sentinel ErrInvalidQueueItemHandle), w, h)
     | Some hn \<Rightarrow>
         if isInvalidated w hn then (Inl (Sentinel ErrInvalidQueueItemHandle), w, h)
         else (case hn of
             ListItemHandle _ _ _ \<Rightarrow> (Inl (Sentinel ErrInvalidQueueItemHandle), w, h)
           | HeapItem _ \<Rightarrow>
               (case heap_handles h hn of
                  None \<Rightarrow> (Inl (Sentinel ErrQueueItemNotFound), w, h)
                | Some i \<Rightarrow>
                    if i < length (heap_items h)
                    then let it = heap_items h ! i;
                             n = length (heap_items h) - 1;
                             drop_last = (\<lambda>h. h\<lparr>heap_items := take n (heap_items h),
                               heap_handles := (heap_handles h)(hn := None),
                               heap_byteSize := heap_byteSize h + (NOT (item_size it) + 1)\<rparr>);
                             h1 = (if i < n then down w i (drop_last (swap w i n h)) else drop_last h)
                         in (Inr it, Invalidate hn w, h1)
                    else (Inl (Errorf ''index out of range'' []), w, h\<lparr>heap_panicked := True\<rparr>))))"

subsection \<open>Cleanup and Drain\<close>

text \<open>The first loop of \<open>Cleanup\<close>: removed items and kept items in array order.\<close>

fun cleanup_scan :: "(queue_item \<Rightarrow> bool) \<Rightarrow> queue_item list \<Rightarrow> world \<times> maxMinHeap \<Rightarrow>
    queue_item list \<times> queue_item list \<times> world \<times> maxMinHeap" where
  "cleanup_scan predicate [] (w, h) = ([], [], w, h)"
| "cleanup_scan predicate (it # its) (w, h) =
     (if predicate it
      then let w1 = invalidate_item it w;
               h1 = (case Handle w it of
                       None \<Rightarrow> h
                     | Some hn \<Rightarrow> h\<lparr>heap_handles := (heap_handles h)(hn := None)\<rparr>);
               h2 = h1\<lparr>heap_byteSize := heap_byteSize h1 + (NOT (item_size it) + 1)\<rparr>;
               (removed, kept, s) = cleanup_scan predicate its (w1, h2)
           in (it # removed, kept, s)
      else let (removed, kept, s) = cleanup_scan predicate its (w, h) in (removed, it # kept, s))"

definition reindex :: "world \<Rightarrow> maxMinHeap \<Rightarrow> maxMinHeap" where
  "reindex w h = fold (\<lambda>(i, it). set_index w it i) (enumerate 0 (heap_items h)) h"

definition heapify :: "world \<Rightarrow> maxMinHeap \<Rightarrow> maxMinHeap" where
  "heapify w h = fold (down w) (rev [0 ..< length (heap_items h) div 2]) h"

definition heap_Cleanup ::
  "(queue_item \<Rightarrow> bool) \<Rightarrow> world \<times> maxMinHeap \<Rightarrow> queue_item list \<times> world \<times> maxMinHeap" where
  "heap_Cleanup predicate s =
     (let (removedItems, itemsToKeep, w, h) = cleanup_scan predicate (heap_items (snd s)) s
      in if removedItems = [] then (removedItems, w, h)
         else (removedItems, w, heapify w (reindex w (h\<lparr>heap_items := itemsToKeep\<rparr>))))"

definition heap_Drain :: "world \<times> maxMinHeap \<Rightarrow> queue_item list \<times> world \<times> maxMinHeap" where
  "heap_Drain = (\<lambda>(w, h).
     (heap_items h, fold invalidate_item (heap_items h) w,
      h\<lparr>heap_items := [], heap_handles := (\<lambda>_. None), heap_byteSize := 0\<rparr>))"

end
