(* ===== verification/MaxMinHeap_Order.thy ===== *)
theory MaxMinHeap_Order
  imports MaxMinHeap
begin

text \<open>
  The order theory of the max-min heap, on arrays (lists) and an arbitrary comparator.

  \<open>anc a d\<close> says that index \<open>a\<close> is a proper ancestor of \<open>d\<close> in the implicit binary tree.
  \<open>mn\<close> tells the min levels from the max levels; the two kinds alternate. The array is a
  heap when every ancestor dominates its descendants in the direction of its level.
  \<open>heap_except\<close> exempts some pairs: the states between the swaps of \<open>up\<close> and \<open>down\<close>.
  Everything is proved for one direction; the other is its mirror image under the
  converse comparator and the complement of \<open>mn\<close>.
\<close>

subsection \<open>The implicit tree\<close>

definition parent :: "nat \<Rightarrow> nat" where
  "parent i = (i - 1) div 2"

inductive anc :: "nat \<Rightarrow> nat \<Rightarrow> bool" where
  anc_parent: "0 < d \<Longrightarrow> anc (parent d) d"
| anc_up: "0 < d \<Longrightarrow> anc a (parent d) \<Longrightarrow> anc a d"

definition alternating :: "(nat \<Rightarrow> bool) \<Rightarrow> bool" where
  "alternating mn \<longleftrightarrow> (\<forall>d>0. mn d = (\<not> mn (parent d)))"

definition dominates :: "('a \<Rightarrow> 'a \<Rightarrow> bool) \<Rightarrow> (nat \<Rightarrow> bool) \<Rightarrow> nat \<Rightarrow> 'a \<Rightarrow> 'a \<Rightarrow> bool" where
  "dominates lt mn a x y = (if mn a then \<not> lt x y else \<not> lt y x)"

definition heap_except ::
  "('a \<Rightarrow> 'a \<Rightarrow> bool) \<Rightarrow> (nat \<Rightarrow> bool) \<Rightarrow> (nat \<Rightarrow> nat \<Rightarrow> bool) \<Rightarrow> 'a list \<Rightarrow> bool" where
  "heap_except lt mn Q xs \<longleftrightarrow>
     (\<forall>a d. anc a d \<longrightarrow> d < length xs \<longrightarrow> Q a d \<or> dominates lt mn a (xs ! a) (xs ! d))"

abbreviation heap_ok :: "('a \<Rightarrow> 'a \<Rightarrow> bool) \<Rightarrow> (nat \<Rightarrow> bool) \<Rightarrow> 'a list \<Rightarrow> bool" where
  "heap_ok lt mn \<equiv> heap_except lt mn (\<lambda>_ _. False)"

definition no_ties :: "('a \<Rightarrow> 'a \<Rightarrow> bool) \<Rightarrow> 'a list \<Rightarrow> bool" where
  "no_ties lt xs \<longleftrightarrow>
     distinct xs \<and> (\<forall>x\<in>set xs. \<forall>y\<in>set xs. x \<noteq> y \<longrightarrow> lt x y \<or> lt y x)"

lemma parent_less [simp]: "0 < d \<Longrightarrow> parent d < d"
  by (auto simp: parent_def)

lemma anc_less: "anc a d \<Longrightarrow> a < d"
  by (induction rule: anc.induct) (auto intro: less_trans parent_less)

lemma anc_pos: "anc a d \<Longrightarrow> 0 < d"
  using anc_less by fastforce

lemma anc_unfold: "anc a d \<longleftrightarrow> 0 < d \<and> (a = parent d \<or> anc a (parent d))"
  by (subst anc.simps) auto

lemma anc_trans: "anc b c \<Longrightarrow> anc a b \<Longrightarrow> anc a c"
  by (induction rule: anc.induct) (auto intro: anc.intros)

lemma parent_child [simp]: "parent (2 * i + 1) = i" "parent (2 * i + 2) = i"
  "parent (Suc (2 * i)) = i" "parent (Suc (Suc (2 * i))) = i"
  by (auto simp: parent_def)

lemma parent_eq_iff: "0 < d \<Longrightarrow> parent d = i \<longleftrightarrow> d = 2 * i + 1 \<or> d = 2 * i + 2"
  by (auto simp: parent_def)

lemma grandparent_eq_iff:
  "0 < d \<Longrightarrow> 0 < parent d \<Longrightarrow> parent (parent d) = i \<longleftrightarrow> 4 * i + 3 \<le> d \<and> d \<le> 4 * i + 6"
  by (simp add: parent_eq_iff) arith

lemma anc_below:
  "anc i d \<Longrightarrow> parent d = i \<or> (\<exists>e. 0 < e \<and> parent e = i \<and> anc e d)"
proof (induction rule: anc.induct)
  case (anc_up d a)
  show ?case
  proof (cases "parent (parent d) = a")
    case True
    then show ?thesis using anc_parent [OF anc_up.hyps(1)] anc_pos [OF anc_up.hyps(2)] by blast
  next
    case False
    with anc_up.IH obtain e where "0 < e" "parent e = a" "anc e (parent d)" by blast
    then show ?thesis using anc.anc_up [OF anc_up.hyps(1)] by blast
  qed
qed simp

lemma anc_below2:
  assumes "anc i d"
  shows "parent d = i \<or> (0 < parent d \<and> parent (parent d) = i) \<or>
    (\<exists>e. 0 < parent e \<and> parent (parent e) = i \<and> anc e d)"
proof (cases "parent d = i")
  case False
  with anc_below [OF assms] obtain e where e: "0 < e" "parent e = i" "anc e d" by blast
  from anc_below [OF e(3)] e show ?thesis by metis
qed simp

lemma alternating_anc2:
  "alternating mn \<Longrightarrow> 0 < d \<Longrightarrow> 0 < parent d \<Longrightarrow> mn (parent (parent d)) = mn d"
  by (auto simp: alternating_def)

lemma alternating_parent: "alternating mn \<Longrightarrow> 0 < d \<Longrightarrow> mn (parent d) = (\<not> mn d)"
  by (auto simp: alternating_def)

lemma alternating_flip: "alternating mn \<Longrightarrow> alternating (\<lambda>i. \<not> mn i)"
  by (auto simp: alternating_def)

lemma isMinLevel_alternating: "alternating isMinLevel"
proof -
  have "isMinLevel d = (\<not> isMinLevel (parent d))" if "0 < d" for d
  proof -
    have "(d + 1) div 2 = parent d + 1" using that by (auto simp: parent_def)
    then have "floor_log2 (d + 1) = Suc (floor_log2 (parent d + 1))"
      using that by (subst floor_log2.simps) simp
    then show ?thesis by (simp add: isMinLevel_def) presburger
  qed
  then show ?thesis by (simp add: alternating_def)
qed

lemma isMinLevel_0 [simp]: "\<not> isMinLevel 0"
  by (simp add: isMinLevel_def floor_log2.simps)

lemma dominates_flip: "dominates (\<lambda>a b. lt b a) (\<lambda>i. \<not> mn i) = dominates lt mn"
  by (simp add: dominates_def fun_eq_iff)

lemma heap_except_flip:
  "heap_except (\<lambda>a b. lt b a) (\<lambda>i. \<not> mn i) = heap_except lt mn"
  by (simp add: heap_except_def dominates_flip fun_eq_iff)

lemma no_ties_flip: "no_ties (\<lambda>a b. lt b a) = no_ties lt"
  by (auto simp: no_ties_def fun_eq_iff)

lemma heap_exceptD:
  "heap_except lt mn Q xs \<Longrightarrow> anc a d \<Longrightarrow> d < length xs \<Longrightarrow> \<not> Q a d \<Longrightarrow> dominates lt mn a (xs ! a) (xs ! d)"
  by (auto simp: heap_except_def)

lemma heap_exceptI:
  "(\<And>a d. anc a d \<Longrightarrow> d < length xs \<Longrightarrow> \<not> Q a d \<Longrightarrow> dominates lt mn a (xs ! a) (xs ! d)) \<Longrightarrow>
    heap_except lt mn Q xs"
  by (auto simp: heap_except_def)

lemma heap_except_mono:
  "heap_except lt mn Q xs \<Longrightarrow> (\<And>a d. anc a d \<Longrightarrow> d < length xs \<Longrightarrow> Q a d \<Longrightarrow> Q' a d) \<Longrightarrow>
    heap_except lt mn Q' xs"
  by (auto simp: heap_except_def)

lemma no_ties_nth:
  "no_ties lt xs \<Longrightarrow> j < length xs \<Longrightarrow> k < length xs \<Longrightarrow> j \<noteq> k \<Longrightarrow>
    lt (xs ! j) (xs ! k) \<or> lt (xs ! k) (xs ! j)"
  by (simp add: no_ties_def nth_eq_iff_index_eq)

lemma no_ties_mset: "no_ties lt xs \<Longrightarrow> mset ys = mset xs \<Longrightarrow> no_ties lt ys"
  using mset_eq_imp_distinct_iff [of ys xs] mset_eq_setD [of ys xs] by (simp add: no_ties_def)

subsection \<open>Moving up\<close>

context strict_weak_order
begin

lemma not_lt_trans: "\<not> lt x y \<Longrightarrow> \<not> lt y z \<Longrightarrow> \<not> lt x z"
  using neg_trans by blast

lemma dominates_lower: "dominates lt mn a x y \<Longrightarrow> mn a \<Longrightarrow> \<not> lt x' x \<Longrightarrow> dominates lt mn a x' y"
  using not_lt_trans by (auto simp: dominates_def)

lemma dominates_raise: "dominates lt mn a x y \<Longrightarrow> \<not> mn a \<Longrightarrow> \<not> lt x x' \<Longrightarrow> dominates lt mn a x' y"
  using not_lt_trans by (auto simp: dominates_def)

lemma dominates_lower_below:
  "dominates lt mn a x y \<Longrightarrow> \<not> mn a \<Longrightarrow> \<not> lt y' y \<Longrightarrow> dominates lt mn a x y'"
  using not_lt_trans by (auto simp: dominates_def)

lemma dominates_raise_below:
  "dominates lt mn a x y \<Longrightarrow> mn a \<Longrightarrow> \<not> lt y y' \<Longrightarrow> dominates lt mn a x y'"
  using not_lt_trans by (auto simp: dominates_def)

text \<open>One step: the item at \<open>i\<close> passes its grandparent \<open>g\<close>.\<close>

lemma up_step:
  assumes alt: "alternating mn" and mn: "mn i" and i: "i < length xs" "0 < i" "0 < parent i"
    and g: "g = parent (parent i)"
    and h: "heap_except lt mn (\<lambda>a d. d = i \<and> mn a) xs"
    and lt: "lt (xs ! g) (xs ! i)"
  shows "heap_except lt mn (\<lambda>a d. d = g \<and> mn a) (list_swap i g xs)"
proof (rule heap_exceptI)
  fix a d
  assume anc: "anc a d" and d: "d < length (list_swap i g xs)" and nq: "\<not> (d = g \<and> mn a)"
  let ?ys = "list_swap i g xs"
  have pi: "parent i < i" and gp: "g < parent i" using i by (simp_all add: g)
  then have gi: "g < i" by simp
  have mng: "mn g" using alternating_anc2 [OF alt i(2,3)] mn by (simp add: g)
  have mnp: "\<not> mn (parent i)" using alternating_parent [OF alt i(2)] mn by simp
  have ad: "a < d" using anc by (rule anc_less)
  have dl: "d < length xs" using d by simp
  have al: "a < length xs" using ad dl by simp
  have nth: "?ys ! k = (if k = i then xs ! g else if k = g then xs ! i else xs ! k)"
    if "k < length xs" for k
    using that i gi by (simp add: nth_list_swap)
  have anc_gp: "anc g (parent i)" using anc_parent [OF i(3)] by (simp add: g)
  have anc_gi: "anc g i" using anc_up [OF i(2) anc_gp] .
  have H: "dominates lt mn a' (xs ! a') (xs ! d')"
    if "anc a' d'" "d' < length xs" "d' \<noteq> i \<or> \<not> mn a'" for a' d'
    using heap_exceptD [OF h that(1,2)] that(3) by auto
  have nlt: "\<not> lt (xs ! i) (xs ! g)" using lt by (rule asym)
  consider (i) "d = i" | (g) "d = g" | (other) "d \<noteq> i" "d \<noteq> g" by blast
  then show "dominates lt mn a (?ys ! a) (?ys ! d)"
  proof cases
    case i
    then consider "a = parent i" | "a = g" | "anc a g"
      using anc anc_unfold [of a i] anc_unfold [of a "parent i"] g by blast
    then show ?thesis
    proof cases
      case 1
      from H [OF anc_gp] pi \<open>i < length xs\<close> have "dominates lt mn g (xs ! g) (xs ! parent i)"
        by simp
      then have "dominates lt mn a (xs ! a) (xs ! g)"
        using 1 mnp mng by (simp add: dominates_def)
      then show ?thesis using 1 i gp pi al dl by (simp add: nth)
    next
      case 2
      then show ?thesis using i gi al dl mng nlt by (simp add: nth dominates_def)
    next
      case 3
      then have "dominates lt mn a (xs ! a) (xs ! g)" "a < g"
        using H [OF 3] gi \<open>i < length xs\<close> by (simp_all add: anc_less)
      then show ?thesis using i gi al dl by (simp add: nth)
    qed
  next
    case g
    then have "\<not> mn a" using nq by simp
    moreover have "dominates lt mn a (xs ! a) (xs ! g)" using H [OF anc dl] g gi by simp
    ultimately have "dominates lt mn a (xs ! a) (xs ! i)"
      using nlt dominates_lower_below by blast
    then show ?thesis using g ad gi al dl by (simp add: nth)
  next
    case other
    show ?thesis
    proof (cases "a = i \<or> a = g")
      case True
      then have "anc g d" using anc anc_gi anc_trans by blast
      then have dg: "dominates lt mn g (xs ! g) (xs ! d)" using H dl other by simp
      then have "dominates lt mn g (xs ! i) (xs ! d)"
        using mng nlt by (rule dominates_lower)
      with dg show ?thesis using True other al dl mn mng gi by (auto simp: nth dominates_def)
    next
      case False
      then show ?thesis using H [OF anc dl] other al dl by (simp add: nth)
    qed
  qed
qed

end

context strict_weak_order
begin

lemma up_stop:
  assumes alt: "alternating mn" and mn: "mn i" and i: "i < length xs"
    and h: "heap_except lt mn (\<lambda>a d. d = i \<and> mn a) xs"
    and stop: "0 < i \<Longrightarrow> 0 < parent i \<Longrightarrow> \<not> lt (xs ! parent (parent i)) (xs ! i)"
  shows "heap_ok lt mn xs"
proof (rule heap_exceptI)
  fix a d
  assume anc: "anc a d" and dl: "d < length xs"
  show "dominates lt mn a (xs ! a) (xs ! d)"
  proof (cases "d = i \<and> mn a")
    case False
    then show ?thesis using heap_exceptD [OF h anc dl] by blast
  next
    case True
    let ?g = "parent (parent i)"
    have i0: "0 < i" using anc True anc_pos by blast
    have "a \<noteq> parent i" using alternating_parent [OF alt i0] mn True by blast
    then have ap: "anc a (parent i)" using anc True anc_unfold by blast
    then have p0: "0 < parent i" by (rule anc_pos)
    have ng: "\<not> lt (xs ! ?g) (xs ! i)" using stop i0 p0 .
    have gi: "?g < i" using i0 p0 parent_less less_trans by blast
    consider "a = ?g" | "anc a ?g" using ap anc_unfold by blast
    then show ?thesis
    proof cases
      case 1
      then show ?thesis using True ng by (simp add: dominates_def)
    next
      case 2
      have "dominates lt mn a (xs ! a) (xs ! ?g)"
        using heap_exceptD [OF h 2] gi i by simp
      then show ?thesis using True ng dominates_raise_below by blast
    qed
  qed
qed

lemma up_start_swap:
  assumes alt: "alternating mn" and mn: "mn i" and i: "i < length xs" "0 < i"
    and leaf: "\<And>d. anc i d \<Longrightarrow> \<not> d < length xs"
    and h: "heap_except lt mn (\<lambda>a d. d = i) xs"
    and lt: "lt (xs ! i) (xs ! parent i)"
  shows "heap_except lt mn (\<lambda>a d. d = parent i \<and> \<not> mn a) (list_swap i (parent i) xs)"
proof (rule heap_exceptI)
  fix a d
  let ?p = "parent i" and ?ys = "list_swap i (parent i) xs"
  assume anc: "anc a d" and d: "d < length ?ys" and nq: "\<not> (d = ?p \<and> \<not> mn a)"
  have pi: "?p < i" using i by simp
  have mnp: "\<not> mn ?p" using alternating_parent [OF alt i(2)] mn by simp
  have ad: "a < d" using anc by (rule anc_less)
  have dl: "d < length xs" using d by simp
  have al: "a < length xs" using ad dl by simp
  have nth: "?ys ! k = (if k = i then xs ! ?p else if k = ?p then xs ! i else xs ! k)"
    if "k < length xs" for k
    using that i pi by (simp add: nth_list_swap)
  have H: "dominates lt mn a' (xs ! a') (xs ! d')" if "anc a' d'" "d' < length xs" "d' \<noteq> i" for a' d'
    using heap_exceptD [OF h that(1,2)] that(3) by auto
  have nlt: "\<not> lt (xs ! ?p) (xs ! i)" using lt by (rule asym)
  have ai: "a \<noteq> i" using leaf anc dl by blast
  consider (i) "d = i" | (p) "d = ?p" | (other) "d \<noteq> i" "d \<noteq> ?p" by blast
  then show "dominates lt mn a (?ys ! a) (?ys ! d)"
  proof cases
    case i
    then consider "a = ?p" | "anc a ?p" using anc anc_unfold by blast
    then show ?thesis
    proof cases
      case 1
      then show ?thesis using i pi al dl mnp nlt by (simp add: nth dominates_def)
    next
      case 2
      then have "dominates lt mn a (xs ! a) (xs ! ?p)" "a < ?p"
        using H [OF 2] pi \<open>i < length xs\<close> by (simp_all add: anc_less)
      then show ?thesis using i ai al dl by (simp add: nth)
    qed
  next
    case p
    then have "mn a" using nq by simp
    moreover have "dominates lt mn a (xs ! a) (xs ! ?p)" using H [OF anc dl] p pi by simp
    ultimately have "dominates lt mn a (xs ! a) (xs ! i)"
      using nlt dominates_raise_below by blast
    then show ?thesis using p ad pi al dl by (simp add: nth)
  next
    case other
    show ?thesis
    proof (cases "a = ?p")
      case True
      then have "dominates lt mn ?p (xs ! ?p) (xs ! d)" using H anc dl other by simp
      then have "dominates lt mn ?p (xs ! i) (xs ! d)" using mnp nlt dominates_raise by blast
      then show ?thesis using True other al dl pi by (simp add: nth)
    next
      case False
      then show ?thesis using H [OF anc dl] other al dl ai by (simp add: nth)
    qed
  qed
qed

lemma up_start_stay:
  assumes alt: "alternating mn" and mn: "mn i" and i: "i < length xs" "0 < i"
    and h: "heap_except lt mn (\<lambda>a d. d = i) xs"
    and nlt: "\<not> lt (xs ! i) (xs ! parent i)"
  shows "heap_except lt mn (\<lambda>a d. d = i \<and> mn a) xs"
proof (rule heap_exceptI)
  fix a d
  assume anc: "anc a d" and dl: "d < length xs" and nq: "\<not> (d = i \<and> mn a)"
  let ?p = "parent i"
  show "dominates lt mn a (xs ! a) (xs ! d)"
  proof (cases "d = i")
    case False
    then show ?thesis using heap_exceptD [OF h anc dl] by blast
  next
    case True
    then have nmn: "\<not> mn a" using nq by simp
    consider "a = ?p" | "anc a ?p" using anc True anc_unfold by blast
    then show ?thesis
    proof cases
      case 1
      then show ?thesis using True nmn nlt by (simp add: dominates_def)
    next
      case 2
      have "dominates lt mn a (xs ! a) (xs ! ?p)"
        using heap_exceptD [OF h 2] i parent_less [OF i(2)] by simp
      then show ?thesis using True nmn nlt dominates_lower_below by blast
    qed
  qed
qed

subsection \<open>Moving down\<close>

lemma foldl_least:
  "\<forall>j \<in> insert m (set js). \<not> lt (f (foldl (\<lambda>m j. if lt (f m) (f j) then j else m) m js)) (f j)"
proof (induction js arbitrary: m)
  case (Cons k js)
  let ?m = "if lt (f m) (f k) then k else m"
  let ?r = "foldl (\<lambda>m j. if lt (f m) (f j) then j else m) ?m js"
  have r: "\<not> lt (f ?r) (f ?m)" and rest: "\<forall>j \<in> set js. \<not> lt (f ?r) (f j)"
    using Cons.IH [of ?m] by auto
  have "\<not> lt (f ?m) (f m)" "\<not> lt (f ?m) (f k)" using asym by auto
  then have "\<not> lt (f ?r) (f m)" "\<not> lt (f ?r) (f k)" using r not_lt_trans by blast+
  then show ?case using rest by simp
qed simp

end

definition kid :: "nat \<Rightarrow> nat \<Rightarrow> bool" where
  "kid i j \<longleftrightarrow> 0 < j \<and> (parent j = i \<or> 0 < parent j \<and> parent (parent j) = i)"

lemma kid_iff: "kid i j \<longleftrightarrow> j = 2 * i + 1 \<or> j = 2 * i + 2 \<or> 4 * i + 3 \<le> j \<and> j \<le> 4 * i + 6"
proof (cases "0 < j")
  case True
  have "0 < parent j" if "4 * i + 3 \<le> j" using that by (simp add: parent_def)
  then show ?thesis
    using True parent_eq_iff [OF True] grandparent_eq_iff [OF True] by (auto simp: kid_def)
qed (simp add: kid_def)

lemma kid_anc: "kid i j \<Longrightarrow> anc i j"
  unfolding kid_def using anc_parent anc_up by blast

lemma pick_kid: "pick_descendant lt i xs = Some m \<Longrightarrow> kid i m \<and> m < length xs"
  using pick_descendant_cases by (fastforce simp: kid_iff)

lemma pick_None: "pick_descendant lt i xs = None \<Longrightarrow> anc i d \<Longrightarrow> \<not> d < length xs"
proof
  assume none: "pick_descendant lt i xs = None" and anc: "anc i d" and d: "d < length xs"
  have "length xs \<le> 2 * i + 1" using none by (simp add: pick_descendant_def split: if_splits)
  moreover obtain e where "parent e = i" "0 < e" "e \<le> d"
    using anc_below [OF anc] anc_pos [OF anc] anc_less by (metis less_imp_le order_refl)
  ultimately show False using d parent_eq_iff [of e i] by auto
qed

lemma anc_linear: "anc a d \<Longrightarrow> anc b d \<Longrightarrow> a = b \<or> anc a b \<or> anc b a"
proof (induction rule: anc.induct)
  case (anc_parent d)
  then show ?case using anc_unfold [of b d] by blast
next
  case (anc_up d a)
  then show ?case using anc_unfold [of b d] by blast
qed

context strict_weak_order
begin

lemma pick_least:
  assumes pick: "pick_descendant lt i xs = Some m" and j: "kid i j" "j < length xs"
  shows "\<not> lt (xs ! m) (xs ! j)"
proof -
  define m0 where "m0 = (if 2 * i + 2 < length xs \<and> lt (xs ! (2 * i + 1)) (xs ! (2 * i + 2))
    then 2 * i + 2 else 2 * i + 1)"
  define js where "js = [2 * (2 * i + 1) + 1 ..< min (2 * (2 * i + 1) + 1 + 4) (length xs)]"
  from pick have "2 * i + 1 < length xs"
    and m: "m = foldl (\<lambda>m j. if lt (xs ! m) (xs ! j) then j else m) m0 js"
    unfolding pick_descendant_def m0_def js_def by (auto split: if_splits)
  have least: "\<forall>j \<in> insert m0 (set js). \<not> lt (xs ! m) (xs ! j)"
    unfolding m by (rule foldl_least)
  consider "j = 2 * i + 1" | "j = 2 * i + 2" | "j \<in> set js"
    using j by (auto simp: kid_iff js_def)
  then show ?thesis
  proof cases
    case 1
    have "\<not> lt (xs ! m0) (xs ! (2 * i + 1))" using asym by (auto simp: m0_def)
    with least 1 show ?thesis using not_lt_trans by blast
  next
    case 2
    then have "\<not> lt (xs ! m0) (xs ! (2 * i + 2))" using j(2) by (auto simp: m0_def)
    with least 2 show ?thesis using not_lt_trans by blast
  qed (use least in blast)
qed

lemma below_least:
  assumes alt: "alternating mn" and mn: "mn i" and s: "s \<le> i"
    and h: "heap_except lt mn (\<lambda>a d. a < s \<or> a = i) xs"
    and least: "\<And>j. kid i j \<Longrightarrow> j < length xs \<Longrightarrow> \<not> lt x (xs ! j)"
    and d: "anc i d" "d < length xs"
  shows "\<not> lt x (xs ! d)"
proof (cases "kid i d")
  case True
  then show ?thesis using least d by blast
next
  case False
  then obtain e where e: "0 < parent e" "parent (parent e) = i" "anc e d"
    using anc_below2 [OF d(1)] anc_pos [OF d(1)] by (auto simp: kid_def)
  have e0: "0 < e" using e(1) by (cases e) (auto simp: parent_def)
  then have kid: "kid i e" using e by (simp add: kid_def)
  then have ie: "i < e" using kid_anc anc_less by blast
  have el: "e < length xs" using e(3) anc_less d(2) by (meson less_trans)
  have mne: "mn e" using alternating_anc2 [OF alt e0 e(1)] e(2) mn by simp
  have "dominates lt mn e (xs ! e) (xs ! d)" using heap_exceptD [OF h e(3) d(2)] ie s by auto
  then have "\<not> lt (xs ! e) (xs ! d)" using mne by (simp add: dominates_def)
  then show ?thesis using least [OF kid el] not_lt_trans by blast
qed

lemma down_leaf:
  assumes "heap_except lt mn (\<lambda>a d. a < s \<or> a = i) xs" "\<And>d. anc i d \<Longrightarrow> \<not> d < length xs"
  shows "heap_except lt mn (\<lambda>a d. a < s) xs"
  using assms by (auto elim!: heap_except_mono)

lemma down_stop:
  assumes alt: "alternating mn" and mn: "mn i" and s: "s \<le> i"
    and h: "heap_except lt mn (\<lambda>a d. a < s \<or> a = i) xs"
    and pick: "pick_descendant lt i xs = Some m" and nlt: "\<not> lt (xs ! i) (xs ! m)"
  shows "heap_except lt mn (\<lambda>a d. a < s) xs"
proof (rule heap_exceptI)
  fix a d
  assume anc: "anc a d" and dl: "d < length xs" and nq: "\<not> a < s"
  show "dominates lt mn a (xs ! a) (xs ! d)"
  proof (cases "a = i")
    case True
    have "\<not> lt (xs ! m) (xs ! d)"
      using below_least [OF alt mn s h pick_least [OF pick]] anc dl True by blast
    then show ?thesis using nlt not_lt_trans mn True by (auto simp: dominates_def)
  next
    case False
    then show ?thesis using heap_exceptD [OF h anc dl] nq by blast
  qed
qed

text \<open>The exchange of \<open>i\<close> with a descendant \<open>m\<close> that is least below \<open>i\<close>.\<close>

lemma down_exchange:
  assumes alt: "alternating mn" and mn: "mn i" and s: "s \<le> i"
    and h: "heap_except lt mn (\<lambda>a d. a < s \<or> a = i) xs"
    and m: "anc i m" "m < length xs"
    and least: "\<And>d. anc i d \<Longrightarrow> d < length xs \<Longrightarrow> \<not> lt (xs ! m) (xs ! d)"
    and lt: "lt (xs ! i) (xs ! m)"
  shows "heap_except lt mn (\<lambda>a d. a < s \<or> a = m \<or> (d = m \<and> anc i a)) (list_swap i m xs)"
proof (rule heap_exceptI)
  fix a d
  let ?ys = "list_swap i m xs"
  assume anc: "anc a d" and d: "d < length ?ys"
    and nq: "\<not> (a < s \<or> a = m \<or> d = m \<and> anc i a)"
  have im: "i < m" using m(1) by (rule anc_less)
  have il: "i < length xs" using im m(2) by simp
  have dl: "d < length xs" using d by simp
  have ad: "a < d" using anc by (rule anc_less)
  have al: "a < length xs" using ad dl by simp
  have nth: "?ys ! k = (if k = i then xs ! m else if k = m then xs ! i else xs ! k)"
    if "k < length xs" for k
    using that il m(2) by (simp add: nth_list_swap)
  have H: "dominates lt mn a' (xs ! a') (xs ! d')"
    if "anc a' d'" "d' < length xs" "\<not> a' < s" "a' \<noteq> i" for a' d'
    using heap_exceptD [OF h that(1,2)] that(3,4) by auto
  show "dominates lt mn a (?ys ! a) (?ys ! d)"
  proof (cases "a = i")
    case True
    have "\<not> lt (xs ! m) (?ys ! d)"
    proof (cases "d = m")
      case True
      then show ?thesis using asym [OF lt] dl im by (simp add: nth)
    next
      case False
      then show ?thesis using least anc \<open>a = i\<close> dl ad by (simp add: nth)
    qed
    then show ?thesis using True mn al im by (simp add: nth dominates_def)
  next
    case False
    then have a: "?ys ! a = xs ! a" using nq al by (simp add: nth)
    consider (i) "d = i" | (m) "d = m" | (other) "d \<noteq> i" "d \<noteq> m" by blast
    then show ?thesis
    proof cases
      case i
      then have "anc a m" using anc anc_trans m(1) by blast
      then show ?thesis using H [OF _ m(2)] nq False a i dl im by (simp add: nth)
    next
      case m
      then have "anc a i"
        using anc False nq anc_linear [of i m a] \<open>anc i m\<close> by blast
      then show ?thesis using H [OF _ il] nq False a m dl im by (simp add: nth)
    next
      case other
      then show ?thesis using H [OF anc dl] nq False a dl by (simp add: nth)
    qed
  qed
qed

end

lemma anc_irrefl [simp]: "\<not> anc a a"
  using anc_less by blast

lemma anc_asym: "anc a b \<Longrightarrow> \<not> anc b a"
  using anc_less less_asym by blast

lemma anc_root: "0 < d \<Longrightarrow> anc 0 d"
proof (induction d rule: less_induct)
  case (less d)
  show ?case
  proof (cases "parent d = 0")
    case True
    then show ?thesis using anc_parent [OF less.prems] by simp
  next
    case False
    then show ?thesis using less.IH [of "parent d"] less.prems anc_up by simp
  qed
qed

context strict_weak_order
begin

lemma down_child:
  assumes alt: "alternating mn" and mn: "mn i" and s: "s \<le> i"
    and h: "heap_except lt mn (\<lambda>a d. a < s \<or> a = i) xs" and ties: "no_ties lt xs"
    and m: "0 < m" "parent m = i" "m < length xs"
    and least: "\<And>d. anc i d \<Longrightarrow> d < length xs \<Longrightarrow> \<not> lt (xs ! m) (xs ! d)"
    and lt: "lt (xs ! i) (xs ! m)"
  shows "heap_except lt mn (\<lambda>a d. a < s) (list_swap i m xs) \<and> (\<forall>d. anc m d \<longrightarrow> \<not> d < length xs)"
proof -
  have im: "anc i m" using anc_parent [OF m(1)] m(2) by simp
  have nmn: "\<not> mn m" using alternating_parent [OF alt m(1)] mn m(2) by simp
  have leaf: "\<not> d < length xs" if "anc m d" for d
  proof
    assume d: "d < length xs"
    have md: "i < m" "m < d" using im that anc_less by blast+
    have "dominates lt mn m (xs ! m) (xs ! d)" using heap_exceptD [OF h that d] md s by auto
    then have "\<not> lt (xs ! d) (xs ! m)" using nmn by (simp add: dominates_def)
    moreover have "\<not> lt (xs ! m) (xs ! d)" using least anc_trans [OF that im] d by blast
    ultimately show False using no_ties_nth [OF ties m(3) d] md by simp
  qed
  have only: "\<not> anc i a" if "anc a m" for a
    using that anc_unfold [of a m] m(2) anc_asym by auto
  have "heap_except lt mn (\<lambda>a d. a < s \<or> a = m \<or> (d = m \<and> anc i a)) (list_swap i m xs)"
    by (rule down_exchange [OF alt mn s h im m(3) least lt])
  then have "heap_except lt mn (\<lambda>a d. a < s) (list_swap i m xs)"
    using leaf only by (auto elim!: heap_except_mono)
  then show ?thesis using leaf by blast
qed

lemma down_grandchild_stay:
  assumes alt: "alternating mn" and mn: "mn i" and m: "0 < m" "0 < parent m" "parent (parent m) = i"
    and h: "heap_except lt mn (\<lambda>a d. a < s \<or> a = m \<or> (d = m \<and> anc i a)) ys"
    and nlt: "\<not> lt (ys ! m) (ys ! parent m)"
  shows "heap_except lt mn (\<lambda>a d. a < s \<or> a = m) ys"
proof (rule heap_exceptI)
  fix a d
  assume anc: "anc a d" and dl: "d < length ys" and nq: "\<not> (a < s \<or> a = m)"
  show "dominates lt mn a (ys ! a) (ys ! d)"
  proof (cases "d = m \<and> anc i a")
    case True
    then have "a = parent m"
      using anc anc_unfold [of a m] anc_unfold [of a "parent m"] m(3) anc_asym by auto
    moreover have "\<not> mn (parent m)" using alternating_parent [OF alt m(2)] m(3) mn by simp
    ultimately show ?thesis using True nlt by (simp add: dominates_def)
  next
    case False
    then show ?thesis using heap_exceptD [OF h anc dl] nq by blast
  qed
qed

lemma down_grandchild_fix:
  assumes alt: "alternating mn" and mn: "mn i" and m: "0 < m" "0 < parent m" "parent (parent m) = i"
      "m < length ys"
    and h: "heap_except lt mn (\<lambda>a d. a < s \<or> a = m \<or> (d = m \<and> anc i a)) ys"
    and lt: "lt (ys ! m) (ys ! parent m)" and im: "\<not> lt (ys ! i) (ys ! m)"
  shows "heap_except lt mn (\<lambda>a d. a < s \<or> a = m) (list_swap m (parent m) ys)"
proof (rule heap_exceptI)
  fix a d
  let ?p = "parent m" and ?zs = "list_swap m (parent m) ys"
  assume anc: "anc a d" and d: "d < length ?zs" and nq: "\<not> (a < s \<or> a = m)"
  have pm: "?p < m" using m by simp
  have ip: "i < ?p" using m(2,3) parent_less by blast
  have pl: "?p < length ys" using pm m(4) by simp
  have mnp: "\<not> mn ?p" using alternating_parent [OF alt m(2)] m(3) mn by simp
  have dl: "d < length ys" using d by simp
  have ad: "a < d" using anc by (rule anc_less)
  have al: "a < length ys" using ad dl by simp
  have nth: "?zs ! k = (if k = m then ys ! ?p else if k = ?p then ys ! m else ys ! k)"
    if "k < length ys" for k
    using that m(4) pl by (simp add: nth_list_swap)
  have H: "dominates lt mn a' (ys ! a') (ys ! d')"
    if "anc a' d'" "d' < length ys" "\<not> a' < s" "a' \<noteq> m" "d' = m \<Longrightarrow> \<not> anc i a'" for a' d'
    using heap_exceptD [OF h that(1,2)] that(3-5) by auto
  have nlt: "\<not> lt (ys ! ?p) (ys ! m)" using lt by (rule asym)
  consider (m) "d = m" | (p) "d = ?p" | (other) "d \<noteq> m" "d \<noteq> ?p" by blast
  then show "dominates lt mn a (?zs ! a) (?zs ! d)"
  proof cases
    case m
    then consider "a = ?p" | "anc a ?p" using anc anc_unfold [of a m] by blast
    then show ?thesis
    proof cases
      case 1
      then show ?thesis using m pm al dl mnp nlt by (simp add: nth dominates_def)
    next
      case 2
      then have "dominates lt mn a (ys ! a) (ys ! ?p)" "a < ?p"
        using H [OF 2 pl] nq pm by (simp_all add: anc_less)
      then show ?thesis using m pm al dl by (simp add: nth)
    qed
  next
    case p
    then consider "a = i" | "anc a i" using anc anc_unfold [of a ?p] \<open>parent (parent m) = i\<close> by blast
    then have "dominates lt mn a (ys ! a) (ys ! m)"
    proof cases
      case 1
      then show ?thesis using im mn by (simp add: dominates_def)
    next
      case 2
      have "anc a m" using anc p anc_up [OF \<open>0 < m\<close>] by blast
      moreover have "\<not> anc i a" using 2 by (rule anc_asym)
      ultimately show ?thesis using H [OF _ \<open>m < length ys\<close>] nq by blast
    qed
    then show ?thesis using p ad pm al dl nq by (simp add: nth)
  next
    case other
    show ?thesis
    proof (cases "a = ?p")
      case True
      then have "dominates lt mn ?p (ys ! ?p) (ys ! d)" using H anc dl other nq by blast
      then have "dominates lt mn ?p (ys ! m) (ys ! d)" using mnp nlt dominates_raise by blast
      then show ?thesis using True other al dl pm by (simp add: nth)
    next
      case False
      then show ?thesis using H [OF anc dl] other al dl nq by (simp add: nth)
    qed
  qed
qed

subsection \<open>The extremes of a heap\<close>

lemma heap_root: "heap_ok lt mn xs \<Longrightarrow> \<not> mn 0 \<Longrightarrow> j < length xs \<Longrightarrow> \<not> lt (xs ! j) (xs ! 0)"
  using heap_exceptD [of lt mn _ xs 0 j] anc_root [of j] by (cases "j = 0") (auto simp: dominates_def)

lemma heap_min:
  assumes h: "heap_ok lt mn xs" and alt: "alternating mn" and root: "\<not> mn 0"
    and j: "0 < j" "j < length xs"
  shows "\<not> lt (xs ! 1) (xs ! j) \<or> 2 < length xs \<and> \<not> lt (xs ! 2) (xs ! j)"
proof -
  have p: "parent 1 = 0" "parent 2 = 0" by (simp_all add: parent_def)
  have mn: "mn 1" "mn 2"
    using alternating_parent [OF alt, of 1] alternating_parent [OF alt, of 2] root p by auto
  have kids: "e = 1 \<or> e = 2" if "0 < e" "parent e = 0" for e
    using that parent_eq_iff [of e 0] by auto
  have "j = 1 \<or> j = 2 \<or> anc 1 j \<or> anc 2 j"
    using anc_below [OF anc_root [OF j(1)]] kids j(1) by metis
  moreover have "\<not> lt (xs ! e) (xs ! j)" if "anc e j" "mn e" for e
    using heap_exceptD [OF h that(1) j(2)] that(2) by (simp add: dominates_def)
  moreover have "2 < length xs" if "anc 2 j" using anc_less [OF that] j(2) by simp
  ultimately show ?thesis using mn j by auto
qed

end

end
