(* ===== verification/MaxMinHeap_Correct.thy ===== *)
theory MaxMinHeap_Correct
  imports MaxMinHeap_Order
begin

text \<open>
  Correctness of the heap operations: what they do to the stored items, that the index
  kept in every handle is the position of its item (so no operation panics), and that the
  array stays a max-min heap.
\<close>

subsection \<open>Invariants\<close>

definition max_min_heap :: "maxMinHeap \<Rightarrow> bool" where
  "max_min_heap h \<longleftrightarrow> heap_ok (heap_less h) isMinLevel (heap_items h)"

definition handles_ok :: "world \<Rightarrow> maxMinHeap \<Rightarrow> bool" where
  "handles_ok w h \<longleftrightarrow>
     \<not> heap_panicked h \<and>
     (\<forall>k<length (heap_items h). \<exists>hn. Handle w (heap_items h ! k) = Some hn) \<and>
     (\<forall>hn k. heap_handles h hn = Some k \<longleftrightarrow>
        k < length (heap_items h) \<and> Handle w (heap_items h ! k) = Some hn)"

definition same_contents :: "maxMinHeap \<Rightarrow> maxMinHeap \<Rightarrow> bool" where
  "same_contents h h' \<longleftrightarrow> mset (heap_items h') = mset (heap_items h) \<and>
     heap_policy h' = heap_policy h \<and> heap_byteSize h' = heap_byteSize h"

definition heap_step :: "world \<Rightarrow> maxMinHeap \<Rightarrow> maxMinHeap \<Rightarrow> bool" where
  "heap_step w h h' \<longleftrightarrow> same_contents h h' \<and> (handles_ok w h \<longrightarrow> handles_ok w h')"

lemma heap_step_refl [simp]: "heap_step w h h"
  by (simp add: heap_step_def same_contents_def)

lemma heap_step_trans: "heap_step w h h' \<Longrightarrow> heap_step w h' h'' \<Longrightarrow> heap_step w h h''"
  by (auto simp: heap_step_def same_contents_def)

lemma heap_step_length: "heap_step w h h' \<Longrightarrow> length (heap_items h') = length (heap_items h)"
  by (metis heap_step_def same_contents_def size_mset)

lemma heap_step_policy: "heap_step w h h' \<Longrightarrow> heap_policy h' = heap_policy h"
  by (simp add: heap_step_def same_contents_def)

subsection \<open>Swapping\<close>

lemma swap_items:
  "i < length (heap_items h) \<Longrightarrow> j < length (heap_items h) \<Longrightarrow>
    heap_items (swap w i j h) = list_swap i j (heap_items h)"
  by (simp add: swap_def Let_def)

lemma set_index_frame [simp]:
  "heap_policy (set_index w it k h) = heap_policy h"
  "heap_byteSize (set_index w it k h) = heap_byteSize h"
  by (simp_all add: set_index_def split: option.split)

lemma swap_frame [simp]:
  "heap_policy (swap w i j h) = heap_policy h"
  "heap_byteSize (swap w i j h) = heap_byteSize h"
  by (simp_all add: swap_def Let_def)

lemma handles_ok_inj:
  "handles_ok w h \<Longrightarrow> i < length (heap_items h) \<Longrightarrow> j < length (heap_items h) \<Longrightarrow>
    Handle w (heap_items h ! i) = Some hn \<Longrightarrow> Handle w (heap_items h ! j) = Some hn \<Longrightarrow> i = j"
  unfolding handles_ok_def by (metis option.inject)

lemma swap_handles_ok:
  assumes ok: "handles_ok w h" and i: "i < length (heap_items h)" and j: "j < length (heap_items h)"
  shows "handles_ok w (swap w i j h)"
proof -
  let ?xs = "heap_items h" and ?ys = "list_swap i j (heap_items h)"
  from ok i j obtain hi hj where h: "Handle w (?xs ! i) = Some hi" "Handle w (?xs ! j) = Some hj"
    unfolding handles_ok_def by meson
  have idx: "heap_handles h hi = Some i" "heap_handles h hj = Some j" "\<not> heap_panicked h"
    using ok i j h unfolding handles_ok_def by metis+
  have nth: "?ys ! i = ?xs ! j" "?ys ! j = ?xs ! i" using i j by (simp_all add: nth_list_swap)
  have eq: "swap w i j h = h\<lparr>heap_items := ?ys, heap_handles := (heap_handles h)(hj := Some i, hi := Some j)\<rparr>"
    using i j idx h nth by (auto simp: swap_def set_index_def Let_def)
  have inj: "hi = hj \<longleftrightarrow> i = j" using handles_ok_inj [OF ok i j] h by auto
  have "((heap_handles h)(hj := Some i, hi := Some j)) hn = Some k \<longleftrightarrow>
      k < length ?xs \<and> Handle w (?ys ! k) = Some hn" for hn k
  proof (cases "k < length ?xs")
    case True
    then have "?ys ! k = (if k = i then ?xs ! j else if k = j then ?xs ! i else ?xs ! k)"
      using i j by (simp add: nth_list_swap)
    moreover have "heap_handles h hn = Some k \<longleftrightarrow> Handle w (?xs ! k) = Some hn"
      using ok True unfolding handles_ok_def by blast
    ultimately show ?thesis using True h idx inj by auto
  next
    case False
    then have "heap_handles h hn \<noteq> Some k" using ok unfolding handles_ok_def by blast
    then show ?thesis using False i j by auto
  qed
  moreover have "\<exists>hn. Handle w (?ys ! k) = Some hn" if "k < length ?xs" for k
    using ok that i j by (auto simp: nth_list_swap handles_ok_def)
  ultimately show ?thesis using idx by (simp add: handles_ok_def eq)
qed

lemma swap_step:
  "i < length (heap_items h) \<Longrightarrow> j < length (heap_items h) \<Longrightarrow> heap_step w h (swap w i j h)"
  by (simp add: heap_step_def same_contents_def swap_handles_ok swap_items)

subsection \<open>The mirror image\<close>

definition flip_policy :: "ordering_policy \<Rightarrow> ordering_policy" where
  "flip_policy p = p\<lparr>Less := \<lambda>a b. Less p b a\<rparr>"

definition flip_heap :: "maxMinHeap \<Rightarrow> maxMinHeap" where
  "flip_heap h = h\<lparr>heap_policy := flip_policy (heap_policy h)\<rparr>"

lemma flip_heap_simps [simp]:
  "heap_items (flip_heap h) = heap_items h"
  "heap_less (flip_heap h) a b = heap_less h b a"
  "flip_heap (flip_heap h) = h"
  by (simp_all add: flip_heap_def flip_policy_def)

lemma handles_ok_flip [simp]: "handles_ok w (flip_heap h) = handles_ok w h"
  by (simp add: handles_ok_def flip_heap_def)

lemma heap_step_flip: "heap_step w (flip_heap h) h' \<Longrightarrow> heap_step w h (flip_heap h')"
  by (auto simp: heap_step_def same_contents_def flip_heap_def flip_policy_def handles_ok_def)

lemma set_index_flip: "set_index w it k (flip_heap h) = flip_heap (set_index w it k h)"
  by (simp add: set_index_def flip_heap_def split: option.split)

lemma swap_flip: "swap w i j (flip_heap h) = flip_heap (swap w i j h)"
proof -
  have "(flip_heap h)\<lparr>heap_items := xs\<rparr> = flip_heap (h\<lparr>heap_items := xs\<rparr>)" for xs
    by (simp add: flip_heap_def)
  moreover have "(flip_heap h)\<lparr>heap_panicked := True\<rparr> = flip_heap (h\<lparr>heap_panicked := True\<rparr>)"
    by (simp add: flip_heap_def)
  ultimately show ?thesis by (simp add: swap_def Let_def set_index_flip)
qed

lemma upMax_flip: "upMax w i h = flip_heap (upMin w i (flip_heap h))"
proof (induction w i h rule: upMax.induct)
  case (1 w i h)
  show ?case
    using 1 by (subst upMax.simps, subst upMin.simps) (simp add: Let_def swap_flip)
qed

lemma findLargest_flip:
  "findLargestChildOrGrandchild i h = findSmallestChildOrGrandchild i (flip_heap h)"
  by (simp add: findLargest_pick findSmallest_pick)

lemma downMax_flip: "downMax w i h = flip_heap (downMin w i (flip_heap h))"
proof (induction w i h rule: downMax.induct)
  case (1 w i h)
  show ?case
  proof (cases "findLargestChildOrGrandchild i h")
    case None
    then show ?thesis
      by (subst downMax.simps, subst downMin.simps) (simp add: findLargest_flip)
  next
    case (Some m)
    then show ?thesis using 1
      by (subst downMax.simps, subst downMin.simps) (simp add: findLargest_flip Let_def swap_flip)
  qed
qed

subsection \<open>Contents and handles through the loops\<close>

lemma parent_le: "parent i \<le> i"
  by (auto simp: parent_def)

lemma upMin_step: "i < length (heap_items h) \<Longrightarrow> heap_step w h (upMin w i h)"
proof (induction w i h rule: upMin.induct)
  case (1 w i h)
  let ?p = "(i - 1) div 2"
  let ?g = "(?p - 1) div 2"
  have g: "?g < length (heap_items h)" using "1.prems" by auto
  show ?case
  proof (cases "?p \<noteq> 0 \<and> heap_less h (heap_items h ! ?g) (heap_items h ! i)")
    case True
    have sw: "heap_step w h (swap w i ?g h)" by (rule swap_step [OF "1.prems" g])
    have "heap_step w (swap w i ?g h) (upMin w ?g (swap w i ?g h))"
      using "1.IH" True g by simp
    then have "heap_step w h (upMin w ?g (swap w i ?g h))" by (rule heap_step_trans [OF sw])
    then show ?thesis using True by (subst upMin.simps) (simp add: Let_def)
  next
    case False
    then show ?thesis by (subst upMin.simps) (auto simp: Let_def)
  qed
qed

lemma upMax_step: "i < length (heap_items h) \<Longrightarrow> heap_step w h (upMax w i h)"
  using upMin_step [of i "flip_heap h" w] heap_step_flip by (simp add: upMax_flip)

lemma up_heap_step: "i < length (heap_items h) \<Longrightarrow> heap_step w h (up w i h)"
proof -
  assume i: "i < length (heap_items h)"
  let ?p = "(i - 1) div 2"
  have p: "?p < length (heap_items h)" using i by auto
  have sw: "heap_step w h (swap w i ?p h)" by (rule swap_step [OF i p])
  have "heap_step w h (upMin w ?p (swap w i ?p h))" "heap_step w h (upMax w ?p (swap w i ?p h))"
    using heap_step_trans [OF sw] upMin_step upMax_step p by simp_all
  then show ?thesis using upMin_step [OF i] upMax_step [OF i] by (simp add: up_def Let_def)
qed

text \<open>One round of \<open>downMin\<close>: the exchange and the correction at the parent.\<close>

definition down_round :: "world \<Rightarrow> nat \<Rightarrow> nat \<Rightarrow> maxMinHeap \<Rightarrow> maxMinHeap" where
  "down_round w i m h =
     (let h1 = swap w i m h
      in if parent m \<noteq> i \<and> heap_less h1 (heap_items h1 ! m) (heap_items h1 ! parent m)
         then swap w m (parent m) h1 else h1)"

lemma downMin_unfold:
  "downMin w i h =
     (case findSmallestChildOrGrandchild i h of
        None \<Rightarrow> h
      | Some m \<Rightarrow> if heap_less h (heap_items h ! i) (heap_items h ! m)
                  then downMin w m (down_round w i m h) else h)"
  by (subst downMin.simps) (simp add: down_round_def parent_def Let_def split: option.split)

lemma down_round_step:
  assumes "i < length (heap_items h)" "m < length (heap_items h)"
  shows "heap_step w h (down_round w i m h)"
proof -
  let ?h1 = "swap w i m h"
  have sw: "heap_step w h ?h1" by (rule swap_step [OF assms])
  have "parent m < length (heap_items ?h1)" using assms(2) parent_le [of m] by simp
  then have "heap_step w ?h1 (swap w m (parent m) ?h1)" using assms by (intro swap_step) simp_all
  then show ?thesis using sw heap_step_trans by (auto simp: down_round_def Let_def)
qed

lemma downMin_induct [case_names step]:
  assumes "\<And>i h. (\<And>m. findSmallestChildOrGrandchild i h = Some m \<Longrightarrow>
      heap_less h (heap_items h ! i) (heap_items h ! m) \<Longrightarrow> P m (down_round w i m h)) \<Longrightarrow> P i h"
  shows "P i h"
proof (induction "length (heap_items h) - i" arbitrary: i h rule: less_induct)
  case less
  show ?case
  proof (rule assms)
    fix m
    assume "findSmallestChildOrGrandchild i h = Some m"
    then have m: "i < m" "m < length (heap_items h)" using findSmallest_range by blast+
    moreover have "length (heap_items (down_round w i m h)) = length (heap_items h)"
      by (simp add: down_round_def Let_def)
    ultimately show "P m (down_round w i m h)" by (intro less) simp
  qed
qed

lemma downMin_step: "i < length (heap_items h) \<Longrightarrow> heap_step w h (downMin w i h)"
proof (induction i h rule: downMin_induct [where w = w])
  case (step i h)
  show ?case
  proof (cases "findSmallestChildOrGrandchild i h")
    case None
    then show ?thesis by (subst downMin_unfold) simp
  next
    case (Some m)
    then have m: "m < length (heap_items h)" using findSmallest_range by blast
    have r: "heap_step w h (down_round w i m h)" by (rule down_round_step [OF step.prems m])
    show ?thesis
    proof (cases "heap_less h (heap_items h ! i) (heap_items h ! m)")
      case True
      then have "heap_step w (down_round w i m h) (downMin w m (down_round w i m h))"
        using step.IH [OF Some] m heap_step_length [OF r] by simp
      then have "heap_step w h (downMin w m (down_round w i m h))" by (rule heap_step_trans [OF r])
      then show ?thesis using Some True by (subst downMin_unfold) simp
    next
      case False
      then show ?thesis using Some by (subst downMin_unfold) simp
    qed
  qed
qed

lemma downMax_step: "i < length (heap_items h) \<Longrightarrow> heap_step w h (downMax w i h)"
  using downMin_step [of i "flip_heap h" w] heap_step_flip by (simp add: downMax_flip)

lemma down_heap_step: "i < length (heap_items h) \<Longrightarrow> heap_step w h (down w i h)"
  by (simp add: down_def downMin_step downMax_step)

subsection \<open>Order through the loops\<close>

lemma upMin_heap:
  assumes "alternating mn" "strict_weak_order (heap_less h)"
    and "mn i" "i < length (heap_items h)"
    and "heap_except (heap_less h) mn (\<lambda>a d. d = i \<and> mn a) (heap_items h)"
  shows "heap_ok (heap_less h) mn (heap_items (upMin w i h))"
  using assms
proof (induction w i h rule: upMin.induct)
  case (1 w i h)
  have so: "strict_weak_order (heap_less h)" by fact
  have eqs: "(k - Suc 0) div 2 = parent k" for k by (simp add: parent_def)
  let ?g = "parent (parent i)"
  have g: "?g < length (heap_items h)"
    using "1.prems"(4) parent_le [of i] parent_le [of "parent i"] by simp
  show ?case
  proof (cases "parent i \<noteq> 0 \<and> heap_less h (heap_items h ! ?g) (heap_items h ! i)")
    case True
    then have i0: "0 < i" by (cases i) (auto simp: parent_def)
    let ?h' = "swap w i ?g h"
    have "heap_except (heap_less h) mn (\<lambda>a d. d = ?g \<and> mn a) (list_swap i ?g (heap_items h))"
      using strict_weak_order.up_step [OF so "1.prems"(1,3,4) i0 _ refl "1.prems"(5)] True by simp
    moreover have "mn ?g" using alternating_anc2 [OF "1.prems"(1) i0] "1.prems"(3) True by simp
    ultimately have "heap_ok (heap_less h) mn (heap_items (upMin w ?g ?h'))"
      using "1.IH" [OF refl _ refl] True "1.prems" g by (simp add: eqs swap_items)
    then show ?thesis using True by (subst upMin.simps) (simp add: eqs Let_def)
  next
    case False
    have "heap_ok (heap_less h) mn (heap_items h)"
      using strict_weak_order.up_stop [OF so "1.prems"(1,3,4,5)] False by blast
    then show ?thesis using False by (subst upMin.simps) (auto simp: eqs Let_def)
  qed
qed

lemma strict_weak_order_flip_heap:
  "strict_weak_order (heap_less h) \<Longrightarrow> strict_weak_order (heap_less (flip_heap h))"
  using strict_weak_order.flipped [of "heap_less h"] by simp

lemma upMax_heap:
  assumes "alternating mn" "strict_weak_order (heap_less h)"
    and "\<not> mn i" "i < length (heap_items h)"
    and "heap_except (heap_less h) mn (\<lambda>a d. d = i \<and> \<not> mn a) (heap_items h)"
  shows "heap_ok (heap_less h) mn (heap_items (upMax w i h))"
  using upMin_heap [OF alternating_flip [OF assms(1)] strict_weak_order_flip_heap [OF assms(2)], of i w]
    assms(3-5)
  by (simp add: heap_except_flip [of "heap_less h"] upMax_flip)

lemma up_heap:
  assumes so: "strict_weak_order (heap_less h)" and i: "i < length (heap_items h)"
    and leaf: "\<And>d. anc i d \<Longrightarrow> \<not> d < length (heap_items h)"
    and h: "heap_except (heap_less h) isMinLevel (\<lambda>a d. d = i) (heap_items h)"
  shows "heap_ok (heap_less h) isMinLevel (heap_items (up w i h))"
proof (cases "i = 0")
  case True
  then have "heap_ok (heap_less h) isMinLevel (heap_items h)"
    using h anc_pos by (force elim!: heap_except_mono)
  then show ?thesis using True by (simp add: up_def)
next
  case False
  then have i0: "0 < i" by simp
  let ?p = "parent i"
  have p: "?p < length (heap_items h)" using i parent_le [of i] by simp
  have peq: "(i - Suc 0) div 2 = ?p" by (simp add: parent_def)
  note alt = isMinLevel_alternating
  note so' = strict_weak_order.flipped [OF so]
  note mnp = alternating_parent [OF alt i0]
  note h' = h [folded heap_except_flip [of "heap_less h"]]
  note flip = heap_except_flip [of "heap_less h" isMinLevel]
  show ?thesis
  proof (cases "isMinLevel i")
    case True
    show ?thesis
    proof (cases "heap_less h (heap_items h ! i) (heap_items h ! ?p)")
      case lt: True
      have "heap_except (heap_less h) isMinLevel (\<lambda>a d. d = ?p \<and> \<not> isMinLevel a)
          (heap_items (swap w i ?p h))"
        using strict_weak_order.up_start_swap [OF so alt True i i0 leaf h lt] i p
        by (simp add: swap_items)
      then have "heap_ok (heap_less h) isMinLevel (heap_items (upMax w ?p (swap w i ?p h)))"
        using upMax_heap [OF alt, of "swap w i ?p h" ?p w] so True mnp p by simp
      then show ?thesis using True lt False by (simp add: up_def Let_def peq)
    next
      case nlt: False
      have "heap_except (heap_less h) isMinLevel (\<lambda>a d. d = i \<and> isMinLevel a) (heap_items h)"
        by (rule strict_weak_order.up_start_stay [OF so alt True i i0 h nlt])
      then show ?thesis using upMin_heap [OF alt so True i] True nlt False
        by (simp add: up_def Let_def peq)
    qed
  next
    case nm: False
    show ?thesis
    proof (cases "heap_less h (heap_items h ! ?p) (heap_items h ! i)")
      case lt: True
      have "heap_except (heap_less h) isMinLevel (\<lambda>a d. d = ?p \<and> isMinLevel a)
          (heap_items (swap w i ?p h))"
        using strict_weak_order.up_start_swap [OF so' alternating_flip [OF alt] nm i i0 leaf h'] lt i p
        by (simp add: swap_items flip)
      then have "heap_ok (heap_less h) isMinLevel (heap_items (upMin w ?p (swap w i ?p h)))"
        using upMin_heap [OF alt, of "swap w i ?p h" ?p w] so nm mnp p by simp
      then show ?thesis using nm lt False by (simp add: up_def Let_def peq)
    next
      case nlt: False
      have "heap_except (heap_less h) isMinLevel (\<lambda>a d. d = i \<and> \<not> isMinLevel a) (heap_items h)"
        using strict_weak_order.up_start_stay [OF so' alternating_flip [OF alt] nm i i0 h'] nlt
        by (simp add: flip)
      then show ?thesis using upMax_heap [OF alt so nm i] nm nlt False
        by (simp add: up_def Let_def peq)
    qed
  qed
qed

lemma findSmallest_leaf:
  "(\<And>d. anc i d \<Longrightarrow> \<not> d < length (heap_items h)) \<Longrightarrow> findSmallestChildOrGrandchild i h = None"
  using pick_kid [of "heap_less h" i "heap_items h"] kid_anc
  by (metis findSmallest_pick not_None_eq)

lemma down_round_heap:
  assumes alt: "alternating mn" and so: "strict_weak_order (heap_less h)"
    and ties: "no_ties (heap_less h) (heap_items h)"
    and mn: "mn i" and s: "s \<le> i" and i: "i < length (heap_items h)"
    and h: "heap_except (heap_less h) mn (\<lambda>a d. a < s \<or> a = i) (heap_items h)"
    and m: "findSmallestChildOrGrandchild i h = Some m"
    and lt: "heap_less h (heap_items h ! i) (heap_items h ! m)"
  shows "if parent m = i
    then heap_except (heap_less h) mn (\<lambda>a d. a < s) (heap_items (down_round w i m h)) \<and>
      findSmallestChildOrGrandchild m (down_round w i m h) = None
    else mn m \<and> heap_except (heap_less h) mn (\<lambda>a d. a < s \<or> a = m) (heap_items (down_round w i m h))"
proof -
  note pick = m [unfolded findSmallest_pick]
  have ml: "m < length (heap_items h)" and kid: "kid i m" using pick_kid [OF pick] by blast+
  have m0: "0 < m" using kid by (simp add: kid_def)
  have ilm: "i < m" using anc_less [OF kid_anc [OF kid]] .
  let ?h1 = "swap w i m h"
  have items: "heap_items ?h1 = list_swap i m (heap_items h)" using i ml by (rule swap_items)
  have least: "\<not> heap_less h (heap_items h ! m) (heap_items h ! d)"
    if "anc i d" "d < length (heap_items h)" for d
    using strict_weak_order.below_least [OF so alt mn s h
        strict_weak_order.pick_least [OF so pick] that] .
  show ?thesis
  proof (cases "parent m = i")
    case True
    have c: "heap_except (heap_less h) mn (\<lambda>a d. a < s) (list_swap i m (heap_items h))"
      and leaf: "\<And>d. anc m d \<Longrightarrow> \<not> d < length (heap_items h)"
      using strict_weak_order.down_child [OF so alt mn s h ties m0 True ml least lt] by blast+
    have "down_round w i m h = ?h1" using True by (simp add: down_round_def)
    then show ?thesis using True c leaf by (simp add: items findSmallest_leaf)
  next
    case False
    then have pm: "0 < parent m" "parent (parent m) = i" using kid by (auto simp: kid_def)
    have ex: "heap_except (heap_less h) mn (\<lambda>a d. a < s \<or> a = m \<or> (d = m \<and> anc i a))
        (heap_items ?h1)"
      unfolding items
      by (rule strict_weak_order.down_exchange [OF so alt mn s h kid_anc [OF kid] ml least lt])
    have im: "\<not> heap_less h (heap_items ?h1 ! i) (heap_items ?h1 ! m)"
      using strict_weak_order.asym [OF so lt] i ml ilm by (simp add: items nth_list_swap)
    have pl: "parent m < length (heap_items ?h1)" using ml parent_le [of m] by simp
    have "heap_except (heap_less h) mn (\<lambda>a d. a < s \<or> a = m) (heap_items (down_round w i m h))"
    proof (cases "heap_less h (heap_items ?h1 ! m) (heap_items ?h1 ! parent m)")
      case corr: True
      have "heap_except (heap_less h) mn (\<lambda>a d. a < s \<or> a = m) (list_swap m (parent m) (heap_items ?h1))"
        using strict_weak_order.down_grandchild_fix [OF so alt mn m0 pm _ ex corr im] ml by simp
      then show ?thesis using corr False ml pl by (simp add: down_round_def swap_items [OF _ pl])
    next
      case nofix: False
      have "heap_except (heap_less h) mn (\<lambda>a d. a < s \<or> a = m) (heap_items ?h1)"
        by (rule strict_weak_order.down_grandchild_stay [OF so alt mn m0 pm ex nofix])
      then show ?thesis using nofix by (simp add: down_round_def)
    qed
    moreover have "mn m" using alternating_anc2 [OF alt m0 pm(1)] pm(2) mn by simp
    ultimately show ?thesis using False by simp
  qed
qed

lemma downMin_heap:
  assumes "alternating mn" "strict_weak_order (heap_less h)" "no_ties (heap_less h) (heap_items h)"
    and "mn i" "s \<le> i" "i < length (heap_items h)"
    and "heap_except (heap_less h) mn (\<lambda>a d. a < s \<or> a = i) (heap_items h)"
  shows "heap_except (heap_less h) mn (\<lambda>a d. a < s) (heap_items (downMin w i h))"
  using assms
proof (induction i h rule: downMin_induct [where w = w])
  case (step i h)
  show ?case
  proof (cases "findSmallestChildOrGrandchild i h")
    case None
    then have "\<not> d < length (heap_items h)" if "anc i d" for d
      using that pick_None by (simp add: findSmallest_pick)
    then have "heap_except (heap_less h) mn (\<lambda>a d. a < s) (heap_items h)"
      using strict_weak_order.down_leaf [OF step.prems(2,7)] by blast
    then show ?thesis using None by (subst downMin_unfold) simp
  next
    case (Some m)
    show ?thesis
    proof (cases "heap_less h (heap_items h ! i) (heap_items h ! m)")
      case True
      let ?h' = "down_round w i m h"
      have im: "i < m" "m < length (heap_items h)" using findSmallest_range [OF Some] by blast+
      have st: "heap_step w h ?h'" by (rule down_round_step [OF step.prems(6) im(2)])
      note pol = heap_step_policy [OF st]
      note round = down_round_heap [OF step.prems(1-7) Some True, of w]
      have eq: "downMin w i h = downMin w m ?h'" using Some True by (subst downMin_unfold) simp
      show ?thesis
      proof (cases "parent m = i")
        case True
        then have "downMin w m ?h' = ?h'" using round by (subst downMin_unfold) simp
        then show ?thesis using True round by (simp add: eq)
      next
        case False
        have "no_ties (heap_less h) (heap_items ?h')"
          using no_ties_mset [OF step.prems(3)] st by (simp add: heap_step_def same_contents_def)
        then have "heap_except (heap_less ?h') mn (\<lambda>a d. a < s) (heap_items (downMin w m ?h'))"
          using step.IH [OF Some \<open>heap_less h (heap_items h ! i) (heap_items h ! m)\<close>]
            step.prems round False im heap_step_length [OF st] by (simp add: pol)
        then show ?thesis by (simp add: eq pol)
      qed
    next
      case False
      have "heap_except (heap_less h) mn (\<lambda>a d. a < s) (heap_items h)"
        using strict_weak_order.down_stop [OF step.prems(2,1,4,5,7) Some [unfolded findSmallest_pick] False] .
      then show ?thesis using Some False by (subst downMin_unfold) simp
    qed
  qed
qed

lemma downMax_heap:
  assumes "alternating mn" "strict_weak_order (heap_less h)" "no_ties (heap_less h) (heap_items h)"
    and "\<not> mn i" "s \<le> i" "i < length (heap_items h)"
    and "heap_except (heap_less h) mn (\<lambda>a d. a < s \<or> a = i) (heap_items h)"
  shows "heap_except (heap_less h) mn (\<lambda>a d. a < s) (heap_items (downMax w i h))"
  using downMin_heap [OF alternating_flip [OF assms(1)] strict_weak_order_flip_heap [OF assms(2)], of i s w]
    assms(3-7)
  by (simp add: heap_except_flip [of "heap_less h"] no_ties_flip [of "heap_less h"] downMax_flip)

lemma down_heap:
  assumes "strict_weak_order (heap_less h)" "no_ties (heap_less h) (heap_items h)"
    and "i < length (heap_items h)"
    and "heap_except (heap_less h) isMinLevel (\<lambda>a d. a \<le> i) (heap_items h)"
  shows "heap_except (heap_less h) isMinLevel (\<lambda>a d. a < i) (heap_items (down w i h))"
proof -
  have "heap_except (heap_less h) isMinLevel (\<lambda>a d. a < i \<or> a = i) (heap_items h)"
    using assms(4) by (auto elim!: heap_except_mono)
  then show ?thesis
    using downMin_heap [OF isMinLevel_alternating assms(1,2), of i i w]
      downMax_heap [OF isMinLevel_alternating assms(1,2), of i i w] assms(3)
    by (simp add: down_def)
qed

subsection \<open>Heapify\<close>

lemma anc_twice: "anc a d \<Longrightarrow> 2 * a + 1 \<le> d"
proof (induction rule: anc.induct)
  case (anc_parent d)
  then show ?case by (auto simp: parent_def)
next
  case (anc_up d a)
  then show ?case using parent_le [of d] by simp
qed

lemma fold_down:
  assumes "strict_weak_order (heap_less h)" "no_ties (heap_less h) (heap_items h)"
    and "k \<le> length (heap_items h)"
    and "heap_except (heap_less h) isMinLevel (\<lambda>a d. a < k) (heap_items h)"
  shows "heap_step w h (fold (down w) (rev [0..<k]) h) \<and>
    heap_ok (heap_less h) isMinLevel (heap_items (fold (down w) (rev [0..<k]) h))"
  using assms
proof (induction k arbitrary: h)
  case 0
  then show ?case by simp
next
  case (Suc k)
  let ?h = "down w k h"
  have k: "k < length (heap_items h)" using Suc.prems(3) by simp
  have st: "heap_step w h ?h" by (rule down_heap_step [OF k])
  note pol = heap_step_policy [OF st]
  have "heap_except (heap_less h) isMinLevel (\<lambda>a d. a < k) (heap_items ?h)"
    using down_heap [OF Suc.prems(1,2) k] Suc.prems(4) by (simp add: less_Suc_eq_le)
  moreover have "no_ties (heap_less h) (heap_items ?h)"
    using no_ties_mset [OF Suc.prems(2)] st by (simp add: heap_step_def same_contents_def)
  ultimately have "heap_step w ?h (fold (down w) (rev [0..<k]) ?h) \<and>
    heap_ok (heap_less h) isMinLevel (heap_items (fold (down w) (rev [0..<k]) ?h))"
    using Suc.IH [of ?h] Suc.prems(1) k heap_step_length [OF st] by (simp add: pol)
  then show ?case using heap_step_trans [OF st] by simp
qed

lemma heapify_step: "heap_step w h (heapify w h)"
proof -
  have "heap_step w h (fold (down w) (rev [0..<k]) h)" if "k \<le> length (heap_items h)" for k
    using that
  proof (induction k arbitrary: h)
    case (Suc k)
    have st: "heap_step w h (down w k h)" using Suc.prems by (intro down_heap_step) simp
    then have "heap_step w (down w k h) (fold (down w) (rev [0..<k]) (down w k h))"
      using Suc.IH [of "down w k h"] Suc.prems heap_step_length [OF st] by simp
    then show ?case using heap_step_trans [OF st] by simp
  qed simp
  then show ?thesis by (simp add: heapify_def)
qed

lemma heapify_heap:
  assumes "strict_weak_order (heap_less h)" "no_ties (heap_less h) (heap_items h)"
  shows "heap_ok (heap_less h) isMinLevel (heap_items (heapify w h))"
proof -
  have "heap_except (heap_less h) isMinLevel (\<lambda>a d. a < length (heap_items h) div 2) (heap_items h)"
    by (rule heap_exceptI) (use anc_twice in fastforce)
  then show ?thesis using fold_down [OF assms, of "length (heap_items h) div 2" w]
    by (simp add: heapify_def)
qed

subsection \<open>Removing the last slot\<close>

lemma heap_ok_take: "heap_except lt mn Q xs \<Longrightarrow> heap_except lt mn Q (take n xs)"
  using anc_less by (fastforce simp: heap_except_def)

lemma handles_ok_drop_last:
  assumes ok: "handles_ok w h" and n: "length (heap_items h) = Suc n"
    and hn: "Handle w (heap_items h ! n) = Some hn"
  shows "handles_ok w (h\<lparr>heap_items := take n (heap_items h),
    heap_handles := (heap_handles h)(hn := None), heap_byteSize := b\<rparr>)"
proof -
  have "((heap_handles h)(hn := None)) x = Some k \<longleftrightarrow>
      k < n \<and> Handle w (take n (heap_items h) ! k) = Some x" for x k
  proof (cases "x = hn")
    case True
    have "\<not> (k < n \<and> Handle w (heap_items h ! k) = Some hn)"
      using handles_ok_inj [OF ok, of k n hn] hn n by auto
    then show ?thesis using True by auto
  next
    case False
    then show ?thesis using ok hn n by (auto simp: handles_ok_def less_Suc_eq)
  qed
  then show ?thesis using ok n by (simp add: handles_ok_def)
qed

subsection \<open>Re-indexing\<close>

lemma set_index_chain:
  assumes "\<And>it. it \<in> set xs \<Longrightarrow> \<exists>hn. Handle w it = Some hn \<and> heap_handles h hn \<noteq> None"
  shows "fold (\<lambda>(i, it). set_index w it i) (enumerate n xs) h =
    h\<lparr>heap_handles := (heap_handles h)(map (the \<circ> Handle w) xs [\<mapsto>] [n ..< n + length xs])\<rparr>"
  using assms
proof (induction xs arbitrary: n h)
  case Nil
  then show ?case by simp
next
  case (Cons x xs)
  obtain hn where hn: "Handle w x = Some hn" "heap_handles h hn \<noteq> None"
    using Cons.prems by (metis list.set_intros(1))
  let ?h = "set_index w x n h"
  have h: "?h = h\<lparr>heap_handles := (heap_handles h)(hn \<mapsto> n)\<rparr>"
    using hn by (auto simp: set_index_def)
  have "fold (\<lambda>(i, it). set_index w it i) (enumerate (Suc n) xs) ?h =
    ?h\<lparr>heap_handles := (heap_handles ?h)(map (the \<circ> Handle w) xs [\<mapsto>] [Suc n ..< Suc n + length xs])\<rparr>"
  proof (rule Cons.IH)
    fix it assume "it \<in> set xs"
    then obtain y where "Handle w it = Some y" "heap_handles h y \<noteq> None"
      using Cons.prems [of it] by auto
    then show "\<exists>hn. Handle w it = Some hn \<and> heap_handles ?h hn \<noteq> None" by (simp add: h)
  qed
  moreover have "[n ..< n + length (x # xs)] = n # [Suc n ..< Suc n + length xs]"
    by (simp add: upt_conv_Cons del: upt_Suc)
  ultimately show ?case using hn by (simp add: h comp_def del: upt_Suc)
qed

lemma map_upds_index:
  assumes "distinct hs" and "\<And>x. m x \<noteq> None \<Longrightarrow> x \<in> set hs"
  shows "(m(hs [\<mapsto>] [0..<length hs])) x = Some k \<longleftrightarrow> k < length hs \<and> hs ! k = x"
proof (cases "x \<in> set hs")
  case True
  then obtain j where j: "j < length hs" "hs ! j = x" by (auto simp: in_set_conv_nth)
  have "(x, j) \<in> set (zip hs [0..<length hs])"
    using j by (auto simp: set_zip intro!: exI [of _ j])
  then have "map_of (rev (zip hs [0..<length hs])) x = Some j"
    using assms(1) by (subst map_of_eq_Some_iff) (simp_all add: rev_map [symmetric])
  then have "(m(hs [\<mapsto>] [0..<length hs])) x = Some j"
    by (simp add: map_upds_def map_add_find_right)
  then show ?thesis using j assms(1) nth_eq_iff_index_eq by auto
next
  case False
  then have "m x = None" using assms(2) by blast
  then show ?thesis using False by (auto simp: map_upds_apply_nontin)
qed

lemma reindex_handles_ok:
  assumes "\<And>it. it \<in> set (heap_items h) \<Longrightarrow> \<exists>hn. Handle w it = Some hn \<and> heap_handles h hn \<noteq> None"
    and "distinct (map (the \<circ> Handle w) (heap_items h))"
    and "\<And>hn. heap_handles h hn \<noteq> None \<Longrightarrow> \<exists>it\<in>set (heap_items h). Handle w it = Some hn"
    and "\<not> heap_panicked h"
  shows "handles_ok w (reindex w h)"
proof -
  let ?xs = "heap_items h" and ?hs = "map (the \<circ> Handle w) (heap_items h)"
  have eq: "reindex w h = h\<lparr>heap_handles := (heap_handles h)(?hs [\<mapsto>] [0 ..< length ?xs])\<rparr>"
    unfolding reindex_def using set_index_chain [OF assms(1), of ?xs 0] by simp
  have H: "\<exists>hn. Handle w (?xs ! k) = Some hn" if "k < length ?xs" for k
    using assms(1) that nth_mem by blast
  have "((heap_handles h)(?hs [\<mapsto>] [0 ..< length ?hs])) hn = Some k \<longleftrightarrow>
      k < length ?hs \<and> ?hs ! k = hn" for hn k
    by (rule map_upds_index [OF assms(2)]) (use assms(3) in force)
  then have "((heap_handles h)(?hs [\<mapsto>] [0 ..< length ?xs])) hn = Some k \<longleftrightarrow>
      k < length ?xs \<and> Handle w (?xs ! k) = Some hn" for hn k
    using H by fastforce
  then show ?thesis using H assms(4) by (simp add: handles_ok_def eq)
qed

end
