(* ===== verification/Safe_Queue.thy ===== *)
theory Safe_Queue
  imports Flow_Types
begin

text \<open>
  The contract of a \<open>contracts.SafeQueue\<close> (src/pkg/epp/flowcontrol/contracts/queue.go): which
  items it holds, what its counters report, what \<open>Add\<close>, \<open>Remove\<close>, \<open>Cleanup\<close> and \<open>Drain\<close> do
  to the items and to their handles, and which changes of the shared cells a queue
  tolerates. The list queue and the heap queue are its two providers.
\<close>

subsection \<open>Well-formed handle cells\<close>

primrec handle_addr :: "queue_handle \<Rightarrow> nat" where
  "handle_addr (HeapItem a) = a"
| "handle_addr (ListItemHandle a e own) = a"

definition world_ok :: "world \<Rightarrow> bool" where
  "world_ok w \<longleftrightarrow>
     (\<forall>p hn. item_handle w p = Some hn \<longrightarrow> handle_addr hn < next_addr w) \<and>
     (\<forall>p q hn. item_handle w p = Some hn \<longrightarrow> item_handle w q = Some hn \<longrightarrow> p = q) \<and>
     (\<forall>hn. next_addr w \<le> handle_addr hn \<longrightarrow> \<not> isInvalidated w hn)"

definition live :: "world \<Rightarrow> queue_item \<Rightarrow> bool" where
  "live w it \<longleftrightarrow> (\<exists>hn. Handle w it = Some hn \<and> \<not> isInvalidated w hn)"

text \<open>A change of the world that writes only the handles of the items in \<open>P\<close>.\<close>

definition touches :: "nat set \<Rightarrow> world \<Rightarrow> world \<Rightarrow> bool" where
  "touches P w w' \<longleftrightarrow> next_addr w \<le> next_addr w' \<and>
     (\<forall>p. p \<notin> P \<longrightarrow> item_handle w' p = item_handle w p) \<and>
     (\<forall>hn. isInvalidated w' hn \<noteq> isInvalidated w hn \<longrightarrow> (\<exists>p\<in>P. item_handle w p = Some hn)) \<and>
     item_final w' = item_final w \<and> item_done w' = item_done w"

abbreviation ptrs :: "queue_item multiset \<Rightarrow> nat set" where
  "ptrs M \<equiv> item_ptr ` set_mset M"

lemma ptrs_diff:
  assumes "distinct (map item_ptr xs)" "it \<in> set xs"
  shows "item_ptr it \<notin> ptrs (mset xs - {#it#})"
proof -
  obtain ys zs where "xs = ys @ it # zs" using assms(2) by (meson split_list)
  then show ?thesis using assms(1) by auto
qed

lemma world_ok_fresh: "world_ok w \<Longrightarrow> Handle w it = Some hn \<Longrightarrow> handle_addr hn < next_addr w"
  by (simp add: world_ok_def Handle_def)

lemma world_ok_init: "world_ok init_world"
  by (simp add: world_ok_def init_world_def)

lemma world_ok_alloc:
  assumes "world_ok w" and "handle_addr hn = next_addr w"
  shows "world_ok (SetHandle it hn (w\<lparr>next_addr := Suc (next_addr w)\<rparr>))"
  using assms unfolding world_ok_def SetHandle_def
  by (auto simp: less_Suc_eq Suc_le_eq) (metis less_irrefl)+

lemma world_ok_Invalidate:
  "world_ok w \<Longrightarrow> handle_addr hn < next_addr w \<Longrightarrow> world_ok (Invalidate hn w)"
  by (auto simp: world_ok_def Invalidate_def)

lemma world_ok_invalidate_item: "world_ok w \<Longrightarrow> world_ok (invalidate_item it w)"
  by (cases "Handle w it")
     (auto simp: invalidate_item_def intro!: world_ok_Invalidate, simp add: Handle_def world_ok_def)

lemma world_ok_invalidate_items: "world_ok w \<Longrightarrow> world_ok (fold invalidate_item its w)"
  by (induction its arbitrary: w) (simp_all add: world_ok_invalidate_item)

lemma touches_refl [simp]: "touches P w w"
  by (simp add: touches_def)

lemma touches_alloc:
  "touches {item_ptr it} w (SetHandle it hn (w\<lparr>next_addr := Suc (next_addr w)\<rparr>))"
  by (simp add: touches_def SetHandle_def)

lemma touches_invalidate_item:
  "item_ptr it \<in> P \<Longrightarrow> touches P w (invalidate_item it w)"
  by (auto simp: touches_def invalidate_item_def Invalidate_def Handle_def split: option.split)

lemma item_handle_invalidate_items [simp]:
  "item_handle (fold invalidate_item its w) = item_handle w"
  by (induction its arbitrary: w)
     (auto simp: invalidate_item_def Invalidate_def split: option.split)

lemma Handle_invalidate_items [simp]: "Handle (fold invalidate_item its w) it = Handle w it"
  by (simp add: Handle_def)

lemma isInvalidated_invalidate_items:
  "isInvalidated (fold invalidate_item its w) hn \<longleftrightarrow>
     isInvalidated w hn \<or> (\<exists>it\<in>set its. Handle w it = Some hn)"
  by (induction its arbitrary: w) auto

lemma other_cells_invalidate_items [simp]:
  "next_addr (fold invalidate_item its w) = next_addr w"
  "item_final (fold invalidate_item its w) = item_final w"
  "item_done (fold invalidate_item its w) = item_done w"
  by (induction its arbitrary: w)
     (auto simp: invalidate_item_def Invalidate_def split: option.split)

lemma touches_invalidate_items:
  "item_ptr ` set its \<subseteq> P \<Longrightarrow> touches P w (fold invalidate_item its w)"
  by (auto simp: touches_def isInvalidated_invalidate_items Handle_def)

text \<open>Only the handles of touched items change, and no live handle is shared.\<close>

lemma touches_Handle:
  "touches P w w' \<Longrightarrow> item_ptr it \<notin> P \<Longrightarrow> Handle w' it = Handle w it"
  by (simp add: touches_def Handle_def)

lemma touches_isInvalidated:
  assumes "world_ok w" "touches P w w'" "item_ptr it \<notin> P" "Handle w it = Some hn"
  shows "isInvalidated w' hn = isInvalidated w hn"
  using assms unfolding touches_def world_ok_def Handle_def by metis

lemma touches_live:
  assumes "world_ok w" "touches P w w'" "item_ptr it \<notin> P"
  shows "live w' it = live w it"
  using touches_Handle [OF assms(2,3)] touches_isInvalidated [OF assms] by (auto simp: live_def)

lemma not_live_invalidated: "it \<in> set its \<Longrightarrow> \<not> live (fold invalidate_item its w) it"
  by (auto simp: live_def isInvalidated_invalidate_items)

subsection \<open>The contract\<close>

locale safe_queue =
  fixes inv :: "world \<Rightarrow> 'q \<Rightarrow> bool"
    and elems :: "'q \<Rightarrow> queue_item multiset"
    and Len :: "'q \<Rightarrow> nat"
    and ByteSize :: "'q \<Rightarrow> uint64"
    and Add :: "queue_item \<Rightarrow> world \<times> 'q \<Rightarrow> world \<times> 'q"
    and Remove :: "queue_handle option \<Rightarrow> world \<times> 'q \<Rightarrow> (gerror + queue_item) \<times> world \<times> 'q"
    and Cleanup :: "(queue_item \<Rightarrow> bool) \<Rightarrow> world \<times> 'q \<Rightarrow> queue_item list \<times> world \<times> 'q"
    and Drain :: "world \<times> 'q \<Rightarrow> queue_item list \<times> world \<times> 'q"
  assumes Len: "inv w q \<Longrightarrow> Len q = size (elems q)"
    and ByteSize: "inv w q \<Longrightarrow> ByteSize q = (\<Sum>it\<in>#elems q. item_size it)"
    and inv_live: "inv w q \<Longrightarrow> it \<in># elems q \<Longrightarrow> live w it"
    and inv_distinct: "inv w q \<Longrightarrow> count (image_mset item_ptr (elems q)) p \<le> 1"
    and inv_frame: "world_ok w \<Longrightarrow> inv w q \<Longrightarrow> touches X w w' \<Longrightarrow>
      X \<inter> ptrs (elems q) = {} \<Longrightarrow> inv w' q"
    and Add: "world_ok w \<Longrightarrow> inv w q \<Longrightarrow> item_ptr it \<notin> ptrs (elems q) \<Longrightarrow>
      Add it (w, q) = (w', q') \<Longrightarrow>
      world_ok w' \<and> touches {item_ptr it} w w' \<and> inv w' q' \<and> elems q' = add_mset it (elems q)"
    and Remove: "world_ok w \<Longrightarrow> inv w q \<Longrightarrow> it \<in># elems q \<Longrightarrow>
      \<exists>q'. Remove (Handle w it) (w, q) = (Inr it, invalidate_item it w, q') \<and>
        inv (invalidate_item it w) q' \<and> elems q' = elems q - {#it#}"
    and Remove_invalid: "hn = None \<or> isInvalidated w (the hn) \<Longrightarrow>
      Remove hn (w, q) = (Inl (Sentinel ErrInvalidQueueItemHandle), w, q)"
    and Cleanup: "world_ok w \<Longrightarrow> inv w q \<Longrightarrow> Cleanup P (w, q) = (rs, w', q') \<Longrightarrow>
      mset rs = filter_mset P (elems q) \<and> elems q' = filter_mset (\<lambda>it. \<not> P it) (elems q) \<and>
      w' = fold invalidate_item rs w \<and> inv w' q'"
    and Drain: "world_ok w \<Longrightarrow> inv w q \<Longrightarrow> Drain (w, q) = (rs, w', q') \<Longrightarrow>
      mset rs = elems q \<and> elems q' = {#} \<and> w' = fold invalidate_item rs w \<and> inv w' q'"
begin

lemma Add_Len:
  assumes "world_ok w" "inv w q" "item_ptr it \<notin> ptrs (elems q)" "Add it (w, q) = (w', q')"
  shows "Len q' = Suc (Len q)" "ByteSize q' = ByteSize q + item_size it" "live w' it"
  using Add [OF assms] assms(2) inv_live [of w' q' it] Len [of w' q'] ByteSize [of w' q']
    Len [of w q] ByteSize [of w q] by (simp_all add: add.commute)

lemma Remove_Len:
  assumes "world_ok w" "inv w q" "it \<in># elems q"
    and "Remove (Handle w it) (w, q) = (r, w', q')"
  shows "r = Inr it" "Suc (Len q') = Len q" "ByteSize q' = ByteSize q - item_size it" "\<not> live w' it"
proof -
  obtain q1 where q1: "Remove (Handle w it) (w, q) = (Inr it, invalidate_item it w, q1)"
    "inv (invalidate_item it w) q1" "elems q1 = elems q - {#it#}"
    using Remove [OF assms(1-3)] by blast
  obtain M where M: "elems q = add_mset it M" using assms(3) by (metis insert_DiffM)
  show "r = Inr it" "Suc (Len q') = Len q" "ByteSize q' = ByteSize q - item_size it" "\<not> live w' it"
    using q1 assms(2,4) M Len [OF q1(2)] ByteSize [OF q1(2)] Len [of w q] ByteSize [of w q]
    by (auto simp: live_def)
qed

text \<open>A handle is good for one removal.\<close>

lemma Remove_twice:
  assumes "world_ok w" "inv w q" "it \<in># elems q"
    and "Remove (Handle w it) (w, q) = (r, w', q')"
  shows "Remove (Handle w it) (w', q') = (Inl (Sentinel ErrInvalidQueueItemHandle), w', q')"
proof -
  have "w' = invalidate_item it w" using Remove [OF assms(1-3)] assms(4) by auto
  moreover obtain hn where "Handle w it = Some hn" using inv_live [OF assms(2,3)] by (auto simp: live_def)
  ultimately show ?thesis by (intro Remove_invalid) simp
qed

lemma Add_Remove:
  assumes "world_ok w" "inv w q" "item_ptr it \<notin> ptrs (elems q)" "Add it (w, q) = (w', q')"
  shows "\<exists>q''. Remove (Handle w' it) (w', q') = (Inr it, invalidate_item it w', q'') \<and>
    inv (invalidate_item it w') q'' \<and> elems q'' = elems q"
  using Add [OF assms] Remove [of w' q' it] by auto

lemma Cleanup_Len:
  assumes "world_ok w" "inv w q" "Cleanup P (w, q) = (rs, w', q')"
  shows "length rs + Len q' = Len q"
    "(\<Sum>it\<leftarrow>rs. item_size it) + ByteSize q' = ByteSize q"
proof -
  note C = Cleanup [OF assms]
  have i: "inv w' q'" using C by blast
  have part: "elems q = mset rs + elems q'" using C multiset_partition [of "elems q" P] by simp
  show "length rs + Len q' = Len q"
    using part Len [OF assms(2)] Len [OF i] by simp
  have "(\<Sum>it\<leftarrow>rs. item_size it) = (\<Sum>it\<in>#mset rs. item_size it)"
    by (metis mset_map sum_mset_sum_list)
  then show "(\<Sum>it\<leftarrow>rs. item_size it) + ByteSize q' = ByteSize q"
    using part ByteSize [OF assms(2)] ByteSize [OF i] by simp
qed

lemma Cleanup_not_live:
  assumes "world_ok w" "inv w q" "Cleanup P (w, q) = (rs, w', q')" "it \<in> set rs"
  shows "\<not> live w' it"
  using Cleanup [OF assms(1-3)] assms(4) not_live_invalidated by simp

lemma Drain_empty:
  assumes "world_ok w" "inv w q" "Drain (w, q) = (rs, w', q')"
  shows "Len q' = 0" "ByteSize q' = 0" "length rs = Len q" "it \<in> set rs \<Longrightarrow> \<not> live w' it"
proof -
  note D = Drain [OF assms]
  then have i: "inv w' q'" by blast
  show "Len q' = 0" "ByteSize q' = 0" using D Len [OF i] ByteSize [OF i] by simp_all
  show "length rs = Len q" using D Len [OF assms(2)] by (metis size_mset)
  show "it \<in> set rs \<Longrightarrow> \<not> live w' it" using D not_live_invalidated by blast
qed

end

end
