(* ===== verification/MaxMinHeap_Queue.thy ===== *)
theory MaxMinHeap_Queue
  imports MaxMinHeap_Correct Safe_Queue
begin

text \<open>
  The max-min heap as a queue: its invariant, the effect of each operation on the stored
  items, the handles, the byte counter and the heap order, and its interpretation as a
  provider of the queue contract.
\<close>

subsection \<open>Invariant\<close>

definition heap_inv :: "world \<Rightarrow> maxMinHeap \<Rightarrow> bool" where
  "heap_inv w h \<longleftrightarrow> handles_ok w h \<and>
     (\<forall>it\<in>set (heap_items h). \<exists>a. Handle w it = Some (HeapItem a) \<and> \<not> isInvalidated w (HeapItem a)) \<and>
     heap_byteSize h = (\<Sum>it\<in>#mset (heap_items h). item_size it)"

definition heap_elems :: "maxMinHeap \<Rightarrow> queue_item multiset" where
  "heap_elems h = mset (heap_items h)"

lemma handles_ok_handle:
  "handles_ok w h \<Longrightarrow> k < length (heap_items h) \<Longrightarrow> \<exists>hn. Handle w (heap_items h ! k) = Some hn"
  by (simp add: handles_ok_def)

lemma handles_ok_index:
  "handles_ok w h \<Longrightarrow> heap_handles h hn = Some k \<longleftrightarrow>
     k < length (heap_items h) \<and> Handle w (heap_items h ! k) = Some hn"
  by (simp add: handles_ok_def)

lemma heap_inv_new: "heap_inv w (newMaxMinHeap p)"
  by (simp add: heap_inv_def handles_ok_def newMaxMinHeap_def)

lemma heap_inv_step:
  "heap_step w h h' \<Longrightarrow> heap_inv w h \<Longrightarrow> heap_inv w h'"
  by (auto simp: heap_inv_def heap_step_def same_contents_def dest: mset_eq_setD)

lemma heap_inv_distinct:
  assumes "heap_inv w h"
  shows "distinct (map item_ptr (heap_items h))"
proof -
  have ok: "handles_ok w h" using assms by (simp add: heap_inv_def)
  have "i = j" if i: "i < length (heap_items h)" and j: "j < length (heap_items h)"
    and p: "item_ptr (heap_items h ! i) = item_ptr (heap_items h ! j)" for i j
  proof -
    obtain hn where "Handle w (heap_items h ! i) = Some hn"
      using handles_ok_handle [OF ok i] by blast
    then show ?thesis using handles_ok_inj [OF ok i j, of hn] p by (simp add: Handle_def)
  qed
  then show ?thesis by (auto simp: distinct_conv_nth)
qed

lemma heap_inv_cong:
  assumes "heap_inv w h"
    and "\<And>it. it \<in> set (heap_items h) \<Longrightarrow> Handle w' it = Handle w it"
    and "\<And>it hn. it \<in> set (heap_items h) \<Longrightarrow> Handle w it = Some hn \<Longrightarrow>
      isInvalidated w' hn = isInvalidated w hn"
  shows "heap_inv w' h"
proof -
  have "handles_ok w' h"
    using assms(1,2) unfolding heap_inv_def handles_ok_def by (metis nth_mem)
  then show ?thesis using assms unfolding heap_inv_def by (metis (no_types, lifting))
qed

lemma heap_inv_frame:
  assumes "world_ok w" "heap_inv w h" "touches X w w'" "X \<inter> ptrs (heap_elems h) = {}"
  shows "heap_inv w' h"
proof (rule heap_inv_cong [OF assms(2)])
  fix it assume "it \<in> set (heap_items h)"
  then have X: "item_ptr it \<notin> X" using assms(4) by (auto simp: heap_elems_def)
  show "Handle w' it = Handle w it" by (rule touches_Handle [OF assms(3) X])
  show "isInvalidated w' hn = isInvalidated w hn" if "Handle w it = Some hn" for hn
    by (rule touches_isInvalidated [OF assms(1,3) X that])
qed

subsection \<open>Add\<close>

lemma handles_ok_append:
  assumes w: "world_ok w" and inv: "heap_inv w h" and p: "item_ptr it \<notin> ptrs (heap_elems h)"
  defines "hn \<equiv> HeapItem (next_addr w)"
  defines "w1 \<equiv> SetHandle it hn (w\<lparr>next_addr := Suc (next_addr w)\<rparr>)"
  shows "handles_ok w1 (h\<lparr>heap_items := heap_items h @ [it],
    heap_handles := (heap_handles h)(hn := Some (length (heap_items h)))\<rparr>)"
proof -
  let ?xs = "heap_items h"
  have ok: "handles_ok w h" using inv by (simp add: heap_inv_def)
  have old: "Handle w1 (?xs ! k) = Handle w (?xs ! k)" "Handle w (?xs ! k) \<noteq> Some hn"
    if "k < length ?xs" for k
  proof -
    have "item_ptr (?xs ! k) \<in> ptrs (heap_elems h)" using that by (simp add: heap_elems_def)
    then have "item_ptr (?xs ! k) \<noteq> item_ptr it" using p by metis
    then show "Handle w1 (?xs ! k) = Handle w (?xs ! k)" by (simp add: w1_def Handle_def SetHandle_def)
    show "Handle w (?xs ! k) \<noteq> Some hn"
      using world_ok_fresh [OF w, of "?xs ! k" hn] by (auto simp: hn_def)
  qed
  have new: "Handle w1 it = Some hn" by (simp add: w1_def)
  have "((heap_handles h)(hn := Some (length ?xs))) x = Some k \<longleftrightarrow>
      k < Suc (length ?xs) \<and> Handle w1 ((?xs @ [it]) ! k) = Some x" for x k
    using handles_ok_index [OF ok, of x k] old [of k] new by (auto simp: nth_append less_Suc_eq)
  moreover have "\<exists>y. Handle w1 ((?xs @ [it]) ! k) = Some y" if "k < Suc (length ?xs)" for k
    using handles_ok_handle [OF ok, of k] old [of k] new that by (auto simp: nth_append less_Suc_eq)
  ultimately show ?thesis using ok by (simp add: handles_ok_def)
qed

lemma push_step:
  assumes "push it (w, h) = (w', h')"
  defines "hn \<equiv> HeapItem (next_addr w)"
  shows "w' = SetHandle it hn (w\<lparr>next_addr := Suc (next_addr w)\<rparr>)"
    and "heap_step w' (h\<lparr>heap_items := heap_items h @ [it],
      heap_handles := (heap_handles h)(hn := Some (length (heap_items h)))\<rparr>) h'"
  using assms by (auto simp: push_def Let_def intro!: up_heap_step)

lemma heap_Add_correct:
  assumes w: "world_ok w" and inv: "heap_inv w h" and p: "item_ptr it \<notin> ptrs (heap_elems h)"
    and Add: "heap_Add it (w, h) = (w', h')"
  shows "world_ok w'" "touches {item_ptr it} w w'" "heap_inv w' h'"
    "heap_elems h' = add_mset it (heap_elems h)" "heap_policy h' = heap_policy h"
proof -
  let ?hn = "HeapItem (next_addr w)"
  let ?h1 = "h\<lparr>heap_items := heap_items h @ [it],
      heap_handles := (heap_handles h)(?hn := Some (length (heap_items h)))\<rparr>"
  obtain h2 where P: "push it (w, h) = (w', h2)"
    and h': "h' = h2\<lparr>heap_byteSize := heap_byteSize h2 + item_size it\<rparr>"
    using Add by (auto simp: heap_Add_def split: prod.splits)
  note w' = push_step(1) [OF P] and st = push_step(2) [OF P]
  show wo: "world_ok w'" unfolding w' by (rule world_ok_alloc [OF w]) simp
  show t: "touches {item_ptr it} w w'" unfolding w' by (rule touches_alloc)
  have "handles_ok w' ?h1" unfolding w' by (rule handles_ok_append [OF w inv p])
  then have ok: "handles_ok w' h2" using st by (simp add: heap_step_def)
  have ms: "mset (heap_items h2) = add_mset it (mset (heap_items h))"
    using st by (simp add: heap_step_def same_contents_def)
  then show "heap_elems h' = add_mset it (heap_elems h)" by (simp add: h' heap_elems_def)
  show "heap_policy h' = heap_policy h"
    using heap_step_policy [OF st] by (simp add: h')
  have "heap_inv w' h" by (rule heap_inv_frame [OF w inv t]) (use p in simp)
  moreover have "Handle w' it = Some ?hn" by (simp add: w')
  moreover have "\<not> isInvalidated w' ?hn" using w by (simp add: w' world_ok_def)
  moreover have "set (heap_items h2) = insert it (set (heap_items h))"
    using mset_eq_setD [of "heap_items h2" "it # heap_items h"] ms by simp
  moreover have "heap_byteSize h2 = heap_byteSize h"
    using st by (simp add: heap_step_def same_contents_def)
  ultimately show "heap_inv w' h'"
    using ok ms by (auto simp: heap_inv_def h' handles_ok_def add.commute)
qed

lemma heap_Add_heap:
  assumes so: "strict_weak_order (heap_less h)" and h: "max_min_heap h"
    and Add: "heap_Add it (w, h) = (w', h')"
  shows "max_min_heap h'"
proof -
  let ?n = "length (heap_items h)"
  let ?h1 = "h\<lparr>heap_items := heap_items h @ [it],
      heap_handles := (heap_handles h)(HeapItem (next_addr w) := Some ?n)\<rparr>"
  obtain w2 b where h': "h' = (up w2 ?n ?h1)\<lparr>heap_byteSize := b\<rparr>"
    using Add by (auto simp: heap_Add_def push_def Let_def)
  have pol: "heap_policy (up w2 ?n ?h1) = heap_policy h"
    using heap_step_policy [OF up_heap_step [of ?n ?h1 w2]] by simp
  have "heap_except (heap_less h) isMinLevel (\<lambda>a d. d = ?n) (heap_items h @ [it])"
  proof (rule heap_exceptI)
    fix a d assume d: "anc a d" "d < length (heap_items h @ [it])" "d \<noteq> ?n"
    then have "d < ?n" "a < ?n" using anc_less [OF d(1)] by simp_all
    then show "dominates (heap_less h) isMinLevel a ((heap_items h @ [it]) ! a) ((heap_items h @ [it]) ! d)"
      using h d(1) by (simp add: max_min_heap_def nth_append heap_exceptD)
  qed
  moreover have "\<not> d < length (heap_items ?h1)" if "anc ?n d" for d
    using anc_less [OF that] by simp
  ultimately have "heap_ok (heap_less ?h1) isMinLevel (heap_items (up w2 ?n ?h1))"
    using so by (intro up_heap) simp_all
  then show ?thesis by (simp add: max_min_heap_def h' pol)
qed

subsection \<open>Peeking\<close>

lemma heap_PeekHead_best:
  assumes so: "strict_weak_order (heap_less h)" and h: "max_min_heap h"
    and hd: "heap_PeekHead h = Some x"
  shows "x \<in># heap_elems h \<and> (\<forall>y\<in>#heap_elems h. \<not> heap_less h y x)"
proof -
  have x: "x = heap_items h ! 0" "0 < length (heap_items h)"
    using hd by (auto simp: heap_PeekHead_def split: if_splits)
  have "\<not> heap_less h (heap_items h ! j) x" if "j < length (heap_items h)" for j
    using strict_weak_order.heap_root [OF so, of isMinLevel "heap_items h" j] h that x
    by (simp add: max_min_heap_def isMinLevel_0)
  then show ?thesis using x by (auto simp: heap_elems_def in_set_conv_nth)
qed

context strict_weak_order
begin

lemma heap_tail:
  assumes h: "heap_ok lt mn xs" and alt: "alternating mn" and root: "\<not> mn 0"
    and n: "2 \<le> length xs" and j: "j < length xs"
  shows "\<not> lt (if length xs = 2 \<or> \<not> lt (xs ! 1) (xs ! 2) then xs ! 1 else xs ! 2) (xs ! j)"
proof (cases "j = 0")
  case True
  then show ?thesis using heap_root [OF h root, of 1] heap_root [OF h root, of 2] n by auto
next
  case False
  then have m: "\<not> lt (xs ! 1) (xs ! j) \<or> 2 < length xs \<and> \<not> lt (xs ! 2) (xs ! j)"
    using heap_min [OF h alt root _ j] by simp
  show ?thesis
    using m lt_trans [of "xs ! 1" "xs ! 2" "xs ! j"] neg_trans [of "xs ! 1" "xs ! j" "xs ! 2"] by auto
qed

end

lemma heap_PeekTail_worst:
  assumes so: "strict_weak_order (heap_less h)" and h: "max_min_heap h"
    and tl: "heap_PeekTail h = Some x"
  shows "x \<in># heap_elems h \<and> (\<forall>y\<in>#heap_elems h. \<not> heap_less h x y)"
proof (cases "length (heap_items h) = 1")
  case True
  then show ?thesis using tl strict_weak_order.irrefl [OF so]
    by (cases "heap_items h") (auto simp: heap_PeekTail_def heap_elems_def)
next
  case False
  let ?xs = "heap_items h"
  let ?x = "if length ?xs = 2 \<or> \<not> heap_less h (?xs ! 1) (?xs ! 2) then ?xs ! 1 else ?xs ! 2"
  have "length ?xs \<noteq> 0" using tl by (auto simp: heap_PeekTail_def)
  then have n: "2 \<le> length ?xs" using False by linarith
  have x: "x = ?x"
    using tl False n by (auto simp: heap_PeekTail_def Let_def split: if_splits)
  have "\<not> heap_less h x (?xs ! j)" if "j < length ?xs" for j
    unfolding x using strict_weak_order.heap_tail [OF so _ isMinLevel_alternating _ n that] h
    by (simp add: max_min_heap_def isMinLevel_0)
  moreover have "x \<in> set ?xs" using n unfolding x by auto
  ultimately show ?thesis by (auto simp: heap_elems_def in_set_conv_nth)
qed

subsection \<open>Remove\<close>

definition heap_drop_last :: "queue_handle \<Rightarrow> uint64 \<Rightarrow> maxMinHeap \<Rightarrow> maxMinHeap" where
  "heap_drop_last hn b h = h\<lparr>heap_items := take (length (heap_items h) - 1) (heap_items h),
     heap_handles := (heap_handles h)(hn := None), heap_byteSize := heap_byteSize h - b\<rparr>"

lemma heap_inv_handle:
  "heap_inv w h \<Longrightarrow> it \<in> set (heap_items h) \<Longrightarrow>
    \<exists>a. Handle w it = Some (HeapItem a) \<and> \<not> isInvalidated w (HeapItem a)"
  by (simp add: heap_inv_def)

text \<open>\<open>Remove\<close> of a handle that is in the heap at index \<open>i\<close>.\<close>

lemma heap_Remove_at:
  assumes "heap_inv w h" and "i < length (heap_items h)" and "Handle w (heap_items h ! i) = Some hn"
  defines "n \<equiv> length (heap_items h) - 1" and "it \<equiv> heap_items h ! i"
  shows "heap_Remove (Some hn) (w, h) = (Inr it, Invalidate hn w,
    if i < n then down w i (heap_drop_last hn (item_size it) (swap w i n h))
    else heap_drop_last hn (item_size it) h)"
proof -
  have ok: "handles_ok w h" using assms(1) by (simp add: heap_inv_def)
  have "heap_handles h hn = Some i" using handles_ok_index [OF ok] assms(2,3) by simp
  moreover obtain a where "hn = HeapItem a" "\<not> isInvalidated w hn"
    using heap_inv_handle [OF assms(1) nth_mem [OF assms(2)]] assms(3) by auto
  moreover have "length (heap_items (swap w i n h)) = length (heap_items h)"
    using assms(2) by (simp add: swap_items n_def)
  ultimately show ?thesis
    using assms(2) by (simp add: heap_Remove_def Let_def heap_drop_last_def n_def it_def word_sub_as_add)
qed

lemma heap_drop_last_ok:
  assumes "handles_ok w h" "length (heap_items h) = Suc n" "Handle w (heap_items h ! n) = Some hn"
  shows "handles_ok w (heap_drop_last hn b h)"
  using handles_ok_drop_last [OF assms] assms(2) by (simp add: heap_drop_last_def)

lemma mset_take_last: "length xs = Suc n \<Longrightarrow> mset (take n xs) = mset xs - {#xs ! n#}"
  by (cases xs rule: rev_cases) (auto simp: nth_append)

text \<open>What remains: the handles are in place and exactly the item is gone.\<close>

lemma heap_Remove_rest:
  assumes inv: "heap_inv w h" and i: "i < length (heap_items h)"
    and hn: "Handle w (heap_items h ! i) = Some hn"
    and R: "heap_Remove (Some hn) (w, h) = (r, w', h')"
  shows "r = Inr (heap_items h ! i)" "w' = Invalidate hn w" "handles_ok w h'"
    "heap_elems h' = heap_elems h - {#heap_items h ! i#}" "heap_policy h' = heap_policy h"
    "heap_byteSize h' = heap_byteSize h - item_size (heap_items h ! i)"
proof -
  let ?it = "heap_items h ! i" and ?b = "item_size (heap_items h ! i)"
  obtain n where n: "length (heap_items h) = Suc n" using i by (cases "length (heap_items h)") auto
  have ok: "handles_ok w h" using inv by (simp add: heap_inv_def)
  have at: "heap_Remove (Some hn) (w, h) = (Inr ?it, Invalidate hn w,
      if i < n then down w i (heap_drop_last hn ?b (swap w i n h)) else heap_drop_last hn ?b h)"
    using heap_Remove_at [OF inv i hn] by (simp add: n)
  show "r = Inr ?it" "w' = Invalidate hn w" using at R by simp_all
  have rest: "handles_ok w h' \<and> heap_elems h' = heap_elems h - {#?it#} \<and>
      heap_policy h' = heap_policy h \<and> heap_byteSize h' = heap_byteSize h - ?b"
  proof (cases "i < n")
    case True
    let ?s = "swap w i n h"
    let ?d = "heap_drop_last hn ?b ?s"
    have s: "heap_items ?s = list_swap i n (heap_items h)" using i n by (intro swap_items) simp_all
    have sok: "handles_ok w ?s" by (rule swap_handles_ok [OF ok i]) (use n in simp)
    have last: "heap_items ?s ! n = ?it" using i n by (simp add: s nth_list_swap)
    have len: "length (heap_items ?s) = Suc n" using n by (simp add: s)
    have dok: "handles_ok w ?d" by (rule heap_drop_last_ok [OF sok len]) (simp add: last hn)
    have st: "heap_step w ?d (down w i ?d)"
      by (rule down_heap_step) (use True len in \<open>simp add: heap_drop_last_def\<close>)
    have ms: "mset (heap_items ?d) = heap_elems h - {#?it#}"
      using mset_take_last [OF len] last i n by (simp add: heap_drop_last_def s heap_elems_def)
    have "h' = down w i ?d" using at R True by simp
    then show ?thesis
      using st dok ms by (simp add: heap_step_def same_contents_def heap_elems_def) (simp add: heap_drop_last_def)
  next
    case False
    then have i: "i = n" using i n by simp
    have "h' = heap_drop_last hn ?b h" using at R False by simp
    moreover have "handles_ok w (heap_drop_last hn ?b h)"
      by (rule heap_drop_last_ok [OF ok n]) (use hn i in simp)
    ultimately show ?thesis
      using mset_take_last [OF n] i n by (simp add: heap_drop_last_def heap_elems_def)
  qed
  then show "handles_ok w h'" "heap_elems h' = heap_elems h - {#?it#}"
    "heap_policy h' = heap_policy h" "heap_byteSize h' = heap_byteSize h - ?b" by simp_all
qed

lemma heap_Remove_correct:
  assumes w: "world_ok w" and inv: "heap_inv w h" and it: "it \<in># heap_elems h"
  shows "\<exists>h'. heap_Remove (Handle w it) (w, h) = (Inr it, invalidate_item it w, h') \<and>
    heap_inv (invalidate_item it w) h' \<and> heap_elems h' = heap_elems h - {#it#} \<and>
    heap_policy h' = heap_policy h"
proof -
  obtain i where i: "i < length (heap_items h)" "heap_items h ! i = it"
    using it by (auto simp: heap_elems_def in_set_conv_nth)
  have its: "it \<in> set (heap_items h)" using it by (simp add: heap_elems_def)
  obtain a where a: "Handle w it = Some (HeapItem a)" using heap_inv_handle [OF inv its] by blast
  obtain r w' h' where R: "heap_Remove (Handle w it) (w, h) = (r, w', h')" by (metis surj_pair)
  note rest = heap_Remove_rest [OF inv i(1), of "HeapItem a" r w' h']
  have el: "heap_elems h' = heap_elems h - {#it#}" and ok: "handles_ok w h'"
    and pol: "heap_policy h' = heap_policy h" and r: "r = Inr it"
    and bs: "heap_byteSize h' = heap_byteSize h - item_size it" and w': "w' = invalidate_item it w"
    using rest R i a by (simp_all add: invalidate_item_def)
  have "set (heap_items h') \<subseteq> set (heap_items h)"
    using el by (metis diff_subset_eq_self heap_elems_def mset_subset_eqD set_mset_mset subsetI)
  then have hs: "\<And>x. x \<in> set (heap_items h') \<Longrightarrow>
      \<exists>a. Handle w x = Some (HeapItem a) \<and> \<not> isInvalidated w (HeapItem a)"
    using heap_inv_handle [OF inv] by blast
  have "heap_elems h = add_mset it (heap_elems h')" using el it by simp
  then have "heap_byteSize h' = (\<Sum>x\<in>#mset (heap_items h'). item_size x)"
    using inv bs by (simp add: heap_inv_def heap_elems_def)
  then have "heap_inv w h'" using ok hs by (simp add: heap_inv_def)
  moreover have "item_ptr it \<notin> ptrs (heap_elems h')"
    using ptrs_diff [OF heap_inv_distinct [OF inv] its] by (subst el) (unfold heap_elems_def)
  ultimately have "heap_inv (invalidate_item it w) h'"
    using heap_inv_frame [OF w _ touches_invalidate_item [of it "{item_ptr it}" w]] by simp
  then show ?thesis using R r w' el pol by auto
qed

lemma no_ties_take: "no_ties lt xs \<Longrightarrow> no_ties lt (take n xs)"
  by (auto simp: no_ties_def dest: in_set_takeD)

lemma no_ties_filter: "no_ties lt xs \<Longrightarrow> no_ties lt (filter P xs)"
  by (auto simp: no_ties_def)

text \<open>Removing the head keeps the heap order.\<close>

lemma heap_Remove_head_heap:
  assumes so: "strict_weak_order (heap_less h)" and nt: "no_ties (heap_less h) (heap_items h)"
    and h: "max_min_heap h" and inv: "heap_inv w h"
    and hd: "heap_PeekHead h = Some it"
    and R: "heap_Remove (Handle w it) (w, h) = (r, w', h')"
  shows "max_min_heap h'"
proof -
  let ?xs = "heap_items h" and ?b = "item_size it"
  have it: "it = ?xs ! 0" and ne: "0 < length ?xs"
    using hd by (auto simp: heap_PeekHead_def split: if_splits)
  obtain n where n: "length ?xs = Suc n" using ne by (cases "length ?xs") auto
  obtain hn where hn: "Handle w it = Some hn" using heap_inv_handle [OF inv] ne it nth_mem by blast
  have h': "h' = (if 0 < n then down w 0 (heap_drop_last hn ?b (swap w 0 n h)) else heap_drop_last hn ?b h)"
    using heap_Remove_at [OF inv ne, of hn] R hn by (auto simp: n it)
  show ?thesis
  proof (cases "0 < n")
    case True
    let ?d = "heap_drop_last hn ?b (swap w 0 n h)"
    have s: "heap_items (swap w 0 n h) = list_swap 0 n ?xs" using n by (intro swap_items) simp_all
    have d: "heap_items ?d = take n (list_swap 0 n ?xs)" and pol: "heap_policy ?d = heap_policy h"
      using n by (simp_all add: heap_drop_last_def s)
    have ex: "heap_except (heap_less h) isMinLevel (\<lambda>a d. a \<le> 0) (take n (list_swap 0 n ?xs))"
    proof (rule heap_exceptI)
      fix a d assume ad: "anc a d" "d < length (take n (list_swap 0 n ?xs))" "\<not> a \<le> 0"
      then have "a < n" "d < n" "0 < d" using anc_less [OF ad(1)] n by auto
      then show "dominates (heap_less h) isMinLevel a (take n (list_swap 0 n ?xs) ! a)
          (take n (list_swap 0 n ?xs) ! d)"
        using heap_exceptD [of _ _ _ ?xs, OF _ ad(1)] h ad(3) n by (simp add: nth_list_swap max_min_heap_def)
    qed
    have nt': "no_ties (heap_less h) (take n (list_swap 0 n ?xs))"
      using no_ties_take no_ties_mset [OF nt, of "list_swap 0 n ?xs"] n by simp
    have "heap_except (heap_less ?d) isMinLevel (\<lambda>a d. a < 0) (heap_items (down w 0 ?d))"
      by (rule down_heap) (use so nt' ex True n in \<open>simp_all add: d pol\<close>)
    moreover have "heap_policy (down w 0 ?d) = heap_policy h"
      using heap_step_policy [OF down_heap_step [of 0 ?d w]] True n by (simp add: d pol)
    ultimately show ?thesis using h' True by (simp add: max_min_heap_def pol)
  next
    case False
    then show ?thesis using h' n by (simp add: max_min_heap_def heap_drop_last_def heap_except_def)
  qed
qed

subsection \<open>Cleanup and Drain\<close>

lemma cleanup_scan_eq:
  "cleanup_scan P xs (w, h) =
    (filter P xs, filter (\<lambda>it. \<not> P it) xs, fold invalidate_item (filter P xs) w,
     h\<lparr>heap_handles := (\<lambda>hn. if \<exists>it\<in>set (filter P xs). Handle w it = Some hn then None
                              else heap_handles h hn),
       heap_byteSize := heap_byteSize h - (\<Sum>it\<leftarrow>filter P xs. item_size it)\<rparr>)"
proof (induction xs arbitrary: w h)
  case Nil
  then show ?case by simp
next
  case (Cons x xs)
  show ?case
  proof (cases "P x")
    case True
    then show ?thesis
      by (cases "Handle w x")
         (auto simp: Cons.IH Let_def word_sub_as_add fun_eq_iff intro!: maxMinHeap.equality)
  next
    case False
    then show ?thesis by (simp add: Cons.IH)
  qed
qed

lemma heap_inv_inj:
  assumes "heap_inv w h" "x \<in> set (heap_items h)" "y \<in> set (heap_items h)"
    and "Handle w x = Some hn" "Handle w y = Some hn"
  shows "x = y"
proof -
  obtain i j where "i < length (heap_items h)" "heap_items h ! i = x"
    "j < length (heap_items h)" "heap_items h ! j = y"
    using assms(2,3) by (auto simp: in_set_conv_nth)
  then show ?thesis
    using handles_ok_inj [of w h i j hn] assms(1,4,5) by (auto simp: heap_inv_def)
qed

lemma handles_ok_cleanup:
  fixes P :: "queue_item \<Rightarrow> bool" and b :: uint64
  assumes inv: "heap_inv w h"
  defines "h2 \<equiv> h\<lparr>heap_handles := (\<lambda>hn. if \<exists>it\<in>set (filter P (heap_items h)). Handle w it = Some hn then None
                              else heap_handles h hn),
       heap_byteSize := b, heap_items := filter (\<lambda>it. \<not> P it) (heap_items h)\<rparr>"
  shows "handles_ok w (reindex w h2)"
proof (rule reindex_handles_ok)
  have ok: "handles_ok w h" using inv by (simp add: heap_inv_def)
  show "\<not> heap_panicked h2" using ok by (simp add: handles_ok_def h2_def)
  have idx: "heap_handles h hn \<noteq> None \<longleftrightarrow> (\<exists>it\<in>set (heap_items h). Handle w it = Some hn)" for hn
    using handles_ok_index [OF ok, of hn] by (metis in_set_conv_nth not_None_eq)
  have kept: "heap_handles h2 hn \<noteq> None \<longleftrightarrow> (\<exists>it\<in>set (heap_items h2). Handle w it = Some hn)" for hn
    using idx [of hn] heap_inv_inj [OF inv, of _ _ hn] by (auto simp: h2_def)
  show "\<exists>it\<in>set (heap_items h2). Handle w it = Some hn" if "heap_handles h2 hn \<noteq> None" for hn
    using kept that by blast
  show "\<exists>hn. Handle w it = Some hn \<and> heap_handles h2 hn \<noteq> None" if "it \<in> set (heap_items h2)" for it
    using heap_inv_handle [OF inv, of it] kept that by (auto simp: h2_def)
  have "inj_on (the \<circ> Handle w) (set (heap_items h))"
  proof (rule inj_onI)
    fix x y assume xy: "x \<in> set (heap_items h)" "y \<in> set (heap_items h)"
      "(the \<circ> Handle w) x = (the \<circ> Handle w) y"
    show "x = y"
      using heap_inv_handle [OF inv xy(1)] heap_inv_handle [OF inv xy(2)] heap_inv_inj [OF inv xy(1,2)] xy(3)
      by auto
  qed
  moreover have "distinct (heap_items h)"
    using heap_inv_distinct [OF inv] by (simp add: distinct_map)
  ultimately show "distinct (map (the \<circ> Handle w) (heap_items h2))"
    by (auto simp: h2_def distinct_map intro: inj_on_subset)
qed

lemma heap_Cleanup_unfold:
  fixes P :: "queue_item \<Rightarrow> bool"
  defines "h2 \<equiv> \<lambda>w h. h\<lparr>heap_handles := (\<lambda>hn. if \<exists>it\<in>set (filter P (heap_items h)). Handle w it = Some hn
                                then None else heap_handles h hn),
       heap_byteSize := heap_byteSize h - (\<Sum>it\<leftarrow>filter P (heap_items h). item_size it),
       heap_items := filter (\<lambda>it. \<not> P it) (heap_items h)\<rparr>"
  shows "heap_Cleanup P (w, h) =
    (filter P (heap_items h), fold invalidate_item (filter P (heap_items h)) w,
     if filter P (heap_items h) = [] then h
     else heapify (fold invalidate_item (filter P (heap_items h)) w)
            (reindex (fold invalidate_item (filter P (heap_items h)) w) (h2 w h)))"
proof (cases "filter P (heap_items h) = []")
  case True
  have "\<not> (\<exists>it\<in>set (filter P (heap_items h)). Handle w it = Some hn)" for hn
    unfolding True by simp
  then show ?thesis using True by (simp add: heap_Cleanup_def cleanup_scan_eq del: set_filter)
next
  case False
  then show ?thesis by (simp add: heap_Cleanup_def cleanup_scan_eq h2_def)
qed

lemma reindex_frame [simp]:
  "heap_items (reindex w h) = heap_items h"
  "heap_policy (reindex w h) = heap_policy h"
  "heap_byteSize (reindex w h) = heap_byteSize h"
proof -
  have "heap_items (fold (\<lambda>(i, it). set_index w it i) xs h) = heap_items h \<and>
    heap_policy (fold (\<lambda>(i, it). set_index w it i) xs h) = heap_policy h \<and>
    heap_byteSize (fold (\<lambda>(i, it). set_index w it i) xs h) = heap_byteSize h" for xs
  proof (induction xs arbitrary: h)
    case (Cons x xs)
    then show ?case by (cases x) simp
  qed simp
  then show "heap_items (reindex w h) = heap_items h" "heap_policy (reindex w h) = heap_policy h"
    "heap_byteSize (reindex w h) = heap_byteSize h" by (simp_all add: reindex_def)
qed

lemma handles_ok_world: "(\<And>it. Handle w' it = Handle w it) \<Longrightarrow> handles_ok w' h = handles_ok w h"
  by (simp add: handles_ok_def)

lemma reindex_world:
  assumes "\<And>it. Handle w' it = Handle w it"
  shows "reindex w' h = reindex w h"
proof -
  have "set_index w' = set_index w" using assms by (simp add: fun_eq_iff set_index_def)
  then show ?thesis by (simp add: reindex_def)
qed

lemma heap_Cleanup_correct:
  assumes w: "world_ok w" and inv: "heap_inv w h" and C: "heap_Cleanup P (w, h) = (rs, w', h')"
  shows "rs = filter P (heap_items h)" "heap_elems h' = filter_mset (\<lambda>it. \<not> P it) (heap_elems h)"
    "w' = fold invalidate_item rs w" "heap_inv w' h'" "heap_policy h' = heap_policy h"
    "strict_weak_order (heap_less h) \<Longrightarrow> no_ties (heap_less h) (heap_items h) \<Longrightarrow> max_min_heap h \<Longrightarrow>
      max_min_heap h'"
proof -
  show rs: "rs = filter P (heap_items h)" and w': "w' = fold invalidate_item rs w"
    using C by (auto simp: heap_Cleanup_unfold)
  let ?h2 = "h\<lparr>heap_handles := (\<lambda>hn. if \<exists>it\<in>set (filter P (heap_items h)). Handle w it = Some hn
                                then None else heap_handles h hn),
       heap_byteSize := heap_byteSize h - (\<Sum>it\<leftarrow>filter P (heap_items h). item_size it),
       heap_items := filter (\<lambda>it. \<not> P it) (heap_items h)\<rparr>"
  let ?h3 = "reindex w' ?h2"
  have h': "h' = (if rs = [] then h else heapify w' ?h3)"
    using C by (auto simp: heap_Cleanup_unfold)
  have st: "heap_step w' ?h3 (heapify w' ?h3)" by (rule heapify_step)
  show pol: "heap_policy h' = heap_policy h" using heap_step_policy [OF st] h' by simp
  show "heap_elems h' = filter_mset (\<lambda>it. \<not> P it) (heap_elems h)"
  proof (cases "rs = []")
    case True
    then have "filter (\<lambda>it. \<not> P it) (heap_items h) = heap_items h"
      using rs by (auto simp: filter_empty_conv intro!: filter_True)
    then show ?thesis using h' True by (simp add: heap_elems_def flip: mset_filter)
  next
    case False
    then show ?thesis using st h' by (simp add: heap_elems_def heap_step_def same_contents_def)
  qed
  show "heap_inv w' h'"
  proof (cases "rs = []")
    case True
    then show ?thesis using h' w' inv by simp
  next
    case False
    have f: "reindex w' ?h2 = reindex w ?h2"
      by (rule reindex_world) (simp add: w')
    have "handles_ok w ?h3" unfolding f by (rule handles_ok_cleanup [OF inv])
    moreover have "handles_ok w' ?h3 = handles_ok w ?h3"
      by (rule handles_ok_world) (simp add: w')
    ultimately have "handles_ok w' ?h3" by blast
    moreover have "\<exists>a. Handle w' it = Some (HeapItem a) \<and> \<not> isInvalidated w' (HeapItem a)"
      if "it \<in> set (heap_items ?h3)" for it
    proof -
      have it: "it \<in> set (heap_items h)" "\<not> P it" using that by auto
      obtain a where a: "Handle w it = Some (HeapItem a)" "\<not> isInvalidated w (HeapItem a)"
        using heap_inv_handle [OF inv it(1)] by blast
      have "\<not> isInvalidated w' (HeapItem a)"
      proof
        assume "isInvalidated w' (HeapItem a)"
        then obtain x where x: "x \<in> set rs" "Handle w x = Some (HeapItem a)"
          using a(2) unfolding w' isInvalidated_invalidate_items by blast
        then have "x = it" using heap_inv_inj [OF inv _ it(1) _ a(1), of x] rs by simp
        then show False using x(1) rs it(2) by simp
      qed
      then show ?thesis using a by (simp add: w')
    qed
    moreover have "heap_byteSize ?h3 = (\<Sum>it\<in>#mset (heap_items ?h3). item_size it)"
      using inv sum_filter_split [of item_size P "heap_items h"] by (simp add: heap_inv_def)
    ultimately have "heap_inv w' ?h3" unfolding heap_inv_def by blast
    then show ?thesis using heap_inv_step [OF st] h' False by simp
  qed
  show "max_min_heap h'" if "strict_weak_order (heap_less h)" "no_ties (heap_less h) (heap_items h)" "max_min_heap h"
  proof (cases "rs = []")
    case False
    have "heap_ok (heap_less ?h3) isMinLevel (heap_items (heapify w' ?h3))"
      by (rule heapify_heap) (use that in \<open>simp_all add: no_ties_filter\<close>)
    then show ?thesis using h' False pol by (simp add: max_min_heap_def)
  qed (use h' that in simp)
qed

lemma heap_Drain_correct:
  assumes D: "heap_Drain (w, h) = (rs, w', h')" and inv: "heap_inv w h"
  shows "mset rs = heap_elems h" "heap_elems h' = {#}" "w' = fold invalidate_item rs w" "heap_inv w' h'"
    "heap_policy h' = heap_policy h" "max_min_heap h'"
  using assms by (auto simp: heap_Drain_def heap_elems_def heap_inv_def handles_ok_def max_min_heap_def
      heap_except_def)

subsection \<open>The heap provides the queue contract\<close>

interpretation heap_queue:
  safe_queue heap_inv heap_elems heap_Len heap_ByteSize heap_Add heap_Remove heap_Cleanup heap_Drain
proof unfold_locales
  fix w w' h h' it hn P rs and X :: "nat set" and p :: nat
  show "heap_inv w h \<Longrightarrow> heap_Len h = size (heap_elems h)"
    by (simp add: heap_Len_def heap_elems_def)
  show "heap_inv w h \<Longrightarrow> heap_ByteSize h = (\<Sum>it\<in>#heap_elems h. item_size it)"
    by (simp add: heap_ByteSize_def heap_elems_def heap_inv_def)
  show "heap_inv w h \<Longrightarrow> it \<in># heap_elems h \<Longrightarrow> live w it"
    using heap_inv_handle [of w h it] by (auto simp: heap_elems_def live_def)
  show "heap_inv w h \<Longrightarrow> count (image_mset item_ptr (heap_elems h)) p \<le> 1"
    using heap_inv_distinct [of w h] by (auto simp: heap_elems_def distinct_count_atmost_1 simp flip: mset_map)
  show "world_ok w \<Longrightarrow> heap_inv w h \<Longrightarrow> touches X w w' \<Longrightarrow> X \<inter> ptrs (heap_elems h) = {} \<Longrightarrow> heap_inv w' h"
    by (rule heap_inv_frame)
  show "world_ok w \<Longrightarrow> heap_inv w h \<Longrightarrow> item_ptr it \<notin> ptrs (heap_elems h) \<Longrightarrow> heap_Add it (w, h) = (w', h') \<Longrightarrow>
      world_ok w' \<and> touches {item_ptr it} w w' \<and> heap_inv w' h' \<and> heap_elems h' = add_mset it (heap_elems h)"
    using heap_Add_correct(1-4) [of w h it w' h'] by blast
  show "world_ok w \<Longrightarrow> heap_inv w h \<Longrightarrow> it \<in># heap_elems h \<Longrightarrow>
      \<exists>q'. heap_Remove (Handle w it) (w, h) = (Inr it, invalidate_item it w, q') \<and>
        heap_inv (invalidate_item it w) q' \<and> heap_elems q' = heap_elems h - {#it#}"
    using heap_Remove_correct by blast
  show "hn = None \<or> isInvalidated w (the hn) \<Longrightarrow>
      heap_Remove hn (w, h) = (Inl (Sentinel ErrInvalidQueueItemHandle), w, h)"
    by (auto simp: heap_Remove_def split: option.split)
  show "world_ok w \<Longrightarrow> heap_inv w h \<Longrightarrow> heap_Cleanup P (w, h) = (rs, w', h') \<Longrightarrow>
      mset rs = filter_mset P (heap_elems h) \<and> heap_elems h' = filter_mset (\<lambda>it. \<not> P it) (heap_elems h) \<and>
      w' = fold invalidate_item rs w \<and> heap_inv w' h'"
    using heap_Cleanup_correct(1-4) [of w h P rs w' h'] by (simp add: heap_elems_def)
  show "world_ok w \<Longrightarrow> heap_inv w h \<Longrightarrow> heap_Drain (w, h) = (rs, w', h') \<Longrightarrow>
      mset rs = heap_elems h \<and> heap_elems h' = {#} \<and> w' = fold invalidate_item rs w \<and> heap_inv w' h'"
    using heap_Drain_correct(1-4) [of w h rs w' h'] by simp
qed

end
