(* ===== verification/MaxMinHeap_Props.thy ===== *)
theory MaxMinHeap_Props
  imports MaxMinHeap_Queue
begin

text \<open>
  The properties of the max-min heap that its clients rely on, and two runs that show
  where the heap order is lost: removing an item that is not the head, and equal keys.
\<close>

subsection \<open>Serving the heap by its head\<close>

text \<open>What the dispatcher does with one queue: peek at the head, remove it by its handle.\<close>

fun serve_heads :: "nat \<Rightarrow> world \<times> maxMinHeap \<Rightarrow> queue_item list \<times> world \<times> maxMinHeap" where
  "serve_heads 0 s = ([], s)"
| "serve_heads (Suc n) (w, h) =
     (case heap_PeekHead h of
        None \<Rightarrow> ([], w, h)
      | Some it \<Rightarrow>
          (case heap_Remove (Handle w it) (w, h) of
             (Inl e, s) \<Rightarrow> ([], s)
           | (Inr x, s) \<Rightarrow> let (xs, t) = serve_heads n s in (x # xs, t)))"

fun add_all :: "queue_item list \<Rightarrow> world \<times> maxMinHeap \<Rightarrow> world \<times> maxMinHeap" where
  "add_all [] s = s"
| "add_all (it # its) s = add_all its (heap_Add it s)"

definition good_heap :: "world \<Rightarrow> maxMinHeap \<Rightarrow> bool" where
  "good_heap w h \<longleftrightarrow> world_ok w \<and> heap_inv w h \<and> max_min_heap h"

lemma heap_PeekHead_mem: "heap_PeekHead h = Some it \<Longrightarrow> it \<in># heap_elems h"
  by (auto simp: heap_PeekHead_def heap_elems_def split: if_splits)

lemma heap_PeekHead_None: "heap_PeekHead h = None \<longleftrightarrow> heap_items h = []"
  by (simp add: heap_PeekHead_def)

lemma serve_head_good:
  assumes g: "good_heap w h" and so: "strict_weak_order (heap_less h)"
    and nt: "no_ties (heap_less h) (heap_items h)" and hd: "heap_PeekHead h = Some it"
  obtains h' where "heap_Remove (Handle w it) (w, h) = (Inr it, invalidate_item it w, h')"
    "good_heap (invalidate_item it w) h'" "heap_elems h = add_mset it (heap_elems h')"
    "heap_policy h' = heap_policy h" "no_ties (heap_less h) (heap_items h')"
proof -
  have w: "world_ok w" and inv: "heap_inv w h" and mm: "max_min_heap h"
    using g by (simp_all add: good_heap_def)
  note it = heap_PeekHead_mem [OF hd]
  obtain h' where R: "heap_Remove (Handle w it) (w, h) = (Inr it, invalidate_item it w, h')"
    and inv': "heap_inv (invalidate_item it w) h'" and el: "heap_elems h' = heap_elems h - {#it#}"
    and pol: "heap_policy h' = heap_policy h"
    using heap_Remove_correct [OF w inv it] by blast
  have "good_heap (invalidate_item it w) h'"
    using heap_Remove_head_heap [OF so nt mm inv hd R] inv' world_ok_invalidate_item [OF w]
    by (simp add: good_heap_def)
  moreover have all: "heap_elems h = add_mset it (heap_elems h')" using el it by simp
  moreover have "no_ties (heap_less h) (heap_items h')"
    using no_ties_mset [OF nt, of "it # heap_items h'"] all
    by (simp add: heap_elems_def no_ties_def)
  ultimately show ?thesis using that R pol by blast
qed

lemma serve_heads_sorted:
  assumes "good_heap w h" "strict_weak_order (heap_less h)" "no_ties (heap_less h) (heap_items h)"
    and "length (heap_items h) \<le> n"
  shows "mset (fst (serve_heads n (w, h))) = heap_elems h \<and>
    sorted_wrt (\<lambda>a b. \<not> heap_less h b a) (fst (serve_heads n (w, h)))"
  using assms
proof (induction n arbitrary: w h)
  case 0
  then show ?case by (simp add: heap_elems_def)
next
  case (Suc n)
  show ?case
  proof (cases "heap_PeekHead h")
    case None
    moreover have "heap_items h = []" using None by (simp only: heap_PeekHead_None)
    ultimately show ?thesis by (simp add: heap_elems_def)
  next
    case (Some it)
    obtain h' where R: "heap_Remove (Handle w it) (w, h) = (Inr it, invalidate_item it w, h')"
      and g: "good_heap (invalidate_item it w) h'" and el: "heap_elems h = add_mset it (heap_elems h')"
      and pol: "heap_policy h' = heap_policy h" and nt: "no_ties (heap_less h) (heap_items h')"
      using serve_head_good [OF Suc.prems(1-3) Some] by blast
    let ?r = "serve_heads n (invalidate_item it w, h')"
    have "size (heap_elems h) = Suc (size (heap_elems h'))" by (simp add: el)
    then have len: "length (heap_items h') \<le> n"
      using Suc.prems(4) by (simp add: heap_elems_def)
    have IH: "mset (fst ?r) = heap_elems h'" "sorted_wrt (\<lambda>a b. \<not> heap_less h b a) (fst ?r)"
      using Suc.IH [OF g _ _ len] Suc.prems(2) nt by (simp_all add: pol)
    have eq: "fst (serve_heads (Suc n) (w, h)) = it # fst ?r"
      using Some R by (simp add: case_prod_beta)
    have "set (fst ?r) \<subseteq> set_mset (heap_elems h)" using IH(1) el by (metis set_mset_mset set_mset_add_mset_insert subset_insertI)
    then have "\<forall>y\<in>set (fst ?r). \<not> heap_less h y it"
      using heap_PeekHead_best [OF Suc.prems(2) _ Some] Suc.prems(1) by (auto simp: good_heap_def)
    then show ?thesis using IH el eq by simp
  qed
qed

lemma add_all_good:
  assumes "good_heap w h" "strict_weak_order (heap_less h)"
    and "distinct (map item_ptr its)" "item_ptr ` set its \<inter> ptrs (heap_elems h) = {}"
    and "add_all its (w, h) = (w', h')"
  shows "good_heap w' h' \<and> heap_elems h' = heap_elems h + mset its \<and> heap_policy h' = heap_policy h"
  using assms
proof (induction its arbitrary: w h)
  case (Cons it its)
  obtain w1 h1 where A: "heap_Add it (w, h) = (w1, h1)" by (cases "heap_Add it (w, h)")
  have p: "item_ptr it \<notin> ptrs (heap_elems h)" using Cons.prems(4) by auto
  have w: "world_ok w" "heap_inv w h" "max_min_heap h" using Cons.prems(1) by (simp_all add: good_heap_def)
  note ok = heap_Add_correct [OF w(1,2) p A]
  have g: "good_heap w1 h1"
    using ok heap_Add_heap [OF Cons.prems(2) w(3) A] by (simp add: good_heap_def)
  have "good_heap w' h' \<and> heap_elems h' = heap_elems h1 + mset its \<and> heap_policy h' = heap_policy h1"
    by (rule Cons.IH [OF g]) (use Cons.prems ok A in \<open>auto\<close>)
  then show ?case using ok by simp
qed simp

subsection \<open>Sample items\<close>

definition sample_request :: "string \<Rightarrow> gotime \<Rightarrow> flow_request" where
  "sample_request rid t = \<lparr>req_id = rid, req_flowKey = \<lparr>ID = ''flow'', Priority = 0\<rparr>, req_byteSize = 10,
     receivedTimestamp = t, initialEffectiveTTL = 0, infReq_headers = None\<rparr>"

definition sample_item :: "nat \<Rightarrow> gotime \<Rightarrow> queue_item" where
  "sample_item p t = \<lparr>item_ptr = p, enqueueTime = t, effectiveTTL = 0, originalRequest = sample_request [] t\<rparr>"

definition sample_items :: "gotime list \<Rightarrow> queue_item list" where
  "sample_items ts = map (\<lambda>(p, t). sample_item p t) (enumerate 0 ts)"

lemma good_heap_new: "good_heap init_world (newMaxMinHeap p)"
  using heap_inv_new [of init_world p]
  by (simp add: good_heap_def world_ok_init max_min_heap_def heap_except_def newMaxMinHeap_def)

lemma newMaxMinHeap_empty [simp]:
  "heap_elems (newMaxMinHeap p) = {#}" "heap_policy (newMaxMinHeap p) = p"
  by (simp_all add: heap_elems_def newMaxMinHeap_def)

lemmas sample_simps = sample_items_def sample_item_def sample_request_def

subsection \<open>Properties\<close>

text \<open>
  C1: items added to a fresh heap in any order and then served by repeatedly removing the
  head come out exactly once each and in the order of the policy, for every policy whose
  \<open>Less\<close> is a strict weak order and for items that it tells apart.
\<close>

theorem heap_serves_in_policy_order:
  assumes "strict_weak_order (item_less p)" "no_ties (item_less p) its" "distinct (map item_ptr its)"
  shows "mset (fst (serve_heads (length its) (add_all its (init_world, newMaxMinHeap p)))) = mset its \<and>
    sorted_wrt (\<lambda>a b. \<not> item_less p b a)
      (fst (serve_heads (length its) (add_all its (init_world, newMaxMinHeap p))))"
proof -
  obtain w h where A: "add_all its (init_world, newMaxMinHeap p) = (w, h)" by (metis surj_pair)
  have g: "good_heap w h \<and> heap_elems h = mset its \<and> heap_policy h = p"
    using add_all_good [OF good_heap_new _ assms(3) _ A] assms(1) by simp
  then have "no_ties (item_less p) (heap_items h)"
    using no_ties_mset [OF assms(2)] by (simp add: heap_elems_def)
  moreover have "length (heap_items h) = length its"
    using g by (metis heap_elems_def size_mset)
  ultimately show ?thesis
    using serve_heads_sorted [of w h "length its"] g assms(1) A by simp
qed

theorem heap_serves_in_policy_order_witness:
  "sorted_wrt (\<lambda>a b. \<not> item_less fcfs b a)
     (fst (serve_heads 3 (add_all (sample_items [5, 2, 9]) (init_world, newMaxMinHeap fcfs))))"
proof -
  have len: "length (sample_items [5, 2, 9]) = 3" by (simp add: sample_items_def)
  have "no_ties (item_less fcfs) (sample_items [5, 2, 9])" "distinct (map item_ptr (sample_items [5, 2, 9]))"
    by (simp_all add: no_ties_def sample_simps fcfs_def fcfs_Less_def)
  then show ?thesis
    using heap_serves_in_policy_order [OF fcfs_items.strict_weak_order_axioms, of "sample_items [5, 2, 9]"]
    unfolding len by blast
qed

text \<open>
  C2: \<open>Add\<close> keeps a heap a heap, also with equal keys: the array order, the index of every
  handle, the byte counter, and the items are those of before plus the new one, whose
  handle is fresh and valid.
\<close>

theorem heap_Add_preserves:
  assumes "good_heap w h" "strict_weak_order (heap_less h)" "item_ptr it \<notin> ptrs (heap_elems h)"
    and "heap_Add it (w, h) = (w', h')"
  shows "good_heap w' h' \<and> heap_elems h' = add_mset it (heap_elems h) \<and>
    heap_ByteSize h' = heap_ByteSize h + item_size it \<and> live w' it"
  using heap_Add_correct [OF _ _ assms(3,4)] heap_Add_heap [OF assms(2) _ assms(4)] assms(1)
    heap_queue.Add_Len [OF _ _ assms(3,4)] by (simp add: good_heap_def)

theorem heap_Add_preserves_witness:
  "good_heap (fst (heap_Add (sample_item 0 7) (init_world, newMaxMinHeap edf)))
     (snd (heap_Add (sample_item 0 7) (init_world, newMaxMinHeap edf)))"
  using heap_Add_preserves [OF good_heap_new, of edf "sample_item 0 7"] edf_items.strict_weak_order_axioms
  by (simp add: prod_eq_iff)

text \<open>
  C3: in a heap \<open>PeekHead\<close> is an item that no other item beats and \<open>PeekTail\<close> is an item
  that beats no other one; both answer nil exactly on the empty heap.
\<close>

theorem heap_Peek_extremes:
  assumes "strict_weak_order (heap_less h)" "max_min_heap h"
  shows "(heap_PeekHead h = None \<longleftrightarrow> heap_elems h = {#}) \<and> (heap_PeekTail h = None \<longleftrightarrow> heap_elems h = {#}) \<and>
    (\<forall>x. heap_PeekHead h = Some x \<longrightarrow> x \<in># heap_elems h \<and> (\<forall>y\<in>#heap_elems h. \<not> heap_less h y x)) \<and>
    (\<forall>x. heap_PeekTail h = Some x \<longrightarrow> x \<in># heap_elems h \<and> (\<forall>y\<in>#heap_elems h. \<not> heap_less h x y))"
proof (intro conjI allI impI)
  show "heap_PeekHead h = None \<longleftrightarrow> heap_elems h = {#}" "heap_PeekTail h = None \<longleftrightarrow> heap_elems h = {#}"
    by (simp_all add: heap_PeekHead_def heap_PeekTail_def heap_elems_def Let_def)
qed (use heap_PeekHead_best [OF assms] heap_PeekTail_worst [OF assms] in blast)+

theorem heap_Peek_extremes_witness:
  "heap_PeekHead (newMaxMinHeap fcfs) = None"
  using heap_Peek_extremes [of "newMaxMinHeap fcfs"] good_heap_new [of fcfs] fcfs_items.strict_weak_order_axioms
  by (simp add: good_heap_def)



text \<open>
  C5: every outcome of \<open>Remove\<close>: a nil, invalidated or foreign handle is
  \<open>ErrInvalidQueueItemHandle\<close>; a valid handle the heap does not hold is
  \<open>ErrQueueItemNotFound\<close>; in both cases nothing changes. The handle of a stored item
  removes exactly that item, whatever its position, and works only once.
\<close>

theorem heap_Remove_outcomes:
  assumes "world_ok w" "heap_inv w h"
  shows "(hn = None \<or> isInvalidated w (the hn) \<or> (\<exists>a e q. hn = Some (ListItemHandle a e q)) \<longrightarrow>
      heap_Remove hn (w, h) = (Inl (Sentinel ErrInvalidQueueItemHandle), w, h)) \<and>
    (\<not> isInvalidated w (HeapItem a) \<and> (\<forall>it\<in>#heap_elems h. Handle w it \<noteq> Some (HeapItem a)) \<longrightarrow>
      heap_Remove (Some (HeapItem a)) (w, h) = (Inl (Sentinel ErrQueueItemNotFound), w, h)) \<and>
    (it \<in># heap_elems h \<longrightarrow> (\<exists>h'. heap_Remove (Handle w it) (w, h) = (Inr it, invalidate_item it w, h') \<and>
      heap_inv (invalidate_item it w) h' \<and> heap_elems h' = heap_elems h - {#it#} \<and>
      heap_Remove (Handle w it) (invalidate_item it w, h') =
        (Inl (Sentinel ErrInvalidQueueItemHandle), invalidate_item it w, h')))"
proof (intro conjI impI)
  show "heap_Remove hn (w, h) = (Inl (Sentinel ErrInvalidQueueItemHandle), w, h)"
    if "hn = None \<or> isInvalidated w (the hn) \<or> (\<exists>a e q. hn = Some (ListItemHandle a e q))"
    using that by (auto simp: heap_Remove_def split: option.split)
next
  assume a: "\<not> isInvalidated w (HeapItem a) \<and> (\<forall>it\<in>#heap_elems h. Handle w it \<noteq> Some (HeapItem a))"
  have ok: "handles_ok w h" using assms(2) by (simp add: heap_inv_def)
  have "heap_handles h (HeapItem a) = None"
  proof (rule ccontr)
    assume "heap_handles h (HeapItem a) \<noteq> None"
    then obtain k where "k < length (heap_items h)" "Handle w (heap_items h ! k) = Some (HeapItem a)"
      using handles_ok_index [OF ok, of "HeapItem a"] by auto
    then show False using a by (simp add: heap_elems_def)
  qed
  then show "heap_Remove (Some (HeapItem a)) (w, h) = (Inl (Sentinel ErrQueueItemNotFound), w, h)"
    using a by (simp add: heap_Remove_def)
next
  assume it: "it \<in># heap_elems h"
  obtain h' where R: "heap_Remove (Handle w it) (w, h) = (Inr it, invalidate_item it w, h')"
    "heap_inv (invalidate_item it w) h'" "heap_elems h' = heap_elems h - {#it#}"
    using heap_queue.Remove [OF assms it] by blast
  then show "\<exists>h'. heap_Remove (Handle w it) (w, h) = (Inr it, invalidate_item it w, h') \<and>
      heap_inv (invalidate_item it w) h' \<and> heap_elems h' = heap_elems h - {#it#} \<and>
      heap_Remove (Handle w it) (invalidate_item it w, h') =
        (Inl (Sentinel ErrInvalidQueueItemHandle), invalidate_item it w, h')"
    using heap_queue.Remove_twice [OF assms it R(1)] by blast
qed

theorem heap_Remove_outcomes_witness:
  "heap_Remove (Some (HeapItem 3)) (init_world, newMaxMinHeap edf) =
     (Inl (Sentinel ErrQueueItemNotFound), init_world, newMaxMinHeap edf)"
  using heap_Remove_outcomes [of init_world "newMaxMinHeap edf" None 3 "sample_item 0 0"]
    world_ok_init heap_inv_new [of init_world edf] by (simp add: init_world_def)

lemma heap_elems_length: "heap_elems h = mset xs \<Longrightarrow> length (heap_items h) = length xs"
  by (metis heap_elems_def size_mset)

lemma not_heap_below_1:
  assumes "heap_policy h = fcfs" "map enqueueTime (heap_items h) = [a, b, c, d, e]"
    and "k = 3 \<or> k = 4" "b < [a, b, c, d, e] ! k"
  shows "\<not> max_min_heap h"
proof
  assume h: "max_min_heap h"
  have "length (map enqueueTime (heap_items h)) = 5" unfolding assms(2) by simp
  then have len: "length (heap_items h) = 5" by simp
  have k: "k < 5" "anc 1 k" using assms(3) anc_parent [of k] by (auto simp: parent_def)
  then have "dominates (heap_less h) isMinLevel 1 (heap_items h ! 1) (heap_items h ! k)"
    using heap_exceptD [of "heap_less h" isMinLevel _ "heap_items h" 1 k] h len by (simp add: max_min_heap_def)
  moreover have "isMinLevel 1" by code_simp
  moreover have "enqueueTime (heap_items h ! j) = [a, b, c, d, e] ! j" if "j < 5" for j
    using assms(2) len that by (metis nth_map)
  ultimately show False using assms(1,4) k(1) by (simp add: dominates_def fcfs_def fcfs_Less_def)
qed

text \<open>
  A run that loses the heap order. Six items with distinct keys are added; removing
  the item at index 4 puts the last item there and only moves it down, although it belongs
  above its new parent. The array before is a max-min heap, the array after is not.
\<close>

theorem heap_Remove_inner_loses_order:
  "let (w, h) = add_all (sample_items [1, 2, 5, 3, 4, 6]) (init_world, newMaxMinHeap fcfs);
       (r, w', h') = heap_Remove (Handle w (heap_items h ! 4)) (w, h)
   in good_heap w h \<and> r = Inr (heap_items h ! 4) \<and> \<not> max_min_heap h'"
proof -
  let ?s = "add_all (sample_items [1, 2, 5, 3, 4, 6]) (init_world, newMaxMinHeap fcfs)"
  obtain w h where A: "?s = (w, h)" by (metis surj_pair)
  obtain r w' h' where R: "heap_Remove (Handle w (heap_items h ! 4)) (w, h) = (r, w', h')" by (metis surj_pair)
  have g: "good_heap w h \<and> heap_elems h = mset (sample_items [1, 2, 5, 3, 4, 6]) \<and> heap_policy h = fcfs"
    using add_all_good [OF good_heap_new _ _ _ A] fcfs_items.strict_weak_order_axioms by (simp add: sample_simps)
  have "map enqueueTime (heap_items (snd (snd (heap_Remove (Handle (fst ?s) (heap_items (snd ?s) ! 4)) ?s)))) = [1, 4, 6, 2, 5]"
    by code_simp
  then have keys: "map enqueueTime (heap_items h') = [1, 4, 6, 2, 5]" using A R by simp
  have len: "4 < length (heap_items h)"
    using heap_elems_length [OF conjunct1 [OF conjunct2 [OF g]]] by (simp add: sample_items_def)
  have it: "heap_items h ! 4 \<in># heap_elems h" using len by (simp add: heap_elems_def)
  have "r = Inr (heap_items h ! 4) \<and> heap_policy h' = heap_policy h"
    using heap_Remove_correct [OF _ _ it, of w] g R by (auto simp: good_heap_def)
  then show ?thesis using A R g not_heap_below_1 [OF _ keys, of 4] by simp
qed

text \<open>
  A run with equal keys in which removing the head loses the heap order. After the
  removal the array \<open>[1, 1, 3, 2, 1]\<close> is no max-min heap: \<open>downMax\<close> went on at a
  child, which is on a min level, as if it were on a max level.
\<close>

theorem heap_ties_lose_order:
  "let (w, h) = add_all (sample_items [1, 1, 3, 1, 1, 2]) (init_world, newMaxMinHeap fcfs);
       (r, w', h') = heap_Remove (Handle w (heap_items h ! 0)) (w, h)
   in good_heap w h \<and> heap_PeekHead h = Some (heap_items h ! 0) \<and> r = Inr (heap_items h ! 0) \<and> \<not> max_min_heap h'"
proof -
  let ?s = "add_all (sample_items [1, 1, 3, 1, 1, 2]) (init_world, newMaxMinHeap fcfs)"
  obtain w h where A: "?s = (w, h)" by (metis surj_pair)
  obtain r w' h' where R: "heap_Remove (Handle w (heap_items h ! 0)) (w, h) = (r, w', h')" by (metis surj_pair)
  have g: "good_heap w h \<and> heap_elems h = mset (sample_items [1, 1, 3, 1, 1, 2]) \<and> heap_policy h = fcfs"
    using add_all_good [OF good_heap_new _ _ _ A] fcfs_items.strict_weak_order_axioms by (simp add: sample_simps)
  have "map enqueueTime (heap_items (snd (snd (heap_Remove (Handle (fst ?s) (heap_items (snd ?s) ! 0)) ?s)))) = [1, 1, 3, 2, 1]"
    by code_simp
  then have keys: "map enqueueTime (heap_items h') = [1, 1, 3, 2, 1]" using A R by simp
  have len: "0 < length (heap_items h)"
    using heap_elems_length [OF conjunct1 [OF conjunct2 [OF g]]] by (simp add: sample_items_def)
  have it: "heap_items h ! 0 \<in># heap_elems h" using len by (simp add: heap_elems_def)
  have "r = Inr (heap_items h ! 0) \<and> heap_policy h' = heap_policy h"
    using heap_Remove_correct [OF _ _ it, of w] g R by (auto simp: good_heap_def)
  then show ?thesis using A R g len not_heap_below_1 [OF _ keys, of 3] by (simp add: heap_PeekHead_def)
qed

end
