(* ===== verification/ListQueue.thy ===== *)
theory ListQueue
  imports Safe_Queue Ordering_Policies
begin

text \<open>
  The FIFO queue over \<open>container/list\<close>
  (src/pkg/epp/flowcontrol/framework/plugins/queue/listqueue.go). A list element is a pair
  of its address and its value; removed elements keep their value, as in Go, so the value
  of every element ever pushed is kept in \<open>element_value\<close>.
\<close>

subsection \<open>State and operations\<close>

record listQueue =
  lq_self :: nat
  lq_requests :: "(nat \<times> queue_item) list"
  element_value :: "nat \<Rightarrow> queue_item option"
  lq_byteSize :: uint64
  lq_panicked :: bool

definition newListQueue :: "nat \<Rightarrow> listQueue" where
  "newListQueue self = \<lparr>lq_self = self, lq_requests = [], element_value = (\<lambda>_. None),
     lq_byteSize = 0, lq_panicked = False\<rparr>"

definition list_Add :: "queue_item \<Rightarrow> world \<times> listQueue \<Rightarrow> world \<times> listQueue" where
  "list_Add it = (\<lambda>(w, q).
     let element = next_addr w;
         q1 = q\<lparr>lq_requests := lq_requests q @ [(element, it)],
                element_value := (element_value q)(element := Some it),
                lq_byteSize := lq_byteSize q + item_size it\<rparr>;
         w1 = SetHandle it (ListItemHandle (next_addr w) element (lq_self q))
                (w\<lparr>next_addr := Suc (next_addr w)\<rparr>)
     in (w1, q1))"

definition list_Remove ::
  "queue_handle option \<Rightarrow> world \<times> listQueue \<Rightarrow> (gerror + queue_item) \<times> world \<times> listQueue" where
  "list_Remove handle = (\<lambda>(w, q).
     case handle of
       None \<Rightarrow> (Inl (Sentinel ErrInvalidQueueItemHandle), w, q)
     | Some hn \<Rightarrow>
         if isInvalidated w hn then (Inl (Sentinel ErrInvalidQueueItemHandle), w, q)
         else (case hn of
             HeapItem _ \<Rightarrow> (Inl (Sentinel ErrInvalidQueueItemHandle), w, q)
           | ListItemHandle _ element owner \<Rightarrow>
               if owner \<noteq> lq_self q then (Inl (Sentinel ErrQueueItemNotFound), w, q)
               else (case element_value q element of
                   None \<Rightarrow> (Inl (Errorf ''nil pointer dereference'' []), w, q\<lparr>lq_panicked := True\<rparr>)
                 | Some it \<Rightarrow>
                     (Inr it, Invalidate hn w,
                      q\<lparr>lq_requests := filter (\<lambda>(e, _). e \<noteq> element) (lq_requests q),
                        lq_byteSize := lq_byteSize q + (NOT (item_size it) + 1)\<rparr>))))"

fun list_cleanup_loop :: "(queue_item \<Rightarrow> bool) \<Rightarrow> (nat \<times> queue_item) list \<Rightarrow> world \<times> listQueue \<Rightarrow>
    queue_item list \<times> world \<times> listQueue" where
  "list_cleanup_loop predicate [] s = ([], s)"
| "list_cleanup_loop predicate ((e, it) # es) (w, q) =
     (if predicate it
      then let q1 = q\<lparr>lq_requests := filter (\<lambda>(e', _). e' \<noteq> e) (lq_requests q),
                      lq_byteSize := lq_byteSize q + (NOT (item_size it) + 1)\<rparr>;
               w1 = invalidate_item it w;
               (removedItems, s) = list_cleanup_loop predicate es (w1, q1)
           in (it # removedItems, s)
      else list_cleanup_loop predicate es (w, q))"

definition list_Cleanup ::
  "(queue_item \<Rightarrow> bool) \<Rightarrow> world \<times> listQueue \<Rightarrow> queue_item list \<times> world \<times> listQueue" where
  "list_Cleanup predicate s = list_cleanup_loop predicate (lq_requests (snd s)) s"

definition list_Drain :: "world \<times> listQueue \<Rightarrow> queue_item list \<times> world \<times> listQueue" where
  "list_Drain = (\<lambda>(w, q).
     (map snd (lq_requests q), fold invalidate_item (map snd (lq_requests q)) w,
      q\<lparr>lq_requests := [], lq_byteSize := 0\<rparr>))"

definition list_Capabilities :: "queue_capability list" where
  "list_Capabilities = [CapabilityFIFO]"

definition list_Len :: "listQueue \<Rightarrow> nat" where
  "list_Len q = length (lq_requests q)"

definition list_ByteSize :: "listQueue \<Rightarrow> uint64" where
  "list_ByteSize q = lq_byteSize q"

definition list_PeekHead :: "listQueue \<Rightarrow> queue_item option" where
  "list_PeekHead q = (if lq_requests q = [] then None else Some (snd (List.hd (lq_requests q))))"

definition list_PeekTail :: "listQueue \<Rightarrow> queue_item option" where
  "list_PeekTail q = (if lq_requests q = [] then None else Some (snd (last (lq_requests q))))"

subsection \<open>Invariant\<close>

definition list_elems :: "listQueue \<Rightarrow> queue_item multiset" where
  "list_elems q = mset (map snd (lq_requests q))"

definition element_ok :: "world \<Rightarrow> listQueue \<Rightarrow> nat \<times> queue_item \<Rightarrow> bool" where
  "element_ok w q = (\<lambda>(e, it). e < next_addr w \<and> element_value q e = Some it \<and>
     (\<exists>a. Handle w it = Some (ListItemHandle a e (lq_self q)) \<and>
          \<not> isInvalidated w (ListItemHandle a e (lq_self q))))"

definition list_inv :: "world \<Rightarrow> listQueue \<Rightarrow> bool" where
  "list_inv w q \<longleftrightarrow> \<not> lq_panicked q \<and>
     distinct (map fst (lq_requests q)) \<and> distinct (map item_ptr (map snd (lq_requests q))) \<and>
     (\<forall>x\<in>set (lq_requests q). element_ok w q x) \<and>
     lq_byteSize q = (\<Sum>it\<in>#list_elems q. item_size it)"

lemma list_inv_new: "list_inv w (newListQueue self)"
  by (simp add: list_inv_def newListQueue_def list_elems_def)

lemma list_inv_element:
  assumes "list_inv w q" "(e, it) \<in> set (lq_requests q)"
  shows "e < next_addr w" "element_value q e = Some it"
    "\<exists>a. Handle w it = Some (ListItemHandle a e (lq_self q)) \<and> \<not> isInvalidated w (ListItemHandle a e (lq_self q))"
  using assms by (auto simp: list_inv_def element_ok_def)

lemma element_ok_update [simp]:
  "element_ok w (q\<lparr>lq_requests := r, lq_byteSize := b\<rparr>) = element_ok w q"
  by (simp add: element_ok_def fun_eq_iff)

lemma list_inv_frame:
  assumes w: "world_ok w" and inv: "list_inv w q" and t: "touches X w w'" and X: "X \<inter> ptrs (list_elems q) = {}"
  shows "list_inv w' q"
proof -
  have "element_ok w' q (e, it)" if m: "(e, it) \<in> set (lq_requests q)" for e it
  proof -
    have p: "item_ptr it \<notin> X" using X m by (force simp: list_elems_def)
    obtain a where a: "Handle w it = Some (ListItemHandle a e (lq_self q))"
      "\<not> isInvalidated w (ListItemHandle a e (lq_self q))"
      using list_inv_element(3) [OF inv m] by blast
    have "e < next_addr w'" using list_inv_element(1) [OF inv m] t by (simp add: touches_def)
    then show ?thesis
      using list_inv_element(2) [OF inv m] a touches_Handle [OF t p] touches_isInvalidated [OF w t p a(1)]
      by (auto simp: element_ok_def)
  qed
  then show ?thesis using inv unfolding list_inv_def by auto
qed

lemma list_Add_correct:
  assumes w: "world_ok w" and inv: "list_inv w q" and p: "item_ptr it \<notin> ptrs (list_elems q)"
    and A: "list_Add it (w, q) = (w', q')"
  shows "world_ok w'" "touches {item_ptr it} w w'" "list_inv w' q'"
    "map snd (lq_requests q') = map snd (lq_requests q) @ [it]"
proof -
  let ?hn = "ListItemHandle (next_addr w) (next_addr w) (lq_self q)"
  have w': "w' = SetHandle it ?hn (w\<lparr>next_addr := Suc (next_addr w)\<rparr>)"
    using A by (simp add: list_Add_def Let_def)
  show "world_ok w'" unfolding w' by (rule world_ok_alloc [OF w]) simp
  show t: "touches {item_ptr it} w w'" unfolding w' by (rule touches_alloc)
  have q': "q' = q\<lparr>lq_requests := lq_requests q @ [(next_addr w, it)],
                element_value := (element_value q)(next_addr w := Some it),
                lq_byteSize := lq_byteSize q + item_size it\<rparr>"
    using A by (simp add: list_Add_def Let_def)
  show "map snd (lq_requests q') = map snd (lq_requests q) @ [it]" by (simp add: q')
  have inv': "list_inv w' q" by (rule list_inv_frame [OF w inv t]) (use p in simp)
  have fresh: "e < next_addr w" if "(e, x) \<in> set (lq_requests q)" for e x
    using list_inv_element(1) [OF inv that] .
  have handle: "Handle w' it = Some ?hn" "\<not> isInvalidated w' ?hn" "next_addr w < next_addr w'"
    using w by (simp_all add: w' world_ok_def)
  have "next_addr w \<notin> fst ` set (lq_requests q)" using fresh by force
  moreover have "item_ptr it \<notin> (item_ptr \<circ> snd) ` set (lq_requests q)"
    using p by (simp add: list_elems_def image_image)
  moreover have "element_ok w' q' (e, x)" if "(e, x) \<in> set (lq_requests q')" for e x
  proof -
    from that consider (old) "(e, x) \<in> set (lq_requests q)" | (new) "e = next_addr w" "x = it"
      by (auto simp: q')
    then show ?thesis
    proof cases
      case old
      then show ?thesis
        using list_inv_element [OF inv' old] fresh [OF old] by (simp add: q' element_ok_def)
    next
      case new
      then show ?thesis using handle by (simp add: q' element_ok_def)
    qed
  qed
  moreover have "distinct (map fst (lq_requests q))" "distinct (map (item_ptr \<circ> snd) (lq_requests q))"
    "\<not> lq_panicked q" "lq_byteSize q = (\<Sum>it\<in>#list_elems q. item_size it)"
    using inv by (simp_all add: list_inv_def)
  ultimately show "list_inv w' q'"
    unfolding list_inv_def by (auto simp: q' list_elems_def add.commute)
qed

lemma filter_element:
  assumes "distinct (map fst es)" "(e, it) \<in> set es"
  shows "mset (map snd (filter (\<lambda>(e', _). e' \<noteq> e) es)) = mset (map snd es) - {#it#}"
  using assms
proof (induction es)
  case (Cons x es)
  show ?case
  proof (cases "x = (e, it)")
    case True
    then have "filter (\<lambda>(e', _). e' \<noteq> e) es = es"
      using Cons.prems(1) by (force intro!: filter_True)
    then show ?thesis using True by simp
  next
    case False
    then have m: "(e, it) \<in> set es" using Cons.prems(2) by simp
    then have "e \<in> fst ` set es" by force
    then have "fst x \<noteq> e" using Cons.prems(1) by auto
    moreover have "it \<in># mset (map snd es)" using m by force
    ultimately show ?thesis using Cons m by (auto simp: case_prod_beta)
  qed
qed simp

lemma list_inv_filter:
  assumes inv: "list_inv w q" and b: "b = (\<Sum>it\<in>#mset (map snd (filter Q (lq_requests q))). item_size it)"
  shows "list_inv w (q\<lparr>lq_requests := filter Q (lq_requests q), lq_byteSize := b\<rparr>)"
proof -
  have "distinct (map fst (filter Q (lq_requests q)))"
    "distinct (map (item_ptr \<circ> snd) (filter Q (lq_requests q)))"
    using inv by (simp_all add: list_inv_def distinct_map_filter)
  then show ?thesis using inv b unfolding list_inv_def list_elems_def by simp
qed

lemma list_Remove_correct:
  assumes w: "world_ok w" and inv: "list_inv w q" and it: "it \<in># list_elems q"
  shows "\<exists>q'. list_Remove (Handle w it) (w, q) = (Inr it, invalidate_item it w, q') \<and>
    list_inv (invalidate_item it w) q' \<and> list_elems q' = list_elems q - {#it#}"
proof -
  obtain e where m: "(e, it) \<in> set (lq_requests q)" using it by (auto simp: list_elems_def)
  obtain a where a: "Handle w it = Some (ListItemHandle a e (lq_self q))"
    "\<not> isInvalidated w (ListItemHandle a e (lq_self q))"
    using list_inv_element(3) [OF inv m] by blast
  let ?Q = "\<lambda>(e', _). e' \<noteq> e"
  let ?q = "q\<lparr>lq_requests := filter ?Q (lq_requests q), lq_byteSize := lq_byteSize q - item_size it\<rparr>"
  have d: "distinct (map fst (lq_requests q))" "distinct (map item_ptr (map snd (lq_requests q)))"
    using inv by (simp_all add: list_inv_def)
  have R: "list_Remove (Handle w it) (w, q) = (Inr it, invalidate_item it w, ?q)"
    using a list_inv_element(2) [OF inv m] by (simp add: list_Remove_def invalidate_item_def word_sub_as_add)
  have el: "list_elems ?q = list_elems q - {#it#}"
    using filter_element [OF d(1) m] by (simp add: list_elems_def)
  let ?M = "mset (map snd (filter ?Q (lq_requests q)))"
  have "list_elems q = add_mset it ?M"
    using filter_element [OF d(1) m] it by (simp add: list_elems_def)
  moreover have "lq_byteSize q = (\<Sum>it\<in>#list_elems q. item_size it)" using inv by (simp add: list_inv_def)
  ultimately have "lq_byteSize q - item_size it = (\<Sum>it\<in>#?M. item_size it)" by simp
  then have "list_inv w ?q" by (rule list_inv_filter [OF inv])
  moreover have "item_ptr it \<notin> ptrs (list_elems ?q)"
    using ptrs_diff [OF d(2), of it] it unfolding el by (simp add: list_elems_def)
  ultimately have "list_inv (invalidate_item it w) ?q"
    using list_inv_frame [OF w _ touches_invalidate_item [of it "{item_ptr it}" w]] by simp
  then show ?thesis using R el by blast
qed

text \<open>The \<open>Cleanup\<close> loop unlinks the matching elements one by one.\<close>

lemma list_cleanup_loop_eq:
  assumes "distinct (map fst es)"
  shows "list_cleanup_loop P es (w, q) =
    (filter P (map snd es), fold invalidate_item (filter P (map snd es)) w,
     q\<lparr>lq_requests := filter (\<lambda>(e, _). \<forall>(e', it)\<in>set es. P it \<longrightarrow> e \<noteq> e') (lq_requests q),
       lq_byteSize := lq_byteSize q - (\<Sum>it\<leftarrow>filter P (map snd es). item_size it)\<rparr>)"
  using assms
proof (induction es arbitrary: w q)
  case Nil
  have "filter (\<lambda>(e, _). True) (lq_requests q) = lq_requests q" by (simp add: case_prod_beta)
  then show ?case by simp
next
  case (Cons x es)
  obtain e it where x: "x = (e, it)" by (cases x)
  have d: "distinct (map fst es)" using Cons.prems by simp
  show ?case
  proof (cases "P it")
    case True
    have "filter (\<lambda>(e', _). \<forall>(e'', it)\<in>set es. P it \<longrightarrow> e' \<noteq> e'') (filter (\<lambda>(e', _). e' \<noteq> e) (lq_requests q)) =
      filter (\<lambda>(e', _). \<forall>(e'', it)\<in>set (x # es). P it \<longrightarrow> e' \<noteq> e'') (lq_requests q)"
      using True by (auto simp: x intro!: filter_cong)
    then show ?thesis
      using True by (simp add: x Cons.IH [OF d] Let_def word_sub_as_add)
  next
    case False
    then show ?thesis by (simp add: x Cons.IH [OF d])
  qed
qed

lemma list_Cleanup_eq:
  assumes "list_inv w q"
  shows "list_Cleanup P (w, q) =
    (filter P (map snd (lq_requests q)), fold invalidate_item (filter P (map snd (lq_requests q))) w,
     q\<lparr>lq_requests := filter (\<lambda>(_, it). \<not> P it) (lq_requests q),
       lq_byteSize := lq_byteSize q - (\<Sum>it\<leftarrow>filter P (map snd (lq_requests q)). item_size it)\<rparr>)"
proof -
  have d: "distinct (map fst (lq_requests q))" using assms by (simp add: list_inv_def)
  have "filter (\<lambda>(e, _). \<forall>(e', it)\<in>set (lq_requests q). P it \<longrightarrow> e \<noteq> e') (lq_requests q) =
      filter (\<lambda>(_, it). \<not> P it) (lq_requests q)"
    using eq_key_imp_eq_value [OF d] by (auto intro!: filter_cong)
  then show ?thesis by (simp add: list_Cleanup_def list_cleanup_loop_eq [OF d])
qed

lemma map_snd_filter: "map snd (filter (\<lambda>(_, it). \<not> P it) es) = filter (\<lambda>it. \<not> P it) (map snd es)"
  by (induction es) auto

lemma list_Cleanup_correct:
  assumes w: "world_ok w" and inv: "list_inv w q" and C: "list_Cleanup P (w, q) = (rs, w', q')"
  shows "rs = filter P (map snd (lq_requests q))"
    "map snd (lq_requests q') = filter (\<lambda>it. \<not> P it) (map snd (lq_requests q))"
    "w' = fold invalidate_item rs w" "list_inv w' q'"
proof -
  let ?xs = "map snd (lq_requests q)" and ?Q = "\<lambda>(_, it). \<not> P it"
  show rs: "rs = filter P ?xs" and w': "w' = fold invalidate_item rs w"
    using C by (auto simp: list_Cleanup_eq [OF inv])
  have q': "q' = q\<lparr>lq_requests := filter ?Q (lq_requests q),
      lq_byteSize := lq_byteSize q - (\<Sum>it\<leftarrow>rs. item_size it)\<rparr>"
    using C by (auto simp: list_Cleanup_eq [OF inv])
  have kept: "map snd (filter ?Q (lq_requests q)) = filter (\<lambda>it. \<not> P it) ?xs"
    by (rule map_snd_filter)
  then show "map snd (lq_requests q') = filter (\<lambda>it. \<not> P it) ?xs" by (simp add: q')
  have "lq_byteSize q = (\<Sum>it\<in>#mset ?xs. item_size it)" using inv by (simp add: list_inv_def list_elems_def)
  then have "lq_byteSize q - (\<Sum>it\<leftarrow>rs. item_size it) = (\<Sum>it\<in>#mset (map snd (filter ?Q (lq_requests q))). item_size it)"
    unfolding kept rs by (simp only: sum_filter_split)
  then have "list_inv w q'" unfolding q' by (rule list_inv_filter [OF inv])
  moreover have "item_ptr ` set rs \<inter> ptrs (list_elems q') = {}"
  proof -
    have "inj_on item_ptr (set ?xs)" using inv unfolding list_inv_def distinct_map by blast
    moreover have "set rs \<subseteq> set ?xs" "set_mset (list_elems q') \<subseteq> set ?xs" "set rs \<inter> set_mset (list_elems q') = {}"
      unfolding rs q' list_elems_def by (simp_all add: kept del: set_map filter_map) auto
    ultimately show ?thesis by (metis image_empty inj_on_image_Int)
  qed
  ultimately show "list_inv w' q'"
    unfolding w' using list_inv_frame [OF w] touches_invalidate_items by blast
qed

lemma list_Drain_correct:
  assumes D: "list_Drain (w, q) = (rs, w', q')" and inv: "list_inv w q"
  shows "rs = map snd (lq_requests q)" "list_elems q' = {#}" "w' = fold invalidate_item rs w" "list_inv w' q'"
  using assms by (auto simp: list_Drain_def list_elems_def list_inv_def)

subsection \<open>The list provides the queue contract\<close>

interpretation list_queue:
  safe_queue list_inv list_elems list_Len list_ByteSize list_Add list_Remove list_Cleanup list_Drain
proof unfold_locales
  fix w w' q q' it hn P rs and X :: "nat set" and p :: nat
  show "list_inv w q \<Longrightarrow> list_Len q = size (list_elems q)"
    by (simp add: list_Len_def list_elems_def)
  show "list_inv w q \<Longrightarrow> list_ByteSize q = (\<Sum>it\<in>#list_elems q. item_size it)"
    by (simp add: list_ByteSize_def list_inv_def)
  show "list_inv w q \<Longrightarrow> it \<in># list_elems q \<Longrightarrow> live w it"
    using list_inv_element(3) [of w q _ it] by (fastforce simp: list_elems_def live_def)
  show "list_inv w q \<Longrightarrow> count (image_mset item_ptr (list_elems q)) p \<le> 1"
    by (auto simp: list_elems_def list_inv_def distinct_count_atmost_1 simp flip: mset_map)
  show "world_ok w \<Longrightarrow> list_inv w q \<Longrightarrow> touches X w w' \<Longrightarrow> X \<inter> ptrs (list_elems q) = {} \<Longrightarrow> list_inv w' q"
    by (rule list_inv_frame)
  show "world_ok w \<Longrightarrow> list_inv w q \<Longrightarrow> item_ptr it \<notin> ptrs (list_elems q) \<Longrightarrow> list_Add it (w, q) = (w', q') \<Longrightarrow>
      world_ok w' \<and> touches {item_ptr it} w w' \<and> list_inv w' q' \<and> list_elems q' = add_mset it (list_elems q)"
    using list_Add_correct [of w q it w' q'] unfolding list_elems_def by simp
  show "world_ok w \<Longrightarrow> list_inv w q \<Longrightarrow> it \<in># list_elems q \<Longrightarrow>
      \<exists>q'. list_Remove (Handle w it) (w, q) = (Inr it, invalidate_item it w, q') \<and>
        list_inv (invalidate_item it w) q' \<and> list_elems q' = list_elems q - {#it#}"
    by (rule list_Remove_correct)
  show "hn = None \<or> isInvalidated w (the hn) \<Longrightarrow>
      list_Remove hn (w, q) = (Inl (Sentinel ErrInvalidQueueItemHandle), w, q)"
    by (auto simp: list_Remove_def split: option.split)
  show "world_ok w \<Longrightarrow> list_inv w q \<Longrightarrow> list_Cleanup P (w, q) = (rs, w', q') \<Longrightarrow>
      mset rs = filter_mset P (list_elems q) \<and> list_elems q' = filter_mset (\<lambda>it. \<not> P it) (list_elems q) \<and>
      w' = fold invalidate_item rs w \<and> list_inv w' q'"
    using list_Cleanup_correct [of w q P rs w' q'] unfolding list_elems_def by simp
  show "world_ok w \<Longrightarrow> list_inv w q \<Longrightarrow> list_Drain (w, q) = (rs, w', q') \<Longrightarrow>
      mset rs = list_elems q \<and> list_elems q' = {#} \<and> w' = fold invalidate_item rs w \<and> list_inv w' q'"
    using list_Drain_correct [of w q rs w' q'] by (simp add: list_elems_def)
qed

end
