(* ===== verification/Queue_Plugins.thy ===== *)
theory Queue_Plugins
  imports MaxMinHeap_Queue ListQueue
begin

text \<open>
  The \<open>SafeQueue\<close> interface value and the plugin factory
  (src/pkg/epp/flowcontrol/framework/plugins/queue/factory.go): the two registered
  implementations, the dynamic dispatch on them, registration and construction by name.
\<close>

subsection \<open>Interface values\<close>

datatype safeQueue = HeapQ maxMinHeap | ListQ listQueue

definition MaxMinHeapName :: string where
  "MaxMinHeapName = ''MaxMinHeap''"

definition ListQueueName :: string where
  "ListQueueName = ''ListQueue''"

primrec sq_Name :: "safeQueue \<Rightarrow> string" where
  "sq_Name (HeapQ h) = MaxMinHeapName"
| "sq_Name (ListQ q) = ListQueueName"

primrec sq_Capabilities :: "safeQueue \<Rightarrow> queue_capability list" where
  "sq_Capabilities (HeapQ h) = [CapabilityPriorityConfigurable]"
| "sq_Capabilities (ListQ q) = list_Capabilities"

primrec sq_Len :: "safeQueue \<Rightarrow> nat" where
  "sq_Len (HeapQ h) = heap_Len h"
| "sq_Len (ListQ q) = list_Len q"

primrec sq_ByteSize :: "safeQueue \<Rightarrow> uint64" where
  "sq_ByteSize (HeapQ h) = heap_ByteSize h"
| "sq_ByteSize (ListQ q) = list_ByteSize q"

primrec sq_PeekHead :: "safeQueue \<Rightarrow> queue_item option" where
  "sq_PeekHead (HeapQ h) = heap_PeekHead h"
| "sq_PeekHead (ListQ q) = list_PeekHead q"

primrec sq_PeekTail :: "safeQueue \<Rightarrow> queue_item option" where
  "sq_PeekTail (HeapQ h) = heap_PeekTail h"
| "sq_PeekTail (ListQ q) = list_PeekTail q"

definition sq_Add :: "queue_item \<Rightarrow> world \<times> safeQueue \<Rightarrow> world \<times> safeQueue" where
  "sq_Add it = (\<lambda>(w, q). case q of
       HeapQ h \<Rightarrow> apsnd HeapQ (heap_Add it (w, h))
     | ListQ l \<Rightarrow> apsnd ListQ (list_Add it (w, l)))"

definition sq_Remove ::
  "queue_handle option \<Rightarrow> world \<times> safeQueue \<Rightarrow> (gerror + queue_item) \<times> world \<times> safeQueue" where
  "sq_Remove handle = (\<lambda>(w, q). case q of
       HeapQ h \<Rightarrow> apsnd (apsnd HeapQ) (heap_Remove handle (w, h))
     | ListQ l \<Rightarrow> apsnd (apsnd ListQ) (list_Remove handle (w, l)))"

definition sq_Cleanup ::
  "(queue_item \<Rightarrow> bool) \<Rightarrow> world \<times> safeQueue \<Rightarrow> queue_item list \<times> world \<times> safeQueue" where
  "sq_Cleanup predicate = (\<lambda>(w, q). case q of
       HeapQ h \<Rightarrow> apsnd (apsnd HeapQ) (heap_Cleanup predicate (w, h))
     | ListQ l \<Rightarrow> apsnd (apsnd ListQ) (list_Cleanup predicate (w, l)))"

definition sq_Drain :: "world \<times> safeQueue \<Rightarrow> queue_item list \<times> world \<times> safeQueue" where
  "sq_Drain = (\<lambda>(w, q). case q of
       HeapQ h \<Rightarrow> apsnd (apsnd HeapQ) (heap_Drain (w, h))
     | ListQ l \<Rightarrow> apsnd (apsnd ListQ) (list_Drain (w, l)))"

subsection \<open>The factory\<close>

type_synonym queue_constructor = "ordering_policy \<Rightarrow> world \<Rightarrow> (gerror + safeQueue) \<times> world"

definition MustRegisterQueue ::
  "string \<Rightarrow> queue_constructor \<Rightarrow> (string \<rightharpoonup> queue_constructor) \<Rightarrow> (string \<rightharpoonup> queue_constructor) option" where
  "MustRegisterQueue name constructor registered =
     (if registered name \<noteq> None then None else Some (registered(name \<mapsto> constructor)))"

definition maxMinHeap_constructor :: queue_constructor where
  "maxMinHeap_constructor policy w = (Inr (HeapQ (newMaxMinHeap policy)), w)"

definition listQueue_constructor :: queue_constructor where
  "listQueue_constructor policy w =
     (Inr (ListQ (newListQueue (next_addr w))), w\<lparr>next_addr := Suc (next_addr w)\<rparr>)"

text \<open>The registry after the package's \<open>init\<close> functions have run.\<close>

definition RegisteredQueues :: "string \<rightharpoonup> queue_constructor" where
  "RegisteredQueues = [ListQueueName \<mapsto> listQueue_constructor, MaxMinHeapName \<mapsto> maxMinHeap_constructor]"

definition NewQueueFromName ::
  "(string \<rightharpoonup> queue_constructor) \<Rightarrow> string \<Rightarrow> ordering_policy \<Rightarrow> world \<Rightarrow> (gerror + safeQueue) \<times> world" where
  "NewQueueFromName registered name policy w =
     (case registered name of
        None \<Rightarrow> (Inl (Errorf ''no SafeQueue registered with name'' []), w)
      | Some constructor \<Rightarrow> constructor policy w)"

subsection \<open>The contract of the interface value\<close>

primrec sq_elems :: "safeQueue \<Rightarrow> queue_item multiset" where
  "sq_elems (HeapQ h) = heap_elems h"
| "sq_elems (ListQ q) = list_elems q"

primrec sq_inv :: "world \<Rightarrow> safeQueue \<Rightarrow> bool" where
  "sq_inv w (HeapQ h) = heap_inv w h"
| "sq_inv w (ListQ q) = list_inv w q"

lemma sq_Add_cases:
  "sq_Add it (w, HeapQ h) = (w', q') \<longleftrightarrow> (\<exists>h'. heap_Add it (w, h) = (w', h') \<and> q' = HeapQ h')"
  "sq_Add it (w, ListQ l) = (w', q') \<longleftrightarrow> (\<exists>l'. list_Add it (w, l) = (w', l') \<and> q' = ListQ l')"
  by (cases "heap_Add it (w, h)", auto simp: sq_Add_def) (cases "list_Add it (w, l)", auto simp: sq_Add_def)

lemma sq_Remove_cases:
  "sq_Remove hn (w, HeapQ h) = (r, w', q') \<longleftrightarrow> (\<exists>h'. heap_Remove hn (w, h) = (r, w', h') \<and> q' = HeapQ h')"
  "sq_Remove hn (w, ListQ l) = (r, w', q') \<longleftrightarrow> (\<exists>l'. list_Remove hn (w, l) = (r, w', l') \<and> q' = ListQ l')"
  by (cases "heap_Remove hn (w, h)", auto simp: sq_Remove_def) (cases "list_Remove hn (w, l)", auto simp: sq_Remove_def)

lemma sq_Cleanup_cases:
  "sq_Cleanup P (w, HeapQ h) = (rs, w', q') \<longleftrightarrow> (\<exists>h'. heap_Cleanup P (w, h) = (rs, w', h') \<and> q' = HeapQ h')"
  "sq_Cleanup P (w, ListQ l) = (rs, w', q') \<longleftrightarrow> (\<exists>l'. list_Cleanup P (w, l) = (rs, w', l') \<and> q' = ListQ l')"
  by (cases "heap_Cleanup P (w, h)", auto simp: sq_Cleanup_def) (cases "list_Cleanup P (w, l)", auto simp: sq_Cleanup_def)

lemma sq_Drain_cases:
  "sq_Drain (w, HeapQ h) = (rs, w', q') \<longleftrightarrow> (\<exists>h'. heap_Drain (w, h) = (rs, w', h') \<and> q' = HeapQ h')"
  "sq_Drain (w, ListQ l) = (rs, w', q') \<longleftrightarrow> (\<exists>l'. list_Drain (w, l) = (rs, w', l') \<and> q' = ListQ l')"
  by (cases "heap_Drain (w, h)", auto simp: sq_Drain_def) (cases "list_Drain (w, l)", auto simp: sq_Drain_def)

lemma sq_Add_contract:
  assumes A: "world_ok w" "sq_inv w q" "item_ptr it \<notin> ptrs (sq_elems q)" "sq_Add it (w, q) = (w', q')"
  shows "world_ok w' \<and> touches {item_ptr it} w w' \<and> sq_inv w' q' \<and> sq_elems q' = add_mset it (sq_elems q)"
proof (cases q)
  case (HeapQ h)
  with A(4) obtain h' where "heap_Add it (w, h) = (w', h')" "q' = HeapQ h'" by (auto simp only: sq_Add_cases)
  then show ?thesis using A(1-3) heap_queue.Add [of w h it w' h'] HeapQ by simp
next
  case (ListQ l)
  with A(4) obtain l' where "list_Add it (w, l) = (w', l')" "q' = ListQ l'" by (auto simp only: sq_Add_cases)
  then show ?thesis using A(1-3) list_queue.Add [of w l it w' l'] ListQ by simp
qed

lemma sq_Cleanup_contract:
  assumes A: "world_ok w" "sq_inv w q" "sq_Cleanup P (w, q) = (rs, w', q')"
  shows "mset rs = filter_mset P (sq_elems q) \<and> sq_elems q' = filter_mset (\<lambda>it. \<not> P it) (sq_elems q) \<and>
    w' = fold invalidate_item rs w \<and> sq_inv w' q'"
proof (cases q)
  case (HeapQ h)
  with A(3) obtain h' where "heap_Cleanup P (w, h) = (rs, w', h')" "q' = HeapQ h'" by (auto simp only: sq_Cleanup_cases)
  then show ?thesis using A(1,2) heap_queue.Cleanup [of w h P rs w' h'] HeapQ by auto
next
  case (ListQ l)
  with A(3) obtain l' where "list_Cleanup P (w, l) = (rs, w', l')" "q' = ListQ l'" by (auto simp only: sq_Cleanup_cases)
  then show ?thesis using A(1,2) list_queue.Cleanup [of w l P rs w' l'] ListQ by auto
qed

lemma sq_Drain_contract:
  assumes A: "world_ok w" "sq_inv w q" "sq_Drain (w, q) = (rs, w', q')"
  shows "mset rs = sq_elems q \<and> sq_elems q' = {#} \<and> w' = fold invalidate_item rs w \<and> sq_inv w' q'"
proof (cases q)
  case (HeapQ h)
  with A(3) obtain h' where "heap_Drain (w, h) = (rs, w', h')" "q' = HeapQ h'" by (auto simp only: sq_Drain_cases)
  then show ?thesis using A(1,2) heap_queue.Drain [of w h rs w' h'] HeapQ by auto
next
  case (ListQ l)
  with A(3) obtain l' where "list_Drain (w, l) = (rs, w', l')" "q' = ListQ l'" by (auto simp only: sq_Drain_cases)
  then show ?thesis using A(1,2) list_queue.Drain [of w l rs w' l'] ListQ by auto
qed

lemma sq_Remove_contract:
  assumes A: "world_ok w" "sq_inv w q" "it \<in># sq_elems q"
  shows "\<exists>q'. sq_Remove (Handle w it) (w, q) = (Inr it, invalidate_item it w, q') \<and>
    sq_inv (invalidate_item it w) q' \<and> sq_elems q' = sq_elems q - {#it#}"
proof (cases q)
  case (HeapQ h)
  then obtain h' where "heap_Remove (Handle w it) (w, h) = (Inr it, invalidate_item it w, h')"
    "heap_inv (invalidate_item it w) h'" "heap_elems h' = heap_elems h - {#it#}"
    using A heap_queue.Remove [of w h it] by auto
  then show ?thesis using HeapQ by (intro exI [of _ "HeapQ h'"]) (simp add: sq_Remove_cases)
next
  case (ListQ l)
  then obtain l' where "list_Remove (Handle w it) (w, l) = (Inr it, invalidate_item it w, l')"
    "list_inv (invalidate_item it w) l'" "list_elems l' = list_elems l - {#it#}"
    using A list_queue.Remove [of w l it] by auto
  then show ?thesis using ListQ by (intro exI [of _ "ListQ l'"]) (simp add: sq_Remove_cases)
qed

interpretation sq:
  safe_queue sq_inv sq_elems sq_Len sq_ByteSize sq_Add sq_Remove sq_Cleanup sq_Drain
proof unfold_locales
  fix w w' q q' it hn P rs and X :: "nat set" and p :: nat
  show "sq_inv w q \<Longrightarrow> sq_Len q = size (sq_elems q)"
    by (cases q) (simp_all add: heap_queue.Len list_queue.Len)
  show "sq_inv w q \<Longrightarrow> sq_ByteSize q = (\<Sum>it\<in>#sq_elems q. item_size it)"
    by (cases q) (simp_all add: heap_queue.ByteSize list_queue.ByteSize)
  show "sq_inv w q \<Longrightarrow> it \<in># sq_elems q \<Longrightarrow> live w it"
    by (cases q) (simp_all add: heap_queue.inv_live list_queue.inv_live)
  show "sq_inv w q \<Longrightarrow> count (image_mset item_ptr (sq_elems q)) p \<le> 1"
    using heap_queue.inv_distinct list_queue.inv_distinct by (cases q) simp_all
  show "world_ok w \<Longrightarrow> sq_inv w q \<Longrightarrow> touches X w w' \<Longrightarrow> X \<inter> ptrs (sq_elems q) = {} \<Longrightarrow> sq_inv w' q"
    using heap_queue.inv_frame list_queue.inv_frame by (cases q) simp_all
  show "world_ok w \<Longrightarrow> sq_inv w q \<Longrightarrow> item_ptr it \<notin> ptrs (sq_elems q) \<Longrightarrow> sq_Add it (w, q) = (w', q') \<Longrightarrow>
      world_ok w' \<and> touches {item_ptr it} w w' \<and> sq_inv w' q' \<and> sq_elems q' = add_mset it (sq_elems q)"
    by (rule sq_Add_contract)
  show "world_ok w \<Longrightarrow> sq_inv w q \<Longrightarrow> it \<in># sq_elems q \<Longrightarrow>
      \<exists>q'. sq_Remove (Handle w it) (w, q) = (Inr it, invalidate_item it w, q') \<and>
        sq_inv (invalidate_item it w) q' \<and> sq_elems q' = sq_elems q - {#it#}"
    by (rule sq_Remove_contract)
  show "hn = None \<or> isInvalidated w (the hn) \<Longrightarrow>
      sq_Remove hn (w, q) = (Inl (Sentinel ErrInvalidQueueItemHandle), w, q)"
    by (cases q) (simp_all add: sq_Remove_def heap_queue.Remove_invalid list_queue.Remove_invalid)
  show "world_ok w \<Longrightarrow> sq_inv w q \<Longrightarrow> sq_Cleanup P (w, q) = (rs, w', q') \<Longrightarrow>
      mset rs = filter_mset P (sq_elems q) \<and> sq_elems q' = filter_mset (\<lambda>it. \<not> P it) (sq_elems q) \<and>
      w' = fold invalidate_item rs w \<and> sq_inv w' q'"
    by (rule sq_Cleanup_contract)
  show "world_ok w \<Longrightarrow> sq_inv w q \<Longrightarrow> sq_Drain (w, q) = (rs, w', q') \<Longrightarrow>
      mset rs = sq_elems q \<and> sq_elems q' = {#} \<and> w' = fold invalidate_item rs w \<and> sq_inv w' q'"
    by (rule sq_Drain_contract)
qed

end
