(* ===== verification/Registry_Config.thy ===== *)
theory Registry_Config
  imports Queue_Plugins "HOL-Library.AList"
begin

text \<open>
  The configuration of the flow registry
  (src/pkg/epp/flowcontrol/registry/config.go): band and registry configurations, their
  functional options, defaults, validation, the translation of the API configuration and
  the partition of the capacity among the shards. A Go map is an association list, in one
  of the orders in which \<open>range\<close> may visit it; \<open>Inl\<close> is a returned error and \<open>None\<close> a
  panic.
\<close>

subsection \<open>Plugins and defaults\<close>

datatype fairness_policy = GlobalStrict | RoundRobin

datatype plugin =
    OrderingPlugin ordering_policy
  | FairnessPlugin fairness_policy
  | OtherPlugin string

type_synonym plugin_handle = "string \<Rightarrow> plugin option"

definition DefaultOrderingPolicyRef :: string where
  "DefaultOrderingPolicyRef = ''fcfs-ordering-policy''"

definition DefaultFairnessPolicyRef :: string where
  "DefaultFairnessPolicyRef = ''global-strict-fairness-policy''"

definition defaultPriorityBandMaxBytes :: uint64 where
  "defaultPriorityBandMaxBytes = 1000000000"

definition defaultQueue :: string where
  "defaultQueue = ListQueueName"

definition defaultInitialShardCount :: int where
  "defaultInitialShardCount = 1"

definition defaultFlowGCTimeout :: duration where
  "defaultFlowGCTimeout = 5 * (60 * 10 ^ 9)"

definition defaultPriorityBandGCTimeout :: duration where
  "defaultPriorityBandGCTimeout = 2 * defaultFlowGCTimeout"

subsection \<open>Data\<close>

record priority_band_config =
  band_Priority :: int
  band_OrderingPolicy :: "ordering_policy option"
  band_FairnessPolicy :: "fairness_policy option"
  band_Queue :: string
  band_MaxBytes :: uint64
  band_MaxRequests :: uint64

record config =
  cfg_MaxBytes :: uint64
  cfg_MaxRequests :: uint64
  cfg_PriorityBands :: "(int \<times> priority_band_config) list"
  cfg_DefaultPriorityBand :: "priority_band_config option"
  cfg_InitialShardCount :: int
  cfg_FlowGCTimeout :: duration
  cfg_PriorityBandGCTimeout :: duration

type_synonym capability_checker = "ordering_policy \<Rightarrow> string \<Rightarrow> gerror option"

record config_builder =
  builder_config :: config
  builder_checker :: capability_checker

type_synonym config_option = "config_builder \<Rightarrow> gerror + config_builder"
type_synonym band_option = "priority_band_config \<Rightarrow> gerror + priority_band_config"

abbreviation errors_New :: "string \<Rightarrow> gerror" where
  "errors_New s \<equiv> Errorf s []"

subsection \<open>Capability checking\<close>

text \<open>The nil comparator handed to a queue whose capabilities are only inspected.\<close>

definition nil_policy :: ordering_policy where
  "nil_policy = \<lparr>policy_type = [], Less = (\<lambda>_ _. False), RequiredQueueCapabilities = []\<rparr>"

definition CheckCompatibility :: capability_checker where
  "CheckCompatibility p q =
     (case fst (NewQueueFromName RegisteredQueues q nil_policy init_world) of
        Inl err \<Rightarrow> Some (Errorf ''failed to instantiate queue type'' [err])
      | Inr tempQueue \<Rightarrow>
          (case filter (\<lambda>req. req \<notin> set (sq_Capabilities tempQueue)) (RequiredQueueCapabilities p) of
             [] \<Rightarrow> None
           | _ \<Rightarrow> Some (Errorf ''policy is not compatible with queue: missing capability''
                         [Sentinel ErrPolicyQueueIncompatible])))"

subsection \<open>Options of the registry\<close>

definition WithMaxBytes :: "uint64 \<Rightarrow> config_option" where
  "WithMaxBytes maxBytes b = Inr (b\<lparr>builder_config := (builder_config b)\<lparr>cfg_MaxBytes := maxBytes\<rparr>\<rparr>)"

definition WithMaxRequests :: "uint64 \<Rightarrow> config_option" where
  "WithMaxRequests maxRequests b =
     Inr (b\<lparr>builder_config := (builder_config b)\<lparr>cfg_MaxRequests := maxRequests\<rparr>\<rparr>)"

definition WithInitialShardCount :: "int \<Rightarrow> config_option" where
  "WithInitialShardCount n b =
     (if n \<le> 0 then Inl (errors_New ''initialShardCount must be greater than 0'')
      else Inr (b\<lparr>builder_config := (builder_config b)\<lparr>cfg_InitialShardCount := n\<rparr>\<rparr>))"

definition WithFlowGCTimeout :: "duration \<Rightarrow> config_option" where
  "WithFlowGCTimeout d b =
     (if d \<le> 0 then Inl (errors_New ''flowGCTimeout must be positive'')
      else Inr (b\<lparr>builder_config := (builder_config b)\<lparr>cfg_FlowGCTimeout := d\<rparr>\<rparr>))"

definition WithPriorityBandGCTimeout :: "duration \<Rightarrow> config_option" where
  "WithPriorityBandGCTimeout d b =
     (if d \<le> 0 then Inl (errors_New ''priorityBandGCTimeout must be positive'')
      else if cfg_FlowGCTimeout (builder_config b) > 0 \<and> d < cfg_FlowGCTimeout (builder_config b)
      then Inl (errors_New ''priorityBandGCTimeout must be >= flowGCTimeout'')
      else Inr (b\<lparr>builder_config := (builder_config b)\<lparr>cfg_PriorityBandGCTimeout := d\<rparr>\<rparr>))"

definition WithPriorityBand :: "priority_band_config option \<Rightarrow> config_option" where
  "WithPriorityBand band b =
     (case band of
        None \<Rightarrow> Inl (errors_New ''cannot add nil PriorityBandConfig'')
      | Some pb \<Rightarrow>
          if map_of (cfg_PriorityBands (builder_config b)) (band_Priority pb) \<noteq> None
          then Inl (errors_New ''duplicate priority level'')
          else Inr (b\<lparr>builder_config := (builder_config b)
                 \<lparr>cfg_PriorityBands := AList.update (band_Priority pb) pb (cfg_PriorityBands (builder_config b))\<rparr>\<rparr>))"

definition WithDefaultPriorityBand :: "priority_band_config option \<Rightarrow> config_option" where
  "WithDefaultPriorityBand band b =
     Inr (b\<lparr>builder_config := (builder_config b)\<lparr>cfg_DefaultPriorityBand := band\<rparr>\<rparr>)"

definition withCapabilityChecker :: "capability_checker option \<Rightarrow> config_option" where
  "withCapabilityChecker checker b =
     (case checker of
        None \<Rightarrow> Inl (errors_New ''cannot set nil CapabilityChecker'')
      | Some c \<Rightarrow> Inr (b\<lparr>builder_checker := c\<rparr>))"

subsection \<open>Options of a band\<close>

definition orderingPolicy :: "string \<Rightarrow> plugin_handle \<Rightarrow> gerror + ordering_policy" where
  "orderingPolicy ref handle =
     (case handle ref of
        None \<Rightarrow> Inl (errors_New ''no ordering policy registered for name'')
      | Some (OrderingPlugin p) \<Rightarrow> Inr p
      | Some _ \<Rightarrow> Inl (errors_New ''plugin is not a flowcontrol.OrderingPolicy''))"

definition WithOrderingPolicy :: "string \<Rightarrow> plugin_handle \<Rightarrow> band_option" where
  "WithOrderingPolicy ref handle p =
     (case orderingPolicy ref handle of
        Inl err \<Rightarrow> Inl err
      | Inr policy \<Rightarrow> Inr (p\<lparr>band_OrderingPolicy := Some policy\<rparr>))"

definition fairnessPolicy :: "string \<Rightarrow> plugin_handle \<Rightarrow> gerror + fairness_policy" where
  "fairnessPolicy ref handle =
     (case handle ref of
        None \<Rightarrow> Inl (errors_New ''no fairness policy registered for name'')
      | Some (FairnessPlugin p) \<Rightarrow> Inr p
      | Some _ \<Rightarrow> Inl (errors_New ''plugin is not a flowcontrol.FairnessPolicy''))"

definition WithFairnessPolicy :: "string \<Rightarrow> plugin_handle \<Rightarrow> band_option" where
  "WithFairnessPolicy ref handle p =
     (case fairnessPolicy ref handle of
        Inl err \<Rightarrow> Inl err
      | Inr policy \<Rightarrow> Inr (p\<lparr>band_FairnessPolicy := Some policy\<rparr>))"

definition WithQueue :: "string \<Rightarrow> band_option" where
  "WithQueue name p =
     (if name = [] then Inl (errors_New ''Queue cannot be empty'') else Inr (p\<lparr>band_Queue := name\<rparr>))"

definition WithBandMaxBytes :: "uint64 \<Rightarrow> band_option" where
  "WithBandMaxBytes maxBytes p = Inr (p\<lparr>band_MaxBytes := maxBytes\<rparr>)"

definition WithBandMaxRequests :: "uint64 \<Rightarrow> band_option" where
  "WithBandMaxRequests maxRequests p = Inr (p\<lparr>band_MaxRequests := maxRequests\<rparr>)"

subsection \<open>Defaults and validation\<close>

definition applyDefaults :: "plugin_handle \<Rightarrow> band_option" where
  "applyDefaults handle p =
     (case (case band_OrderingPolicy p of
              None \<Rightarrow> orderingPolicy DefaultOrderingPolicyRef handle
            | Some policy \<Rightarrow> Inr policy) of
        Inl err \<Rightarrow> Inl err
      | Inr policy \<Rightarrow>
          let q = (if band_Queue p = []
                   then if CapabilityPriorityConfigurable \<in> set (RequiredQueueCapabilities policy)
                        then MaxMinHeapName else defaultQueue
                   else band_Queue p);
              maxBytes = (if band_MaxBytes p = 0 then defaultPriorityBandMaxBytes else band_MaxBytes p);
              p1 = p\<lparr>band_OrderingPolicy := Some policy, band_Queue := q, band_MaxBytes := maxBytes\<rparr>
          in (case band_FairnessPolicy p of
                Some _ \<Rightarrow> Inr p1
              | None \<Rightarrow>
                  (case fairnessPolicy DefaultFairnessPolicyRef handle of
                     Inl err \<Rightarrow> Inl err
                   | Inr fp \<Rightarrow> Inr (p1\<lparr>band_FairnessPolicy := Some fp\<rparr>))))"

definition band_validate :: "capability_checker \<Rightarrow> priority_band_config \<Rightarrow> gerror option" where
  "band_validate checker p =
     (case band_OrderingPolicy p of
        None \<Rightarrow> Some (errors_New ''OrderingPolicy instance is missing for priority band'')
      | Some policy \<Rightarrow>
          if band_FairnessPolicy p = None
          then Some (errors_New ''FairnessPolicy instance is missing for priority band'')
          else if band_Queue p = [] then Some (errors_New ''Queue required for priority band'')
          else (case checker policy (band_Queue p) of
                  None \<Rightarrow> None
                | Some err \<Rightarrow> Some (Errorf ''priority band configuration error'' [err])))"

fun validate_bands :: "capability_checker \<Rightarrow> (int \<times> priority_band_config) list \<Rightarrow> gerror option" where
  "validate_bands checker [] = None"
| "validate_bands checker ((_, band) # bands) =
     (case band_validate checker band of None \<Rightarrow> validate_bands checker bands | Some err \<Rightarrow> Some err)"

definition config_validate :: "capability_checker \<Rightarrow> config \<Rightarrow> gerror option option" where
  "config_validate checker c =
     (if cfg_InitialShardCount c \<le> 0 then Some (Some (errors_New ''initialShardCount must be greater than 0''))
      else if cfg_FlowGCTimeout c \<le> 0 then Some (Some (errors_New ''flowGCTimeout must be positive''))
      else if cfg_PriorityBandGCTimeout c \<le> 0
      then Some (Some (errors_New ''priorityBandGCTimeout must be positive''))
      else if cfg_PriorityBandGCTimeout c < cfg_FlowGCTimeout c
      then Some (Some (errors_New ''priorityBandGCTimeout must be >= flowGCTimeout''))
      else (case cfg_DefaultPriorityBand c of
              None \<Rightarrow> None
            | Some template \<Rightarrow>
                (case band_validate checker (template\<lparr>band_Priority := 0\<rparr>) of
                   Some err \<Rightarrow> Some (Some (Errorf ''invalid DefaultPriorityBand configuration'' [err]))
                 | None \<Rightarrow> Some (validate_bands checker (cfg_PriorityBands c)))))"

subsection \<open>Constructors\<close>

fun apply_options :: "('a \<Rightarrow> gerror + 'a) list \<Rightarrow> 'a \<Rightarrow> gerror + 'a" where
  "apply_options [] x = Inr x"
| "apply_options (opt # opts) x =
     (case opt x of Inl err \<Rightarrow> Inl err | Inr y \<Rightarrow> apply_options opts y)"

definition NewPriorityBandConfig ::
  "plugin_handle \<Rightarrow> int \<Rightarrow> band_option list \<Rightarrow> gerror + priority_band_config" where
  "NewPriorityBandConfig handle priority opts =
     (case apply_options opts
             \<lparr>band_Priority = priority, band_OrderingPolicy = None, band_FairnessPolicy = None,
              band_Queue = [], band_MaxBytes = 0, band_MaxRequests = 0\<rparr> of
        Inl err \<Rightarrow> Inl err
      | Inr pb \<Rightarrow> applyDefaults handle pb)"

fun apply_defaults_bands ::
  "plugin_handle \<Rightarrow> (int \<times> priority_band_config) list \<Rightarrow> gerror + (int \<times> priority_band_config) list" where
  "apply_defaults_bands handle [] = Inr []"
| "apply_defaults_bands handle ((k, band) # bands) =
     (case applyDefaults handle band of
        Inl err \<Rightarrow> Inl (Errorf ''failed to apply defaults to priority band'' [err])
      | Inr band' \<Rightarrow>
          (case apply_defaults_bands handle bands of
             Inl err \<Rightarrow> Inl err
           | Inr bands' \<Rightarrow> Inr ((k, band') # bands')))"

definition default_builder :: config_builder where
  "default_builder = \<lparr>builder_config =
       \<lparr>cfg_MaxBytes = 0, cfg_MaxRequests = 0, cfg_PriorityBands = [], cfg_DefaultPriorityBand = None,
        cfg_InitialShardCount = defaultInitialShardCount, cfg_FlowGCTimeout = defaultFlowGCTimeout,
        cfg_PriorityBandGCTimeout = defaultPriorityBandGCTimeout\<rparr>,
     builder_checker = CheckCompatibility\<rparr>"

definition NewConfig :: "plugin_handle \<Rightarrow> config_option list \<Rightarrow> (gerror + config) option" where
  "NewConfig handle opts =
     (case apply_options opts default_builder of
        Inl err \<Rightarrow> Some (Inl err)
      | Inr b \<Rightarrow>
          (case (case cfg_DefaultPriorityBand (builder_config b) of
                   None \<Rightarrow> (case NewPriorityBandConfig handle 0 [] of
                       Inl err \<Rightarrow> Inl (Errorf ''failed to create default priority band'' [err])
                     | Inr t \<Rightarrow> Inr t)
                 | Some t \<Rightarrow> (case applyDefaults handle t of
                       Inl err \<Rightarrow> Inl (Errorf ''failed to apply defaults to DefaultPriorityBand'' [err])
                     | Inr t' \<Rightarrow> Inr t')) of
             Inl err \<Rightarrow> Some (Inl err)
           | Inr template \<Rightarrow>
               (case apply_defaults_bands handle (cfg_PriorityBands (builder_config b)) of
                  Inl err \<Rightarrow> Some (Inl err)
                | Inr bands \<Rightarrow>
                    let c = (builder_config b)\<lparr>cfg_DefaultPriorityBand := Some template,
                                               cfg_PriorityBands := bands\<rparr>
                    in (case config_validate (builder_checker b) c of
                          None \<Rightarrow> None
                        | Some (Some err) \<Rightarrow> Some (Inl (Errorf ''invalid registry config'' [err]))
                        | Some None \<Rightarrow> Some (Inr c)))))"

subsection \<open>The API configuration\<close>

text \<open>
  A \<open>resource.Quantity\<close> is given by what its \<open>Value\<close> method returns, an \<open>int64\<close>.
\<close>

record api_band =
  api_Priority :: int
  api_band_MaxBytes :: "int64 option"
  api_band_MaxRequests :: "int64 option"
  api_FairnessPolicyRef :: string
  api_OrderingPolicyRef :: string

record api_flow_control =
  api_MaxBytes :: "int64 option"
  api_MaxRequests :: "int64 option"
  api_DefaultPriorityBand :: "api_band option"
  api_PriorityBands :: "api_band list"

definition resolveQuantity :: "int64 option \<Rightarrow> string \<Rightarrow> gerror + uint64" where
  "resolveQuantity q fieldName =
     (case q of
        None \<Rightarrow> Inr 0
      | Some v \<Rightarrow> if sint v < 0 then Inl (errors_New (fieldName @ '' must be non-negative'')) else Inr v)"

definition band_opts :: "plugin_handle \<Rightarrow> api_band \<Rightarrow> uint64 \<Rightarrow> uint64 \<Rightarrow> band_option list" where
  "band_opts handle band maxBytes maxRequests =
     (if maxBytes > 0 then [WithBandMaxBytes maxBytes] else []) @
     (if maxRequests > 0 then [WithBandMaxRequests maxRequests] else []) @
     (if api_OrderingPolicyRef band \<noteq> [] then [WithOrderingPolicy (api_OrderingPolicyRef band) handle] else []) @
     (if api_FairnessPolicyRef band \<noteq> [] then [WithFairnessPolicy (api_FairnessPolicyRef band) handle] else [])"

definition buildDefaultPriorityBandTemplate ::
  "plugin_handle \<Rightarrow> api_band \<Rightarrow> gerror + priority_band_config" where
  "buildDefaultPriorityBandTemplate handle apiBand =
     (case resolveQuantity (api_band_MaxBytes apiBand) ''DefaultPriorityBand MaxBytes'' of
        Inl err \<Rightarrow> Inl err
      | Inr maxBytes \<Rightarrow>
          (case resolveQuantity (api_band_MaxRequests apiBand) ''DefaultPriorityBand MaxRequests'' of
             Inl err \<Rightarrow> Inl err
           | Inr maxRequests \<Rightarrow>
               (case NewPriorityBandConfig handle 0 (band_opts handle apiBand maxBytes maxRequests) of
                  Inl err \<Rightarrow> Inl (Errorf ''failed to create default priority band template'' [err])
                | Inr t \<Rightarrow> Inr t)))"

definition buildPriorityBand :: "plugin_handle \<Rightarrow> api_band \<Rightarrow> gerror + priority_band_config" where
  "buildPriorityBand handle band =
     (case resolveQuantity (api_band_MaxBytes band) ''priority band MaxBytes'' of
        Inl err \<Rightarrow> Inl err
      | Inr maxBytes \<Rightarrow>
          (case resolveQuantity (api_band_MaxRequests band) ''priority band MaxRequests'' of
             Inl err \<Rightarrow> Inl err
           | Inr maxRequests \<Rightarrow>
               (case NewPriorityBandConfig handle (api_Priority band)
                       (band_opts handle band maxBytes maxRequests) of
                  Inl err \<Rightarrow> Inl (Errorf ''failed to create priority band config'' [err])
                | Inr pb \<Rightarrow> Inr pb)))"

fun build_bands :: "plugin_handle \<Rightarrow> api_band list \<Rightarrow> gerror + config_option list" where
  "build_bands handle [] = Inr []"
| "build_bands handle (band # bands) =
     (case buildPriorityBand handle band of
        Inl err \<Rightarrow> Inl err
      | Inr pb \<Rightarrow>
          (case build_bands handle bands of
             Inl err \<Rightarrow> Inl err
           | Inr opts \<Rightarrow> Inr (WithPriorityBand (Some pb) # opts)))"

definition NewConfigFromAPI ::
  "api_flow_control option \<Rightarrow> plugin_handle \<Rightarrow> (gerror + config) option" where
  "NewConfigFromAPI apiConfig handle =
     (case apiConfig of
        None \<Rightarrow> NewConfig handle []
      | Some api \<Rightarrow>
          (case resolveQuantity (api_MaxBytes api) ''global MaxBytes'' of
             Inl err \<Rightarrow> Some (Inl err)
           | Inr maxBytes \<Rightarrow>
               (case resolveQuantity (api_MaxRequests api) ''global MaxRequests'' of
                  Inl err \<Rightarrow> Some (Inl err)
                | Inr maxRequests \<Rightarrow>
                    (case (case api_DefaultPriorityBand api of
                             None \<Rightarrow> Inr []
                           | Some t \<Rightarrow> (case buildDefaultPriorityBandTemplate handle t of
                               Inl err \<Rightarrow> Inl err
                             | Inr pb \<Rightarrow> Inr [WithDefaultPriorityBand (Some pb)])) of
                       Inl err \<Rightarrow> Some (Inl err)
                     | Inr template_opts \<Rightarrow>
                         (case build_bands handle (api_PriorityBands api) of
                            Inl err \<Rightarrow> Some (Inl err)
                          | Inr opts \<Rightarrow>
                              NewConfig handle
                                ((if maxBytes > 0 then [WithMaxBytes maxBytes] else []) @
                                 (if maxRequests > 0 then [WithMaxRequests maxRequests] else []) @
                                 template_opts @ opts))))))"

subsection \<open>Partitioning\<close>

record shard_config =
  sc_MaxBytes :: uint64
  sc_MaxRequests :: uint64
  sc_PriorityBands :: "(int \<times> priority_band_config) list"

text \<open>\<open>None\<close> is the run-time panic of an integer division by zero.\<close>

definition partitionUint64 :: "uint64 \<Rightarrow> int \<Rightarrow> int \<Rightarrow> uint64 option" where
  "partitionUint64 tot partitionIndex totalPartitions =
     (if tot = 0 then Some 0
      else let t = word_of_int totalPartitions
           in if t = 0 then None
              else let base = tot div t; remainder = tot mod t
                   in if word_of_int partitionIndex < remainder then Some (base + 1) else Some base)"

definition partition_band ::
  "int \<Rightarrow> int \<Rightarrow> priority_band_config \<Rightarrow> (int \<times> priority_band_config) option" where
  "partition_band shardIndex totalShards template =
     (case partitionUint64 (band_MaxBytes template) shardIndex totalShards of
        None \<Rightarrow> None
      | Some maxBytes \<Rightarrow>
          (case partitionUint64 (band_MaxRequests template) shardIndex totalShards of
             None \<Rightarrow> None
           | Some maxRequests \<Rightarrow>
               Some (band_Priority template,
                 template\<lparr>band_MaxBytes := maxBytes, band_MaxRequests := maxRequests\<rparr>)))"

definition partition_config :: "config \<Rightarrow> int \<Rightarrow> int \<Rightarrow> shard_config option" where
  "partition_config c shardIndex totalShards =
     (case partitionUint64 (cfg_MaxBytes c) shardIndex totalShards of
        None \<Rightarrow> None
      | Some maxBytes \<Rightarrow>
          (case partitionUint64 (cfg_MaxRequests c) shardIndex totalShards of
             None \<Rightarrow> None
           | Some maxRequests \<Rightarrow>
               (case those (map (partition_band shardIndex totalShards \<circ> snd) (cfg_PriorityBands c)) of
                  None \<Rightarrow> None
                | Some bands \<Rightarrow>
                    Some \<lparr>sc_MaxBytes = maxBytes, sc_MaxRequests = maxRequests,
                          sc_PriorityBands = fold (\<lambda>(k, b). AList.update k b) bands []\<rparr>)))"

definition Clone :: "config option \<Rightarrow> config option" where
  "Clone c = (case c of
       None \<Rightarrow> None
     | Some c \<Rightarrow> Some (c\<lparr>cfg_DefaultPriorityBand := map_option id (cfg_DefaultPriorityBand c),
                        cfg_PriorityBands := map (\<lambda>(prio, band). (prio, band)) (cfg_PriorityBands c)\<rparr>))"

subsection \<open>Facts\<close>

lemma unat_word_of_int: "0 \<le> i \<Longrightarrow> i < 2 ^ 64 \<Longrightarrow> unat (word_of_int i :: uint64) = nat i"
  by (simp add: unsigned_of_int take_bit_int_eq_self)

lemma partitionUint64_share:
  assumes "0 \<le> i" "i < n" "n < 2 ^ 63"
  shows "\<exists>v. partitionUint64 tot i n = Some v \<and>
    unat v = unat tot div nat n + (if nat i < unat tot mod nat n then 1 else 0)"
proof -
  let ?t = "word_of_int n :: uint64"
  have t: "unat ?t = nat n" using assms by (intro unat_word_of_int) auto
  have i: "unat (word_of_int i :: uint64) = nat i" using assms by (intro unat_word_of_int) auto
  have "?t \<noteq> 0"
  proof
    assume "?t = 0"
    then have "nat n = 0" using t by (simp only: unat_0)
    then show False using assms by simp
  qed
  have lt: "(word_of_int i :: uint64) < tot mod ?t \<longleftrightarrow> nat i < unat tot mod nat n"
    by (simp add: word_less_nat_alt unat_mod t i)
  have bound: "unat tot div nat n + 1 < 2 ^ 64" if "nat i < unat tot mod nat n"
  proof -
    have "unat tot div nat n * 1 \<le> unat tot div nat n * nat n"
      by (rule mult_le_mono2) (use assms in simp)
    moreover have "unat tot div nat n * nat n + unat tot mod nat n = unat tot" by (rule div_mult_mod_eq)
    moreover have "unat tot < 2 ^ 64" using unsigned_less [of tot] by simp
    ultimately show ?thesis using that by linarith
  qed
  have "unat (tot div ?t + 1) = unat tot div nat n + 1" if "nat i < unat tot mod nat n"
    using bound [OF that] by (simp add: unat_word_ariths unat_div t)
  then show ?thesis
    using \<open>?t \<noteq> 0\<close> lt by (auto simp: partitionUint64_def Let_def unat_div t)
qed

lemma sum_shares: "0 < n \<Longrightarrow> (\<Sum>i<n. T div n + (if i < T mod n then 1 else 0)) = (T::nat)"
proof -
  assume n: "0 < n"
  have "(\<Sum>i<n. (if i < T mod n then 1 else 0)) = card {i. i < n \<and> i < T mod n}"
    by (simp add: sum.If_cases Int_def lessThan_def)
  also have "{i. i < n \<and> i < T mod n} = {..<T mod n}" using n mod_less_divisor [of n T] by (auto intro: order_less_trans)
  finally show ?thesis by (simp add: sum.distrib)
qed

text \<open>What validation guarantees of a band.\<close>

definition band_ok :: "capability_checker \<Rightarrow> priority_band_config \<Rightarrow> bool" where
  "band_ok checker p \<longleftrightarrow> (\<exists>policy. band_OrderingPolicy p = Some policy \<and> checker policy (band_Queue p) = None) \<and>
     band_FairnessPolicy p \<noteq> None \<and> band_Queue p \<noteq> []"

definition config_ok :: "capability_checker \<Rightarrow> config \<Rightarrow> bool" where
  "config_ok checker c \<longleftrightarrow> 0 < cfg_InitialShardCount c \<and> 0 < cfg_FlowGCTimeout c \<and>
     cfg_FlowGCTimeout c \<le> cfg_PriorityBandGCTimeout c \<and>
     (\<exists>t. cfg_DefaultPriorityBand c = Some t \<and> band_ok checker t) \<and>
     (\<forall>(k, b)\<in>set (cfg_PriorityBands c). k = band_Priority b \<and> band_ok checker b \<and> band_MaxBytes b \<noteq> 0) \<and>
     distinct (map fst (cfg_PriorityBands c))"

lemma band_validate_ok: "band_validate checker p = None \<longleftrightarrow> band_ok checker p"
  by (auto simp: band_validate_def band_ok_def split: option.splits)

lemma validate_bands_ok: "validate_bands checker bs = None \<longleftrightarrow> (\<forall>(k, b)\<in>set bs. band_ok checker b)"
  by (induction bs) (auto simp: band_validate_ok [symmetric] split: option.splits)

lemma applyDefaults_fields:
  assumes "applyDefaults handle p = Inr p'"
  shows "band_Priority p' = band_Priority p" "band_MaxBytes p' \<noteq> 0" "band_Queue p' \<noteq> []"
    "band_MaxRequests p' = band_MaxRequests p" "band_MaxBytes p \<noteq> 0 \<Longrightarrow> band_MaxBytes p' = band_MaxBytes p"
  using assms
  by (auto simp: applyDefaults_def Let_def defaultPriorityBandMaxBytes_def MaxMinHeapName_def
      defaultQueue_def ListQueueName_def split: sum.splits option.splits if_splits)

lemma apply_defaults_bands_keys:
  assumes "apply_defaults_bands handle bs = Inr bs'" "\<forall>(k, b)\<in>set bs. k = band_Priority b"
  shows "map fst bs' = map fst bs \<and> (\<forall>(k, b)\<in>set bs'. k = band_Priority b \<and> band_MaxBytes b \<noteq> 0)"
  using assms
proof (induction bs arbitrary: bs')
  case (Cons x bs)
  obtain k b where x: "x = (k, b)" by (cases x)
  obtain b' bs1 where b: "applyDefaults handle b = Inr b'" "apply_defaults_bands handle bs = Inr bs1"
    "bs' = (k, b') # bs1"
    using Cons.prems(1) by (auto simp: x split: sum.splits)
  have "\<forall>(k, b)\<in>set bs. k = band_Priority b" "k = band_Priority b" using Cons.prems(2) by (auto simp: x)
  then show ?case using Cons.IH [OF b(2)] applyDefaults_fields [OF b(1)] b(3) by (auto simp: x)
qed simp

text \<open>
  The options callers can use (all but the test-only \<open>withCapabilityChecker\<close>) keep the map
  of bands keyed by priority and the run-time checker in place.
\<close>

definition production_option :: "config_option \<Rightarrow> bool" where
  "production_option opt \<longleftrightarrow> (\<exists>m. opt = WithMaxBytes m) \<or> (\<exists>m. opt = WithMaxRequests m) \<or>
     (\<exists>n. opt = WithInitialShardCount n) \<or> (\<exists>d. opt = WithFlowGCTimeout d) \<or>
     (\<exists>d. opt = WithPriorityBandGCTimeout d) \<or> (\<exists>band. opt = WithPriorityBand band) \<or>
     (\<exists>band. opt = WithDefaultPriorityBand band)"

definition keyed :: "config_builder \<Rightarrow> bool" where
  "keyed b \<longleftrightarrow> (\<forall>(k, p)\<in>set (cfg_PriorityBands (builder_config b)). k = band_Priority p) \<and>
     distinct (map fst (cfg_PriorityBands (builder_config b))) \<and> builder_checker b = CheckCompatibility"

lemma update_new: "map_of xs k = None \<Longrightarrow> AList.update k v xs = xs @ [(k, v)]"
  by (induction xs) auto

lemma production_option_keyed: "production_option opt \<Longrightarrow> opt b = Inr b' \<Longrightarrow> keyed b \<Longrightarrow> keyed b'"
  unfolding production_option_def
  by (elim disjE exE; hypsubst)
     (auto simp: keyed_def WithMaxBytes_def WithMaxRequests_def WithInitialShardCount_def WithFlowGCTimeout_def
      WithPriorityBandGCTimeout_def WithDefaultPriorityBand_def WithPriorityBand_def update_new
      map_of_eq_None_iff split: if_splits option.splits)

lemma apply_options_keyed:
  "\<forall>opt\<in>set opts. production_option opt \<Longrightarrow> keyed b \<Longrightarrow> apply_options opts b = Inr b' \<Longrightarrow> keyed b'"
proof (induction opts arbitrary: b)
  case (Cons opt opts)
  obtain b1 where b1: "opt b = Inr b1" "apply_options opts b1 = Inr b'"
    using Cons.prems(3) by (auto split: sum.splits)
  have "keyed b1" using production_option_keyed [of opt b b1] b1(1) Cons.prems(1,2) by simp
  then show ?case using Cons.IH [of b1] Cons.prems(1) b1(2) by simp
qed simp

lemma keyed_default: "keyed default_builder"
  by (simp add: keyed_def default_builder_def)

lemma config_validate_ok:
  assumes "config_validate checker c = Some None"
  shows "0 < cfg_InitialShardCount c" "0 < cfg_FlowGCTimeout c"
    "cfg_FlowGCTimeout c \<le> cfg_PriorityBandGCTimeout c"
    "\<exists>t. cfg_DefaultPriorityBand c = Some t \<and> band_ok checker t"
    "\<forall>(k, b)\<in>set (cfg_PriorityBands c). band_ok checker b"
proof -
  obtain t where t: "cfg_DefaultPriorityBand c = Some t" "band_validate checker (t\<lparr>band_Priority := 0\<rparr>) = None"
    "validate_bands checker (cfg_PriorityBands c) = None"
    using assms by (auto simp: config_validate_def split: if_splits option.splits)
  have "band_ok checker t" using t(2) by (simp add: band_validate_ok band_ok_def)
  then show "\<exists>t. cfg_DefaultPriorityBand c = Some t \<and> band_ok checker t"
    "\<forall>(k, b)\<in>set (cfg_PriorityBands c). band_ok checker b"
    using t by (simp_all add: validate_bands_ok)
  show "0 < cfg_InitialShardCount c" "0 < cfg_FlowGCTimeout c"
    "cfg_FlowGCTimeout c \<le> cfg_PriorityBandGCTimeout c"
    using assms by (auto simp: config_validate_def split: if_splits)
qed

lemma NewConfig_Inr:
  assumes "NewConfig handle opts = Some (Inr c)"
  obtains b template bands where "apply_options opts default_builder = Inr b"
    "apply_defaults_bands handle (cfg_PriorityBands (builder_config b)) = Inr bands"
    "c = (builder_config b)\<lparr>cfg_DefaultPriorityBand := Some template, cfg_PriorityBands := bands\<rparr>"
    "config_validate (builder_checker b) c = Some None"
  using assms unfolding NewConfig_def Let_def
  by (auto split: sum.splits option.splits)

lemma NewConfig_not_panic: "NewConfig handle opts \<noteq> None"
  by (auto simp: NewConfig_def Let_def config_validate_def split: sum.splits option.splits)

text \<open>
  C12: the master configuration that \<open>NewConfig\<close> returns is well formed: at least one
  shard, positive timeouts in the right order, a template and bands with both policies, a
  queue that provides what the ordering policy requires and a byte limit, one band per
  priority.
\<close>

theorem NewConfig_well_formed:
  assumes "\<forall>opt\<in>set opts. production_option opt" and "NewConfig handle opts = Some (Inr c)"
  shows "config_ok CheckCompatibility c"
proof -
  obtain b template bands where b: "apply_options opts default_builder = Inr b"
    "apply_defaults_bands handle (cfg_PriorityBands (builder_config b)) = Inr bands"
    "c = (builder_config b)\<lparr>cfg_DefaultPriorityBand := Some template, cfg_PriorityBands := bands\<rparr>"
    "config_validate (builder_checker b) c = Some None"
    by (rule NewConfig_Inr [OF assms(2)])
  have k: "keyed b" by (rule apply_options_keyed [OF assms(1) keyed_default b(1)])
  then have keys: "map fst bands = map fst (cfg_PriorityBands (builder_config b)) \<and>
      (\<forall>(k, b)\<in>set bands. k = band_Priority b \<and> band_MaxBytes b \<noteq> 0)"
    using apply_defaults_bands_keys [OF b(2)] by (simp add: keyed_def)
  show ?thesis
    using config_validate_ok [OF b(4)] keys k unfolding config_ok_def keyed_def by (auto simp: b(3))
qed

definition default_handle :: plugin_handle where
  "default_handle = (\<lambda>name.
     if name = ''fcfs-ordering-policy'' then Some (OrderingPlugin fcfs)
     else if name = ''edf-ordering-policy'' then Some (OrderingPlugin edf)
     else if name = ''global-strict-fairness-policy'' then Some (FairnessPlugin GlobalStrict)
     else if name = ''round-robin-fairness-policy'' then Some (FairnessPlugin RoundRobin) else None)"

definition default_config :: config where
  "default_config = \<lparr>cfg_MaxBytes = 0, cfg_MaxRequests = 5, cfg_PriorityBands = [],
     cfg_DefaultPriorityBand = Some \<lparr>band_Priority = 0, band_OrderingPolicy = Some fcfs,
       band_FairnessPolicy = Some GlobalStrict, band_Queue = ListQueueName, band_MaxBytes = 1000000000,
       band_MaxRequests = 0\<rparr>,
     cfg_InitialShardCount = 1, cfg_FlowGCTimeout = 300000000000, cfg_PriorityBandGCTimeout = 600000000000\<rparr>"

lemma NewConfig_default: "NewConfig default_handle [WithMaxRequests 5] = Some (Inr default_config)"
  by (simp add: NewConfig_def default_builder_def WithMaxRequests_def NewPriorityBandConfig_def applyDefaults_def
      orderingPolicy_def fairnessPolicy_def default_handle_def DefaultOrderingPolicyRef_def
      DefaultFairnessPolicyRef_def fcfs_def defaultQueue_def defaultPriorityBandMaxBytes_def
      config_validate_def defaultInitialShardCount_def defaultFlowGCTimeout_def defaultPriorityBandGCTimeout_def
      band_validate_def CheckCompatibility_def NewQueueFromName_def RegisteredQueues_def ListQueueName_def
      MaxMinHeapName_def listQueue_constructor_def default_config_def)

theorem NewConfig_well_formed_witness: "config_ok CheckCompatibility default_config"
proof -
  have "production_option (WithMaxRequests 5)" unfolding production_option_def by blast
  then show ?thesis using NewConfig_well_formed [OF _ NewConfig_default] by simp
qed

lemma CheckCompatibility_queue:
  "CheckCompatibility p MaxMinHeapName = None \<longleftrightarrow> CapabilityFIFO \<notin> set (RequiredQueueCapabilities p)"
  "CheckCompatibility p ListQueueName = None \<longleftrightarrow> CapabilityPriorityConfigurable \<notin> set (RequiredQueueCapabilities p)"
proof -
  have caps: "(case filter (\<lambda>req. req \<notin> set [c]) xs of [] \<Rightarrow> None | _ \<Rightarrow> Some e) = None \<longleftrightarrow> d \<notin> set xs"
    if "d \<noteq> c" for c d :: queue_capability and xs and e :: gerror
  proof -
    have "filter (\<lambda>req. req \<notin> set [c]) xs = [] \<longleftrightarrow> d \<notin> set xs"
      using that by (cases c; cases d) (auto simp: filter_empty_conv, (metis queue_capability.exhaust)+)
    then show ?thesis by (auto split: list.split)
  qed
  show "CheckCompatibility p MaxMinHeapName = None \<longleftrightarrow> CapabilityFIFO \<notin> set (RequiredQueueCapabilities p)"
    using caps [of CapabilityFIFO CapabilityPriorityConfigurable]
    by (simp add: CheckCompatibility_def NewQueueFromName_def RegisteredQueues_def maxMinHeap_constructor_def
        del: set_simps)
  show "CheckCompatibility p ListQueueName = None \<longleftrightarrow> CapabilityPriorityConfigurable \<notin> set (RequiredQueueCapabilities p)"
    using caps [of CapabilityPriorityConfigurable CapabilityFIFO]
    by (simp add: CheckCompatibility_def NewQueueFromName_def RegisteredQueues_def listQueue_constructor_def
        ListQueueName_def MaxMinHeapName_def list_Capabilities_def del: set_simps)
qed

text \<open>
  When no queue is configured, the queue \<open>applyDefaults\<close> chooses is compatible with the
  ordering policy of the band, unless the policy asks for both capabilities, which no
  registered queue has.
\<close>

theorem applyDefaults_queue_compatible:
  assumes "applyDefaults handle p = Inr p'" "band_Queue p = []" "band_OrderingPolicy p' = Some policy"
    and "\<not> {CapabilityFIFO, CapabilityPriorityConfigurable} \<subseteq> set (RequiredQueueCapabilities policy)"
  shows "CheckCompatibility policy (band_Queue p') = None"
proof -
  have q: "band_Queue p' = (if CapabilityPriorityConfigurable \<in> set (RequiredQueueCapabilities policy)
      then MaxMinHeapName else defaultQueue)"
    using assms(1-3) by (auto simp: applyDefaults_def Let_def split: sum.splits option.splits if_splits)
  show ?thesis
    using assms(4) queue_capability.exhaust unfolding q defaultQueue_def
    by (auto simp: CheckCompatibility_queue)
qed

theorem applyDefaults_queue_compatible_witness:
  "CheckCompatibility edf MaxMinHeapName = None"
proof -
  let ?p = "\<lparr>band_Priority = 1, band_OrderingPolicy = Some edf, band_FairnessPolicy = Some RoundRobin,
      band_Queue = [], band_MaxBytes = 7, band_MaxRequests = 0\<rparr>"
  have "applyDefaults default_handle ?p = Inr (?p\<lparr>band_Queue := MaxMinHeapName\<rparr>)"
    by (simp add: applyDefaults_def edf_def)
  then show ?thesis
    using applyDefaults_queue_compatible [of default_handle ?p "?p\<lparr>band_Queue := MaxMinHeapName\<rparr>" edf]
    by (simp add: edf_def)
qed

subsection \<open>Partitioning\<close>

lemma those_map: "(\<And>x. x \<in> set xs \<Longrightarrow> f x \<noteq> None) \<Longrightarrow> those (map f xs) = Some (map (the \<circ> f) xs)"
proof (induction xs)
  case (Cons x xs)
  then obtain y where "f x = Some y" by (metis list.set_intros(1) not_None_eq)
  then show ?case using Cons by simp
qed simp

lemma fold_update_other:
  "k \<notin> fst ` set bs \<Longrightarrow> map_of (fold (\<lambda>(k, b). AList.update k b) bs m) k = map_of m k"
  by (induction bs arbitrary: m) (auto simp: update_conv')

lemma fold_update_mem:
  "distinct (map fst bs) \<Longrightarrow> (k, b) \<in> set bs \<Longrightarrow> map_of (fold (\<lambda>(k, b). AList.update k b) bs m) k = Some b"
proof (induction bs arbitrary: m)
  case (Cons x bs)
  show ?case
  proof (cases "x = (k, b)")
    case True
    then show ?thesis using Cons.prems(1) by (simp add: fold_update_other update_conv')
  next
    case False
    then have "(k, b) \<in> set bs" using Cons.prems(2) by auto
    then show ?thesis using Cons.IH Cons.prems(1) by (cases x) simp
  qed
qed simp

definition share :: "uint64 \<Rightarrow> int \<Rightarrow> int \<Rightarrow> uint64" where
  "share tot i n = the (partitionUint64 tot i n)"

lemma partition_config_eq:
  assumes "0 \<le> i" "i < n" "n < 2 ^ 63"
  shows "partition_config c i n = Some \<lparr>sc_MaxBytes = share (cfg_MaxBytes c) i n,
    sc_MaxRequests = share (cfg_MaxRequests c) i n,
    sc_PriorityBands = fold (\<lambda>(k, b). AList.update k b)
      (map (\<lambda>(_, t). (band_Priority t, t\<lparr>band_MaxBytes := share (band_MaxBytes t) i n,
                                          band_MaxRequests := share (band_MaxRequests t) i n\<rparr>))
        (cfg_PriorityBands c)) []\<rparr>"
proof -
  have P: "partitionUint64 tot i n = Some (share tot i n)" for tot
    using partitionUint64_share [OF assms, of tot] by (auto simp: share_def)
  have b: "(partition_band i n \<circ> snd) x = Some (case x of (_, t) \<Rightarrow> (band_Priority t,
      t\<lparr>band_MaxBytes := share (band_MaxBytes t) i n, band_MaxRequests := share (band_MaxRequests t) i n\<rparr>))" for x
    by (cases x) (simp add: partition_band_def P)
  have "those (map (partition_band i n \<circ> snd) (cfg_PriorityBands c)) =
      Some (map (the \<circ> (partition_band i n \<circ> snd)) (cfg_PriorityBands c))"
    by (rule those_map) (simp only: b, simp)
  also have "the \<circ> (partition_band i n \<circ> snd) = (\<lambda>(_, t). (band_Priority t,
      t\<lparr>band_MaxBytes := share (band_MaxBytes t) i n, band_MaxRequests := share (band_MaxRequests t) i n\<rparr>))"
    using b by (auto simp: fun_eq_iff)
  finally show ?thesis by (simp add: partition_config_def P comp_def)
qed

lemma sum_share:
  assumes "0 < n" "int n < 2 ^ 63"
  shows "(\<Sum>i<n. unat (share tot (int i) (int n))) = unat tot"
proof -
  have "unat (share tot (int i) (int n)) = unat tot div n + (if i < unat tot mod n then 1 else 0)" if "i < n" for i
    using partitionUint64_share [of "int i" "int n" tot] that assms by (auto simp: share_def)
  then show ?thesis using sum_shares [OF assms(1), of "unat tot"] by simp
qed

abbreviation shard_of :: "config \<Rightarrow> nat \<Rightarrow> nat \<Rightarrow> shard_config" where
  "shard_of c i n \<equiv> the (partition_config c (int i) (int n))"

abbreviation band_share :: "priority_band_config \<Rightarrow> nat \<Rightarrow> nat \<Rightarrow> priority_band_config" where
  "band_share b i n \<equiv> b\<lparr>band_MaxBytes := share (band_MaxBytes b) (int i) (int n),
     band_MaxRequests := share (band_MaxRequests b) (int i) (int n)\<rparr>"

definition keyed_bands :: "(int \<times> priority_band_config) list \<Rightarrow> bool" where
  "keyed_bands bs \<longleftrightarrow> (\<forall>(k, b)\<in>set bs. k = band_Priority b) \<and> distinct (map fst bs)"

lemma shard_of_eq:
  assumes "i < n" "int n < 2 ^ 63"
  shows "partition_config c (int i) (int n) \<noteq> None"
    "sc_MaxBytes (shard_of c i n) = share (cfg_MaxBytes c) (int i) (int n)"
    "sc_MaxRequests (shard_of c i n) = share (cfg_MaxRequests c) (int i) (int n)"
  using partition_config_eq [of "int i" "int n" c] assms by simp_all

lemma shard_of_band:
  assumes i: "i < n" and n: "int n < 2 ^ 63" and keys: "keyed_bands (cfg_PriorityBands c)"
    and kb: "(k, b) \<in> set (cfg_PriorityBands c)"
  shows "map_of (sc_PriorityBands (shard_of c i n)) k = Some (band_share b i n)"
proof -
  let ?f = "\<lambda>(_, t). (band_Priority t, band_share t i n)"
  have k: "k = band_Priority b" using keys kb by (auto simp: keyed_bands_def)
  have "map fst (map ?f (cfg_PriorityBands c)) = map fst (cfg_PriorityBands c)"
    using keys by (auto simp: keyed_bands_def)
  then have d: "distinct (map fst (map ?f (cfg_PriorityBands c)))"
    using keys unfolding keyed_bands_def by (simp only:)
  have "?f (k, b) \<in> ?f ` set (cfg_PriorityBands c)" using kb by (rule imageI)
  then have "(k, band_share b i n) \<in> set (map ?f (cfg_PriorityBands c))" using k by simp
  then show ?thesis
    using fold_update_mem [OF d] partition_config_eq [of "int i" "int n" c] i n by simp
qed

text \<open>
  C13: the partition is complete: for every number of shards the limits of the shards add up
  to the global ones, for the bytes and the requests, for the registry and for every band,
  and every shard gets every band with its policies and queue.
\<close>

theorem partition_complete:
  assumes n: "0 < n" "int n < 2 ^ 63" and keys: "keyed_bands (cfg_PriorityBands c)"
  shows "(\<forall>i<n. partition_config c (int i) (int n) \<noteq> None) \<and>
    (\<Sum>i<n. unat (sc_MaxBytes (shard_of c i n))) = unat (cfg_MaxBytes c) \<and>
    (\<Sum>i<n. unat (sc_MaxRequests (shard_of c i n))) = unat (cfg_MaxRequests c) \<and>
    (\<forall>(k, b)\<in>set (cfg_PriorityBands c). \<exists>sb.
       (\<forall>i<n. map_of (sc_PriorityBands (shard_of c i n)) k = Some (sb i) \<and>
          band_OrderingPolicy (sb i) = band_OrderingPolicy b \<and>
          band_FairnessPolicy (sb i) = band_FairnessPolicy b \<and> band_Queue (sb i) = band_Queue b) \<and>
       (\<Sum>i<n. unat (band_MaxBytes (sb i))) = unat (band_MaxBytes b) \<and>
       (\<Sum>i<n. unat (band_MaxRequests (sb i))) = unat (band_MaxRequests b))"
proof (intro conjI ballI)
  fix x assume "x \<in> set (cfg_PriorityBands c)"
  moreover obtain k b where x: "x = (k, b)" by (cases x)
  ultimately have kb: "(k, b) \<in> set (cfg_PriorityBands c)" by simp
  show "case x of (k, b) \<Rightarrow> \<exists>sb.
       (\<forall>i<n. map_of (sc_PriorityBands (shard_of c i n)) k = Some (sb i) \<and>
          band_OrderingPolicy (sb i) = band_OrderingPolicy b \<and>
          band_FairnessPolicy (sb i) = band_FairnessPolicy b \<and> band_Queue (sb i) = band_Queue b) \<and>
       (\<Sum>i<n. unat (band_MaxBytes (sb i))) = unat (band_MaxBytes b) \<and>
       (\<Sum>i<n. unat (band_MaxRequests (sb i))) = unat (band_MaxRequests b)"
    unfolding x prod.case
    by (rule exI [of _ "\<lambda>i. band_share b i n"])
       (simp add: shard_of_band [OF _ n(2) keys kb] sum_share [OF n])
qed (simp_all add: shard_of_eq [OF _ n(2)] sum_share [OF n])

theorem partition_complete_witness:
  "(\<Sum>i<3. unat (sc_MaxRequests (shard_of default_config i 3))) = 5"
  using partition_complete [of 3 default_config] by (simp add: keyed_bands_def default_config_def)

text \<open>
  With more shards than units of a limit the last shards get the limit 0, which is the
  value that stands for an unlimited capacity.
\<close>

theorem partition_zero_share:
  assumes "unat tot \<le> i" "i < n" "int n < 2 ^ 63"
  shows "partitionUint64 tot (int i) (int n) = Some 0"
proof -
  obtain v where v: "partitionUint64 tot (int i) (int n) = Some v"
    "unat v = unat tot div n + (if i < unat tot mod n then 1 else 0)"
    using partitionUint64_share [of "int i" "int n" tot] assms by auto
  have "unat tot div n = 0" "\<not> i < unat tot mod n" using assms by simp_all
  then show ?thesis using v by (simp add: unat_eq_zero)
qed

theorem partition_zero_share_witness:
  "partitionUint64 1 0 2 = Some 1 \<and> partitionUint64 1 1 2 = Some 0"
  using partition_zero_share [of 1 1 2] by (simp add: partitionUint64_def)

end
