(* ===== verification/Managed_Queue.thy ===== *)
theory Managed_Queue
  imports Registry_Config
begin

text \<open>
  The statistics decorator around a queue
  (src/pkg/epp/flowcontrol/registry/managedqueue.go). The counters are \<open>int64\<close> words; the
  callback to the parent shard is a function on the parent's state \<open>'s\<close>; \<open>None\<close> is a
  panic.
\<close>

subsection \<open>State and operations\<close>

record managedQueue =
  mq_key :: flow_key
  mq_policy :: ordering_policy
  mq_queue :: safeQueue
  mq_byteSize :: int64
  mq_len :: int64

type_synonym 's stats_delta = "int \<Rightarrow> int64 \<Rightarrow> int64 \<Rightarrow> 's \<Rightarrow> 's option"

definition newManagedQueue :: "safeQueue \<Rightarrow> ordering_policy \<Rightarrow> flow_key \<Rightarrow> managedQueue" where
  "newManagedQueue q policy key =
     \<lparr>mq_key = key, mq_policy = policy, mq_queue = q, mq_byteSize = 0, mq_len = 0\<rparr>"

definition propagateStatsDeltaLocked ::
  "'s stats_delta \<Rightarrow> int64 \<Rightarrow> int64 \<Rightarrow> managedQueue \<times> 's \<Rightarrow> (managedQueue \<times> 's) option" where
  "propagateStatsDeltaLocked onStatsDelta lenDelta byteSizeDelta = (\<lambda>(mq, s).
     let newLen = mq_len mq + lenDelta
     in if sint newLen < 0 then None
        else let mq1 = mq\<lparr>mq_len := newLen, mq_byteSize := mq_byteSize mq + byteSizeDelta\<rparr>
             in (case onStatsDelta (Priority (mq_key mq)) lenDelta byteSizeDelta s of
                   None \<Rightarrow> None
                 | Some s1 \<Rightarrow> Some (mq1, s1)))"

definition mq_Add ::
  "bool \<Rightarrow> 's stats_delta \<Rightarrow> queue_item \<Rightarrow> world \<times> managedQueue \<times> 's \<Rightarrow>
   (gerror option \<times> world \<times> managedQueue \<times> 's) option" where
  "mq_Add isDraining onStatsDelta it = (\<lambda>(w, mq, s).
     if isDraining then Some (Some (Sentinel ErrShardDraining), w, mq, s)
     else let (w1, q1) = sq_Add it (w, mq_queue mq)
          in (case propagateStatsDeltaLocked onStatsDelta 1 (item_size it) (mq\<lparr>mq_queue := q1\<rparr>, s) of
                None \<Rightarrow> None
              | Some (mq1, s1) \<Rightarrow> Some (None, w1, mq1, s1)))"

definition mq_Remove ::
  "'s stats_delta \<Rightarrow> queue_handle option \<Rightarrow> world \<times> managedQueue \<times> 's \<Rightarrow>
   ((gerror + queue_item) \<times> world \<times> managedQueue \<times> 's) option" where
  "mq_Remove onStatsDelta handle = (\<lambda>(w, mq, s).
     case sq_Remove handle (w, mq_queue mq) of
       (Inl err, w1, q1) \<Rightarrow> Some (Inl err, w1, mq\<lparr>mq_queue := q1\<rparr>, s)
     | (Inr removedItem, w1, q1) \<Rightarrow>
         (case propagateStatsDeltaLocked onStatsDelta (-1) (- item_size removedItem) (mq\<lparr>mq_queue := q1\<rparr>, s) of
            None \<Rightarrow> None
          | Some (mq1, s1) \<Rightarrow> Some (Inr removedItem, w1, mq1, s1)))"

definition propagateStatsDeltaForRemovedItemsLocked ::
  "'s stats_delta \<Rightarrow> queue_item list \<Rightarrow> managedQueue \<times> 's \<Rightarrow> (managedQueue \<times> 's) option" where
  "propagateStatsDeltaForRemovedItemsLocked onStatsDelta its ms =
     (let (lenDelta, byteSizeDelta) =
            fold (\<lambda>it (lenDelta, byteSizeDelta). (lenDelta - 1, byteSizeDelta - item_size it)) its (0, 0)
      in propagateStatsDeltaLocked onStatsDelta lenDelta byteSizeDelta ms)"

definition mq_Cleanup ::
  "'s stats_delta \<Rightarrow> (queue_item \<Rightarrow> bool) \<Rightarrow> world \<times> managedQueue \<times> 's \<Rightarrow>
   (queue_item list \<times> world \<times> managedQueue \<times> 's) option" where
  "mq_Cleanup onStatsDelta predicate = (\<lambda>(w, mq, s).
     let (cleanedItems, w1, q1) = sq_Cleanup predicate (w, mq_queue mq); mq1 = mq\<lparr>mq_queue := q1\<rparr>
     in if cleanedItems = [] then Some ([], w1, mq1, s)
        else (case propagateStatsDeltaForRemovedItemsLocked onStatsDelta cleanedItems (mq1, s) of
                None \<Rightarrow> None
              | Some (mq2, s1) \<Rightarrow> Some (cleanedItems, w1, mq2, s1)))"

definition mq_Drain ::
  "'s stats_delta \<Rightarrow> world \<times> managedQueue \<times> 's \<Rightarrow>
   (queue_item list \<times> world \<times> managedQueue \<times> 's) option" where
  "mq_Drain onStatsDelta = (\<lambda>(w, mq, s).
     let (drainedItems, w1, q1) = sq_Drain (w, mq_queue mq); mq1 = mq\<lparr>mq_queue := q1\<rparr>
     in if drainedItems = [] then Some ([], w1, mq1, s)
        else (case propagateStatsDeltaForRemovedItemsLocked onStatsDelta drainedItems (mq1, s) of
                None \<Rightarrow> None
              | Some (mq2, s1) \<Rightarrow> Some (drainedItems, w1, mq2, s1)))"

definition mq_Len :: "managedQueue \<Rightarrow> int" where
  "mq_Len mq = sint (mq_len mq)"

definition mq_ByteSize :: "managedQueue \<Rightarrow> uint64" where
  "mq_ByteSize mq = mq_byteSize mq"

definition mq_PeekHead :: "managedQueue \<Rightarrow> queue_item option" where
  "mq_PeekHead mq = sq_PeekHead (mq_queue mq)"

definition mq_PeekTail :: "managedQueue \<Rightarrow> queue_item option" where
  "mq_PeekTail mq = sq_PeekTail (mq_queue mq)"

subsection \<open>Invariant\<close>

definition mq_inv :: "world \<Rightarrow> managedQueue \<Rightarrow> bool" where
  "mq_inv w mq \<longleftrightarrow> sq_inv w (mq_queue mq) \<and> mq_len mq = of_nat (sq_Len (mq_queue mq)) \<and>
     sq_Len (mq_queue mq) < 2 ^ 63 \<and> mq_byteSize mq = sq_ByteSize (mq_queue mq)"

abbreviation mq_elems :: "managedQueue \<Rightarrow> queue_item multiset" where
  "mq_elems mq \<equiv> sq_elems (mq_queue mq)"

lemma sint_of_nat: "n < 2 ^ 63 \<Longrightarrow> sint (of_nat n :: int64) = int n"
proof -
  assume "n < 2 ^ 63"
  then have "int n < 2 ^ 63" by (metis of_nat_less_iff of_nat_numeral of_nat_power)
  then show ?thesis by (simp add: signed_of_nat signed_take_bit_int_eq_self)
qed

lemma mq_Len_exact: "mq_inv w mq \<Longrightarrow> mq_Len mq = int (size (mq_elems mq))"
  using sq.Len [of w "mq_queue mq"] by (auto simp: mq_inv_def mq_Len_def sint_of_nat)

lemma removed_deltas:
  "fold (\<lambda>it (l, b). (l - 1, b - item_size it)) its (l0 :: int64, b0) =
     (l0 - of_nat (length its), b0 - (\<Sum>it\<leftarrow>its. item_size it))"
  by (induction its arbitrary: l0 b0) (auto simp: algebra_simps)

lemma mq_inv_new: "sq_inv w q \<Longrightarrow> sq_elems q = {#} \<Longrightarrow> mq_inv w (newManagedQueue q policy key)"
  using sq.Len [of w q] sq.ByteSize [of w q] by (simp add: mq_inv_def newManagedQueue_def)

lemma mq_inv_frame:
  "world_ok w \<Longrightarrow> mq_inv w mq \<Longrightarrow> touches X w w' \<Longrightarrow> X \<inter> ptrs (mq_elems mq) = {} \<Longrightarrow> mq_inv w' mq"
  using sq.inv_frame by (auto simp: mq_inv_def)

text \<open>
  A queue operation that takes \<open>q\<close> to \<open>q'\<close> and reports the difference keeps the counters
  exact, does not panic, and hands the same difference to the parent.
\<close>

lemma propagate_exact:
  assumes inv: "mq_inv w mq" and q': "sq_inv w' q'" "sq_Len q' < 2 ^ 63"
    and d: "of_nat (sq_Len q') = mq_len mq + dl" "sq_ByteSize q' = mq_byteSize mq + db"
    and s: "onStatsDelta (Priority (mq_key mq)) dl db s = Some s'"
  shows "\<exists>mq'. propagateStatsDeltaLocked onStatsDelta dl db (mq\<lparr>mq_queue := q'\<rparr>, s) = Some (mq', s') \<and>
    mq_inv w' mq' \<and> mq_queue mq' = q' \<and> mq_key mq' = mq_key mq \<and> mq_policy mq' = mq_policy mq \<and>
    mq_len mq' = mq_len mq + dl \<and> mq_byteSize mq' = mq_byteSize mq + db"
proof -
  have "\<not> sint (mq_len mq + dl) < 0" using sint_of_nat [OF q'(2)] d(1) by simp
  then show ?thesis using q' d s by (simp add: propagateStatsDeltaLocked_def mq_inv_def Let_def)
qed

lemma mq_Add_ok:
  assumes w: "world_ok w" and inv: "mq_inv w mq" and p: "item_ptr it \<notin> ptrs (mq_elems mq)"
    and room: "Suc (size (mq_elems mq)) < 2 ^ 63"
    and s: "onStatsDelta (Priority (mq_key mq)) 1 (item_size it) s = Some s'"
  shows "\<exists>w' mq'. mq_Add False onStatsDelta it (w, mq, s) = Some (None, w', mq', s') \<and>
    world_ok w' \<and> touches {item_ptr it} w w' \<and> mq_inv w' mq' \<and> mq_elems mq' = add_mset it (mq_elems mq) \<and>
    mq_key mq' = mq_key mq \<and> mq_policy mq' = mq_policy mq \<and>
    mq_len mq' = mq_len mq + 1 \<and> mq_byteSize mq' = mq_byteSize mq + item_size it"
proof -
  obtain w1 q1 where A: "sq_Add it (w, mq_queue mq) = (w1, q1)" by (cases "sq_Add it (w, mq_queue mq)")
  have q: "sq_inv w (mq_queue mq)" using inv by (simp add: mq_inv_def)
  note C = sq.Add [OF w q p A] and L = sq.Add_Len [OF w q p A]
  have "sq_Len q1 < 2 ^ 63" using L(1) sq.Len [OF q] room by simp
  moreover have "of_nat (sq_Len q1) = mq_len mq + 1" "sq_ByteSize q1 = mq_byteSize mq + item_size it"
    using L inv by (simp_all add: mq_inv_def)
  ultimately show ?thesis
    using propagate_exact [of w mq w1 q1 1 "item_size it" onStatsDelta s s'] inv s C A by (auto simp: mq_Add_def)
qed

lemma mq_Remove_ok:
  assumes w: "world_ok w" and inv: "mq_inv w mq" and it: "it \<in># mq_elems mq"
    and s: "onStatsDelta (Priority (mq_key mq)) (-1) (- item_size it) s = Some s'"
  shows "\<exists>mq'. mq_Remove onStatsDelta (Handle w it) (w, mq, s) = Some (Inr it, invalidate_item it w, mq', s') \<and>
    mq_inv (invalidate_item it w) mq' \<and> mq_elems mq' = mq_elems mq - {#it#} \<and>
    mq_key mq' = mq_key mq \<and> mq_policy mq' = mq_policy mq \<and>
    mq_len mq' = mq_len mq - 1 \<and> mq_byteSize mq' = mq_byteSize mq - item_size it"
proof -
  have q: "sq_inv w (mq_queue mq)" using inv by (simp add: mq_inv_def)
  obtain q1 where R: "sq_Remove (Handle w it) (w, mq_queue mq) = (Inr it, invalidate_item it w, q1)"
    "sq_inv (invalidate_item it w) q1" "sq_elems q1 = mq_elems mq - {#it#}"
    using sq.Remove [OF w q it] by blast
  note L = sq.Remove_Len [OF w q it R(1)]
  have "sq_Len q1 < 2 ^ 63" using L(2) inv by (simp add: mq_inv_def)
  moreover have "of_nat (sq_Len q1) = mq_len mq + -1"
    using L(2) inv by (auto simp: mq_inv_def simp flip: L(2))
  moreover have "sq_ByteSize q1 = mq_byteSize mq + - item_size it" using L(3) inv by (simp add: mq_inv_def)
  ultimately show ?thesis
    using propagate_exact [of w mq _ q1 "-1" "- item_size it" onStatsDelta s s', OF inv R(2)] s R
    by (auto simp: mq_Remove_def)
qed

text \<open>Removing the items \<open>rs\<close> at once, as \<open>Cleanup\<close> and \<open>Drain\<close> do.\<close>

lemma propagate_removed:
  assumes inv: "mq_inv w mq" and q': "sq_inv w' q'" and part: "mq_elems mq = mset rs + sq_elems q'"
    and s: "onStatsDelta (Priority (mq_key mq)) (- of_nat (length rs)) (- (\<Sum>it\<leftarrow>rs. item_size it)) s = Some s'"
  shows "\<exists>mq'. propagateStatsDeltaForRemovedItemsLocked onStatsDelta rs (mq\<lparr>mq_queue := q'\<rparr>, s) = Some (mq', s') \<and>
    mq_inv w' mq' \<and> mq_queue mq' = q' \<and> mq_key mq' = mq_key mq \<and> mq_policy mq' = mq_policy mq \<and>
    mq_len mq' = mq_len mq - of_nat (length rs) \<and> mq_byteSize mq' = mq_byteSize mq - (\<Sum>it\<leftarrow>rs. item_size it)"
proof -
  have q: "sq_inv w (mq_queue mq)" using inv by (simp add: mq_inv_def)
  have len: "sq_Len (mq_queue mq) = length rs + sq_Len q'" using sq.Len [OF q] sq.Len [OF q'] part by simp
  have "(\<Sum>it\<leftarrow>rs. item_size it) = (\<Sum>it\<in>#mset rs. item_size it)" by (metis mset_map sum_mset_sum_list)
  then have bs: "sq_ByteSize (mq_queue mq) = (\<Sum>it\<leftarrow>rs. item_size it) + sq_ByteSize q'"
    using sq.ByteSize [OF q] sq.ByteSize [OF q'] part by simp
  have "sq_Len q' < 2 ^ 63" using len inv by (simp add: mq_inv_def)
  moreover have "of_nat (sq_Len q') = mq_len mq + - of_nat (length rs)" using len inv by (simp add: mq_inv_def)
  moreover have "sq_ByteSize q' = mq_byteSize mq + - (\<Sum>it\<leftarrow>rs. item_size it)" using bs inv by (simp add: mq_inv_def)
  ultimately show ?thesis
    using propagate_exact [of w mq w' q' "- of_nat (length rs)" "- (\<Sum>it\<leftarrow>rs. item_size it)" onStatsDelta s s'] inv q' s
    by (simp add: propagateStatsDeltaForRemovedItemsLocked_def removed_deltas)
qed

lemma mq_inv_same_queue: "mq_inv w mq \<Longrightarrow> sq_inv w' q' \<Longrightarrow> sq_elems q' = mq_elems mq \<Longrightarrow>
    mq_inv w' (mq\<lparr>mq_queue := q'\<rparr>)"
  using sq.Len [of w "mq_queue mq"] sq.Len [of w' q'] sq.ByteSize [of w "mq_queue mq"] sq.ByteSize [of w' q']
  by (simp add: mq_inv_def)

lemma mq_Cleanup_ok:
  assumes w: "world_ok w" and inv: "mq_inv w mq"
    and s: "\<And>dl db. onStatsDelta (Priority (mq_key mq)) dl db s \<noteq> None"
  shows "\<exists>rs mq' s'. mq_Cleanup onStatsDelta P (w, mq, s) = Some (rs, fold invalidate_item rs w, mq', s') \<and>
    mset rs = filter_mset P (mq_elems mq) \<and> mq_elems mq' = filter_mset (\<lambda>it. \<not> P it) (mq_elems mq) \<and>
    mq_inv (fold invalidate_item rs w) mq' \<and> mq_key mq' = mq_key mq \<and> mq_policy mq' = mq_policy mq \<and>
    mq_len mq' = mq_len mq - of_nat (length rs) \<and> mq_byteSize mq' = mq_byteSize mq - (\<Sum>it\<leftarrow>rs. item_size it) \<and>
    (if rs = [] then s' = s
     else onStatsDelta (Priority (mq_key mq)) (- of_nat (length rs)) (- (\<Sum>it\<leftarrow>rs. item_size it)) s = Some s')"
proof -
  obtain rs w1 q1 where C: "sq_Cleanup P (w, mq_queue mq) = (rs, w1, q1)" by (metis surj_pair)
  have q: "sq_inv w (mq_queue mq)" using inv by (simp add: mq_inv_def)
  have R: "mset rs = filter_mset P (mq_elems mq)" "sq_elems q1 = filter_mset (\<lambda>it. \<not> P it) (mq_elems mq)"
    "w1 = fold invalidate_item rs w" "sq_inv w1 q1" using sq.Cleanup [OF w q C] by blast+
  have part: "mq_elems mq = mset rs + sq_elems q1" unfolding R(1,2) by (rule multiset_partition)
  show ?thesis
  proof (cases "rs = []")
    case True
    then have "sq_elems q1 = mq_elems mq" using part by simp
    then show ?thesis
      using True C R mq_inv_same_queue [OF inv R(4)] by (intro exI [of _ "[]"]) (auto simp: mq_Cleanup_def)
  next
    case False
    obtain s' where s': "onStatsDelta (Priority (mq_key mq)) (- of_nat (length rs)) (- (\<Sum>it\<leftarrow>rs. item_size it)) s = Some s'"
      using s by blast
    obtain mq' where mq': "propagateStatsDeltaForRemovedItemsLocked onStatsDelta rs (mq\<lparr>mq_queue := q1\<rparr>, s) = Some (mq', s')"
      "mq_inv w1 mq'" "mq_queue mq' = q1" "mq_key mq' = mq_key mq" "mq_policy mq' = mq_policy mq"
      "mq_len mq' = mq_len mq - of_nat (length rs)" "mq_byteSize mq' = mq_byteSize mq - (\<Sum>it\<leftarrow>rs. item_size it)"
      using propagate_removed [where onStatsDelta = onStatsDelta, OF inv R(4) part s'] by blast
    have eq: "mq_Cleanup onStatsDelta P (w, mq, s) = Some (rs, w1, mq', s')"
      using C False mq'(1) by (simp add: mq_Cleanup_def)
    show ?thesis
      unfolding eq
      by (rule exI [of _ rs], rule exI [of _ mq'], rule exI [of _ s']) (use mq' R s' False in simp)
  qed
qed

lemma mq_Drain_ok:
  assumes w: "world_ok w" and inv: "mq_inv w mq"
    and s: "\<And>dl db. onStatsDelta (Priority (mq_key mq)) dl db s \<noteq> None"
  shows "\<exists>rs mq' s'. mq_Drain onStatsDelta (w, mq, s) = Some (rs, fold invalidate_item rs w, mq', s') \<and>
    mset rs = mq_elems mq \<and> mq_elems mq' = {#} \<and>
    mq_inv (fold invalidate_item rs w) mq' \<and> mq_key mq' = mq_key mq \<and> mq_policy mq' = mq_policy mq \<and>
    mq_len mq' = mq_len mq - of_nat (length rs) \<and> mq_byteSize mq' = mq_byteSize mq - (\<Sum>it\<leftarrow>rs. item_size it) \<and>
    (if rs = [] then s' = s
     else onStatsDelta (Priority (mq_key mq)) (- of_nat (length rs)) (- (\<Sum>it\<leftarrow>rs. item_size it)) s = Some s')"
proof -
  obtain rs w1 q1 where C: "sq_Drain (w, mq_queue mq) = (rs, w1, q1)" by (metis surj_pair)
  have q: "sq_inv w (mq_queue mq)" using inv by (simp add: mq_inv_def)
  have R: "mset rs = mq_elems mq" "sq_elems q1 = {#}" "w1 = fold invalidate_item rs w" "sq_inv w1 q1"
    using sq.Drain [OF w q C] by blast+
  have part: "mq_elems mq = mset rs + sq_elems q1" unfolding R(1,2) by simp
  show ?thesis
  proof (cases "rs = []")
    case True
    then show ?thesis
      using C R mq_inv_same_queue [OF inv R(4)] by (intro exI [of _ "[]"]) (auto simp: mq_Drain_def)
  next
    case False
    obtain s' where s': "onStatsDelta (Priority (mq_key mq)) (- of_nat (length rs)) (- (\<Sum>it\<leftarrow>rs. item_size it)) s = Some s'"
      using s by blast
    obtain mq' where mq': "propagateStatsDeltaForRemovedItemsLocked onStatsDelta rs (mq\<lparr>mq_queue := q1\<rparr>, s) = Some (mq', s')"
      "mq_inv w1 mq'" "mq_queue mq' = q1" "mq_key mq' = mq_key mq" "mq_policy mq' = mq_policy mq"
      "mq_len mq' = mq_len mq - of_nat (length rs)" "mq_byteSize mq' = mq_byteSize mq - (\<Sum>it\<leftarrow>rs. item_size it)"
      using propagate_removed [where onStatsDelta = onStatsDelta, OF inv R(4) part s'] by blast
    have eq: "mq_Drain onStatsDelta (w, mq, s) = Some (rs, w1, mq', s')"
      using C False mq'(1) by (simp add: mq_Drain_def)
    show ?thesis
      unfolding eq
      by (rule exI [of _ rs], rule exI [of _ mq'], rule exI [of _ s']) (use mq' R s' False in simp)
  qed
qed

end
