(* ===== verification/Alist_Sum.thy ===== *)
theory Alist_Sum
  imports Prelude "HOL-Library.AList"
begin

text \<open>Sums over the values of an association list, and its updates and deletions.\<close>

definition asum :: "('v \<Rightarrow> 'a::comm_monoid_add) \<Rightarrow> ('k \<times> 'v) list \<Rightarrow> 'a" where
  "asum f xs = (\<Sum>(_, v)\<leftarrow>xs. f v)"

lemma asum_Nil [simp]: "asum f [] = 0"
  by (simp add: asum_def)

lemma asum_Cons [simp]: "asum f ((k, v) # xs) = f v + asum f xs"
  by (simp add: asum_def)

lemma asum_update:
  "map_of xs k = Some v \<Longrightarrow> asum f (AList.update k v' xs) + f v = asum f xs + f v'"
  by (induction xs) (auto simp: ac_simps)

lemma asum_update_diff:
  fixes f :: "'v \<Rightarrow> 'a::ab_group_add"
  shows "map_of xs k = Some v \<Longrightarrow> asum f (AList.update k v' xs) = asum f xs - f v + f v'"
  using asum_update [of xs k v f v'] by (simp add: algebra_simps)

lemma asum_update_same:
  "map_of xs k = Some v \<Longrightarrow> f v' = f v \<Longrightarrow> asum f (AList.update k v' xs) = asum f xs"
  by (induction xs) auto

lemma asum_update_new: "map_of xs k = None \<Longrightarrow> asum f (AList.update k v xs) = asum f xs + f v"
  by (induction xs) (auto simp: ac_simps)

lemma asum_delete:
  "distinct (map fst xs) \<Longrightarrow> map_of xs k = Some v \<Longrightarrow> asum f (AList.delete k xs) + f v = asum f xs"
proof (induction xs)
  case (Cons x xs)
  then show ?case by (cases x) (auto simp: ac_simps)
qed simp

lemma asum_cong: "(\<And>k v. (k, v) \<in> set xs \<Longrightarrow> f v = g v) \<Longrightarrow> asum f xs = asum g xs"
  unfolding asum_def by (rule arg_cong [where f = sum_list], rule map_cong) auto

lemma mem_update:
  assumes "distinct (map fst xs)"
  shows "(k', v') \<in> set (AList.update k v xs) \<longleftrightarrow> (k' = k \<and> v' = v) \<or> (k' \<noteq> k \<and> (k', v') \<in> set xs)"
proof -
  have "map_of (AList.update k v xs) k' = Some v' \<longleftrightarrow> (k', v') \<in> set (AList.update k v xs)"
    using assms by (simp add: distinct_update)
  moreover have "map_of xs k' = Some v' \<longleftrightarrow> (k', v') \<in> set xs" using assms by simp
  ultimately show ?thesis by (auto simp: update_conv' split: if_splits)
qed

lemma keys_update: "map_of xs k = Some v \<Longrightarrow> map fst (AList.update k v' xs) = map fst xs"
  by (induction xs) auto

lemma keys_update_new: "map_of xs k = None \<Longrightarrow> map fst (AList.update k v xs) = map fst xs @ [k]"
  by (induction xs) auto

lemma mem_delete: "(k', v') \<in> set (AList.delete k xs) \<longleftrightarrow> k' \<noteq> k \<and> (k', v') \<in> set xs"
  by (induction xs) auto

lemma delete_update_same [simp]: "AList.delete k (AList.update k v xs) = AList.delete k xs"
  by (induction xs) auto

lemma map_of_delete_if: "map_of (AList.delete k xs) k' = (if k' = k then None else map_of xs k')"
  by (simp add: delete_conv')

lemma asum_mset_mem:
  "it \<in># asum f xs \<longleftrightarrow> (\<exists>(k, v)\<in>set xs. it \<in># f v)"
  by (induction xs) auto

lemma map_of_is_mem: "distinct (map fst xs) \<Longrightarrow> map_of xs k = Some v \<longleftrightarrow> (k, v) \<in> set xs"
  by simp

end
