(* ===== verification/Shard.thy ===== *)
theory Shard
  imports Managed_Queue Alist_Sum
begin

text \<open>
  A shard of the registry (src/pkg/epp/flowcontrol/registry/shard.go): priority bands with
  their queues, the ordered list of priorities, aggregated statistics and the draining
  flag. \<open>sync.Map\<close> and Go maps are association lists; \<open>None\<close> is a panic (a nil map value
  that is used).
\<close>

subsection \<open>State\<close>

datatype policy_state = NilState | RoundRobinCursor "flow_key option"

record priorityBand =
  pb_fairnessPolicy :: fairness_policy
  pb_policyState :: policy_state
  pb_config :: priority_band_config
  pb_queues :: "(string \<times> managedQueue) list"
  pb_byteSize :: int64
  pb_len :: int64

record registryShard =
  sh_id :: string
  sh_config :: shard_config
  sh_orderedPriorityLevels :: "int list"
  sh_priorityBands :: "(int \<times> priorityBand) list"
  sh_isDraining :: bool
  sh_totalByteSize :: int64
  sh_totalLen :: int64

subsection \<open>Bands\<close>

primrec NewState :: "fairness_policy \<Rightarrow> policy_state" where
  "NewState GlobalStrict = NilState"
| "NewState RoundRobin = RoundRobinCursor None"

definition initPriorityBand :: "priority_band_config \<Rightarrow> registryShard \<Rightarrow> registryShard option" where
  "initPriorityBand bandConfig s =
     (case band_FairnessPolicy bandConfig of
        None \<Rightarrow> None
      | Some fp \<Rightarrow>
          let band = \<lparr>pb_fairnessPolicy = fp, pb_policyState = NewState fp, pb_config = bandConfig,
                      pb_queues = [], pb_byteSize = 0, pb_len = 0\<rparr>
          in Some (s\<lparr>sh_priorityBands := AList.update (band_Priority bandConfig) band (sh_priorityBands s),
                     sh_orderedPriorityLevels :=
                       rev (sort (sh_orderedPriorityLevels s @ [band_Priority bandConfig]))\<rparr>))"

fun init_bands :: "(int \<times> priority_band_config) list \<Rightarrow> registryShard \<Rightarrow> registryShard option" where
  "init_bands [] s = Some s"
| "init_bands ((_, c) # cs) s =
     (case initPriorityBand c s of None \<Rightarrow> None | Some s1 \<Rightarrow> init_bands cs s1)"

definition newShard :: "string \<Rightarrow> shard_config \<Rightarrow> registryShard option" where
  "newShard sid cfg =
     init_bands (sc_PriorityBands cfg)
       \<lparr>sh_id = sid, sh_config = cfg, sh_orderedPriorityLevels = [], sh_priorityBands = [],
        sh_isDraining = False, sh_totalByteSize = 0, sh_totalLen = 0\<rparr>"

definition addPriorityBand :: "int \<Rightarrow> registryShard \<Rightarrow> registryShard option" where
  "addPriorityBand priority s =
     (if map_of (sh_priorityBands s) priority \<noteq> None then Some s
      else (case map_of (sc_PriorityBands (sh_config s)) priority of
              None \<Rightarrow> None
            | Some bandConfig \<Rightarrow> initPriorityBand bandConfig s))"

definition shard_deletePriorityBand :: "int \<Rightarrow> registryShard \<Rightarrow> registryShard" where
  "shard_deletePriorityBand priority s =
     s\<lparr>sh_priorityBands := AList.delete priority (sh_priorityBands s),
       sh_config := (sh_config s)\<lparr>sc_PriorityBands := AList.delete priority (sc_PriorityBands (sh_config s))\<rparr>,
       sh_orderedPriorityLevels := remove1 priority (sh_orderedPriorityLevels s)\<rparr>"

subsection \<open>Lookups\<close>

definition IsActive :: "registryShard \<Rightarrow> bool" where
  "IsActive s \<longleftrightarrow> \<not> sh_isDraining s"

definition ManagedQueue :: "flow_key \<Rightarrow> registryShard \<Rightarrow> gerror + managedQueue" where
  "ManagedQueue key s =
     (case map_of (sh_priorityBands s) (Priority key) of
        None \<Rightarrow> Inl (Errorf ''failed to get managed queue for flow'' [Sentinel ErrPriorityBandNotFound])
      | Some band \<Rightarrow>
          (case map_of (pb_queues band) (ID key) of
             None \<Rightarrow> Inl (Errorf ''failed to get managed queue for flow'' [Sentinel ErrFlowInstanceNotFound])
           | Some mq \<Rightarrow> Inr mq))"

definition shard_FairnessPolicy :: "int \<Rightarrow> registryShard \<Rightarrow> gerror + fairness_policy" where
  "shard_FairnessPolicy priority s =
     (case map_of (sh_priorityBands s) priority of
        None \<Rightarrow> Inl (Errorf ''failed to get fairness policy for priority'' [Sentinel ErrPriorityBandNotFound])
      | Some band \<Rightarrow> Inr (pb_fairnessPolicy band))"

definition shard_PriorityBandAccessor :: "int \<Rightarrow> registryShard \<Rightarrow> gerror + priorityBand" where
  "shard_PriorityBandAccessor priority s =
     (case map_of (sh_priorityBands s) priority of
        None \<Rightarrow> Inl (Errorf ''failed to get priority band accessor for priority'' [Sentinel ErrPriorityBandNotFound])
      | Some band \<Rightarrow> Inr band)"

definition AllOrderedPriorityLevels :: "registryShard \<Rightarrow> int list" where
  "AllOrderedPriorityLevels s = sh_orderedPriorityLevels s"

record priority_band_stats =
  bs_Priority :: int
  bs_CapacityBytes :: uint64
  bs_CapacityRequests :: uint64
  bs_ByteSize :: uint64
  bs_Len :: uint64

record shard_stats =
  ss_ID :: string
  ss_IsActive :: bool
  ss_TotalCapacityBytes :: uint64
  ss_TotalCapacityRequests :: uint64
  ss_TotalByteSize :: uint64
  ss_TotalLen :: uint64
  ss_PerPriorityBandStats :: "(int \<times> priority_band_stats) list"

definition shard_Stats :: "registryShard \<Rightarrow> shard_stats" where
  "shard_Stats s =
     \<lparr>ss_ID = sh_id s, ss_IsActive = IsActive s,
      ss_TotalCapacityBytes = sc_MaxBytes (sh_config s), ss_TotalCapacityRequests = sc_MaxRequests (sh_config s),
      ss_TotalByteSize = sh_totalByteSize s, ss_TotalLen = sh_totalLen s,
      ss_PerPriorityBandStats =
        map (\<lambda>(priority, band). (priority,
          \<lparr>bs_Priority = priority, bs_CapacityBytes = band_MaxBytes (pb_config band),
           bs_CapacityRequests = band_MaxRequests (pb_config band),
           bs_ByteSize = pb_byteSize band, bs_Len = pb_len band\<rparr>)) (sh_priorityBands s)\<rparr>"

subsection \<open>Administration\<close>

definition synchronizeFlow ::
  "flow_key \<Rightarrow> ordering_policy \<Rightarrow> safeQueue \<Rightarrow> registryShard \<Rightarrow> registryShard option" where
  "synchronizeFlow key policy q s =
     (case map_of (sh_priorityBands s) (Priority key) of
        None \<Rightarrow> None
      | Some band \<Rightarrow>
          if map_of (pb_queues band) (ID key) \<noteq> None then Some s
          else Some (s\<lparr>sh_priorityBands := AList.update (Priority key)
                 (band\<lparr>pb_queues := AList.update (ID key) (newManagedQueue q policy key) (pb_queues band)\<rparr>)
                 (sh_priorityBands s)\<rparr>))"

definition deleteFlow :: "flow_key \<Rightarrow> registryShard \<Rightarrow> registryShard" where
  "deleteFlow key s =
     (case map_of (sh_priorityBands s) (Priority key) of
        None \<Rightarrow> s
      | Some band \<Rightarrow> s\<lparr>sh_priorityBands := AList.update (Priority key)
            (band\<lparr>pb_queues := AList.delete (ID key) (pb_queues band)\<rparr>) (sh_priorityBands s)\<rparr>)"

definition markAsDraining :: "registryShard \<Rightarrow> registryShard" where
  "markAsDraining s = s\<lparr>sh_isDraining := True\<rparr>"

fun update_band_configs ::
  "(int \<times> priority_band_config) list \<Rightarrow> (int \<times> priorityBand) list \<Rightarrow> (int \<times> priorityBand) list option" where
  "update_band_configs cfgs [] = Some []"
| "update_band_configs cfgs ((priority, band) # bands) =
     (case map_of cfgs priority of
        None \<Rightarrow> None
      | Some newBandConfig \<Rightarrow>
          (case update_band_configs cfgs bands of
             None \<Rightarrow> None
           | Some bands' \<Rightarrow> Some ((priority, band\<lparr>pb_config := newBandConfig\<rparr>) # bands')))"

definition updateConfig :: "shard_config \<Rightarrow> registryShard \<Rightarrow> registryShard option" where
  "updateConfig newConfig s =
     (case update_band_configs (sc_PriorityBands newConfig) (sh_priorityBands s) of
        None \<Rightarrow> None
      | Some bands \<Rightarrow> Some (s\<lparr>sh_config := newConfig, sh_priorityBands := bands\<rparr>))"

subsection \<open>Statistics\<close>

definition shard_propagateStatsDelta :: "'r stats_delta \<Rightarrow> (registryShard \<times> 'r) stats_delta" where
  "shard_propagateStatsDelta onStatsDelta priority lenDelta byteSizeDelta = (\<lambda>(s, r).
     case map_of (sh_priorityBands s) priority of
       None \<Rightarrow> None
     | Some band \<Rightarrow>
         let band1 = band\<lparr>pb_len := pb_len band + lenDelta, pb_byteSize := pb_byteSize band + byteSizeDelta\<rparr>;
             s1 = s\<lparr>sh_priorityBands := AList.update priority band1 (sh_priorityBands s),
                    sh_totalLen := sh_totalLen s + lenDelta,
                    sh_totalByteSize := sh_totalByteSize s + byteSizeDelta\<rparr>
         in (case onStatsDelta priority lenDelta byteSizeDelta r of
               None \<Rightarrow> None
             | Some r1 \<Rightarrow> Some (s1, r1)))"

text \<open>
  A managed queue is reached through a pointer that the shard also holds: an operation on
  it runs with the shard as the parent state and leaves the queue in the shard.
\<close>

definition put_queue :: "flow_key \<Rightarrow> managedQueue \<Rightarrow> registryShard \<Rightarrow> registryShard" where
  "put_queue key mq s =
     (case map_of (sh_priorityBands s) (Priority key) of
        None \<Rightarrow> s
      | Some band \<Rightarrow> s\<lparr>sh_priorityBands := AList.update (Priority key)
            (band\<lparr>pb_queues := AList.update (ID key) mq (pb_queues band)\<rparr>) (sh_priorityBands s)\<rparr>)"

subsection \<open>The read-only band view\<close>

definition pb_Priority :: "priorityBand \<Rightarrow> int" where
  "pb_Priority band = band_Priority (pb_config band)"

definition FlowKeys :: "priorityBand \<Rightarrow> flow_key list" where
  "FlowKeys band = map (\<lambda>(fid, _). \<lparr>ID = fid, Priority = pb_Priority band\<rparr>) (pb_queues band)"

definition band_Queue_accessor :: "string \<Rightarrow> priorityBand \<Rightarrow> managedQueue option" where
  "band_Queue_accessor fid band = map_of (pb_queues band) fid"

text \<open>\<open>IterateQueues\<close> with a callback on a state, which may ask to stop.\<close>

fun iterate_queues :: "('s \<Rightarrow> managedQueue \<Rightarrow> bool \<times> 's) \<Rightarrow> managedQueue list \<Rightarrow> 's \<Rightarrow> 's" where
  "iterate_queues callback [] st = st"
| "iterate_queues callback (mq # mqs) st =
     (let (continue, st1) = callback st mq in if continue then iterate_queues callback mqs st1 else st1)"

definition IterateQueues :: "('s \<Rightarrow> managedQueue \<Rightarrow> bool \<times> 's) \<Rightarrow> priorityBand \<Rightarrow> 's \<Rightarrow> 's" where
  "IterateQueues callback band st = iterate_queues callback (map snd (pb_queues band)) st"

subsection \<open>Operations on a queue of the shard\<close>

type_synonym ('a, 'r) queue_op =
  "world \<times> managedQueue \<times> registryShard \<times> 'r \<Rightarrow> ('a \<times> world \<times> managedQueue \<times> registryShard \<times> 'r) option"

definition on_queue ::
  "flow_key \<Rightarrow> managedQueue \<Rightarrow> ('a, 'r) queue_op \<Rightarrow> world \<times> registryShard \<times> 'r \<Rightarrow>
   ('a \<times> world \<times> registryShard \<times> 'r) option" where
  "on_queue key mq f = (\<lambda>(w, s, r).
     case f (w, mq, s, r) of
       None \<Rightarrow> None
     | Some (x, w1, mq1, s1, r1) \<Rightarrow> Some (x, w1, put_queue key mq1 s1, r1))"

definition shard_Add ::
  "'r stats_delta \<Rightarrow> flow_key \<Rightarrow> managedQueue \<Rightarrow> queue_item \<Rightarrow> world \<times> registryShard \<times> 'r \<Rightarrow>
   (gerror option \<times> world \<times> registryShard \<times> 'r) option" where
  "shard_Add onStatsDelta key mq it st =
     on_queue key mq (mq_Add (sh_isDraining (fst (snd st))) (shard_propagateStatsDelta onStatsDelta) it) st"

definition shard_Remove ::
  "'r stats_delta \<Rightarrow> flow_key \<Rightarrow> managedQueue \<Rightarrow> queue_handle option \<Rightarrow> world \<times> registryShard \<times> 'r \<Rightarrow>
   ((gerror + queue_item) \<times> world \<times> registryShard \<times> 'r) option" where
  "shard_Remove onStatsDelta key mq handle =
     on_queue key mq (mq_Remove (shard_propagateStatsDelta onStatsDelta) handle)"

definition shard_Cleanup ::
  "'r stats_delta \<Rightarrow> flow_key \<Rightarrow> managedQueue \<Rightarrow> (queue_item \<Rightarrow> bool) \<Rightarrow> world \<times> registryShard \<times> 'r \<Rightarrow>
   (queue_item list \<times> world \<times> registryShard \<times> 'r) option" where
  "shard_Cleanup onStatsDelta key mq predicate =
     on_queue key mq (mq_Cleanup (shard_propagateStatsDelta onStatsDelta) predicate)"

definition shard_Drain ::
  "'r stats_delta \<Rightarrow> flow_key \<Rightarrow> managedQueue \<Rightarrow> world \<times> registryShard \<times> 'r \<Rightarrow>
   (queue_item list \<times> world \<times> registryShard \<times> 'r) option" where
  "shard_Drain onStatsDelta key mq =
     on_queue key mq (mq_Drain (shard_propagateStatsDelta onStatsDelta))"

subsection \<open>Invariant\<close>

definition band_elems :: "priorityBand \<Rightarrow> queue_item multiset" where
  "band_elems band = asum mq_elems (pb_queues band)"

definition band_inv :: "world \<Rightarrow> int \<Rightarrow> priorityBand \<Rightarrow> bool" where
  "band_inv w p band \<longleftrightarrow> distinct (map fst (pb_queues band)) \<and>
     (\<forall>(fid, mq)\<in>set (pb_queues band). mq_inv w mq \<and> mq_key mq = \<lparr>ID = fid, Priority = p\<rparr>) \<and>
     pb_len band = asum mq_len (pb_queues band) \<and> pb_byteSize band = asum mq_byteSize (pb_queues band)"

definition shard_elems :: "registryShard \<Rightarrow> queue_item multiset" where
  "shard_elems s = asum band_elems (sh_priorityBands s)"

definition levels_ok :: "registryShard \<Rightarrow> bool" where
  "levels_ok s \<longleftrightarrow> sorted_wrt (>) (sh_orderedPriorityLevels s) \<and>
     set (sh_orderedPriorityLevels s) = fst ` set (sh_priorityBands s)"

definition shard_inv :: "world \<Rightarrow> registryShard \<Rightarrow> bool" where
  "shard_inv w s \<longleftrightarrow> distinct (map fst (sh_priorityBands s)) \<and>
     (\<forall>(p, band)\<in>set (sh_priorityBands s). band_inv w p band) \<and>
     sh_totalLen s = asum pb_len (sh_priorityBands s) \<and>
     sh_totalByteSize s = asum pb_byteSize (sh_priorityBands s) \<and> levels_ok s"

text \<open>No item is in two places at once.\<close>

definition unique_ptrs :: "queue_item multiset \<Rightarrow> bool" where
  "unique_ptrs M \<longleftrightarrow> (\<forall>p. count (image_mset item_ptr M) p \<le> 1)"

lemma unique_ptrs_add: "unique_ptrs (M + N) \<Longrightarrow> unique_ptrs M \<and> ptrs M \<inter> ptrs N = {}"
proof -
  assume u: "unique_ptrs (M + N)"
  have le: "count (image_mset item_ptr M) p + count (image_mset item_ptr N) p \<le> 1" for p
    using u by (simp add: unique_ptrs_def)
  have pos: "p \<in> ptrs K \<Longrightarrow> 1 \<le> count (image_mset item_ptr K) p" for p K
    by (metis Suc_leI One_nat_def count_greater_zero_iff set_image_mset)
  have "unique_ptrs M" unfolding unique_ptrs_def using le add_leD1 by blast
  moreover have "p \<notin> ptrs M \<or> p \<notin> ptrs N" for p
    using le [of p] pos [of p M] pos [of p N] by linarith
  ultimately show ?thesis by blast
qed

subsection \<open>Replacing one queue\<close>

text \<open>The shard after a queue operation that changed the counters by \<open>dl\<close> and \<open>db\<close>.\<close>

definition set_queue :: "flow_key \<Rightarrow> managedQueue \<Rightarrow> int64 \<Rightarrow> int64 \<Rightarrow> registryShard \<Rightarrow> registryShard" where
  "set_queue key mq dl db s =
     (case map_of (sh_priorityBands s) (Priority key) of
        None \<Rightarrow> s
      | Some band \<Rightarrow> s\<lparr>sh_totalLen := sh_totalLen s + dl, sh_totalByteSize := sh_totalByteSize s + db,
          sh_priorityBands := AList.update (Priority key)
            (band\<lparr>pb_len := pb_len band + dl, pb_byteSize := pb_byteSize band + db,
                  pb_queues := AList.update (ID key) mq (pb_queues band)\<rparr>) (sh_priorityBands s)\<rparr>)"

lemma ManagedQueue_Inr:
  "ManagedQueue key s = Inr mq \<longleftrightarrow> (\<exists>band. map_of (sh_priorityBands s) (Priority key) = Some band \<and>
     map_of (pb_queues band) (ID key) = Some mq)"
  by (auto simp: ManagedQueue_def split: option.splits)

lemma put_queue_set_queue: "put_queue key mq s = set_queue key mq 0 0 s"
  by (simp add: put_queue_def set_queue_def split: option.split)

lemma put_queue_propagate:
  assumes "map_of (sh_priorityBands s) (Priority key) = Some band"
    and "shard_propagateStatsDelta onStatsDelta (Priority key) dl db (s, r) = Some (s1, r1)"
  shows "put_queue key mq s1 = set_queue key mq dl db s" "onStatsDelta (Priority key) dl db r = Some r1"
  using assms
  by (auto simp: shard_propagateStatsDelta_def put_queue_def set_queue_def update_conv' Let_def split: option.splits)

lemma shard_propagate_Some:
  assumes "ManagedQueue key s = Inr mq" "onStatsDelta (Priority key) dl db r = Some r1"
  shows "\<exists>s1. shard_propagateStatsDelta onStatsDelta (Priority key) dl db (s, r) = Some (s1, r1)"
  using assms by (auto simp: shard_propagateStatsDelta_def ManagedQueue_Inr Let_def)

lemma band_inv_queue:
  "band_inv w p band \<Longrightarrow> (fid, mq) \<in> set (pb_queues band) \<Longrightarrow>
     mq_inv w mq \<and> mq_key mq = \<lparr>ID = fid, Priority = p\<rparr>"
  by (auto simp: band_inv_def)

lemma band_invI:
  assumes "distinct (map fst (pb_queues band))"
    and "\<And>fid mq. (fid, mq) \<in> set (pb_queues band) \<Longrightarrow> mq_inv w mq \<and> mq_key mq = \<lparr>ID = fid, Priority = p\<rparr>"
    and "pb_len band = asum mq_len (pb_queues band)" "pb_byteSize band = asum mq_byteSize (pb_queues band)"
  shows "band_inv w p band"
  using assms by (auto simp: band_inv_def)

lemma asum_ptrs: "(k, v) \<in> set xs \<Longrightarrow> ptrs (f v) \<subseteq> ptrs (asum f xs)"
  using asum_mset_mem [of _ f xs] by (intro image_mono) blast

lemma queue_ptrs_band: "(fid, mq) \<in> set (pb_queues band) \<Longrightarrow> ptrs (mq_elems mq) \<subseteq> ptrs (band_elems band)"
  unfolding band_elems_def by (rule asum_ptrs)

lemma band_inv_frame:
  assumes w: "world_ok w" and b: "band_inv w p band" and t: "touches X w w'" and X: "X \<inter> ptrs (band_elems band) = {}"
  shows "band_inv w' p band"
proof -
  have "mq_inv w' mq" if "(fid, mq) \<in> set (pb_queues band)" for fid mq
  proof -
    have "X \<inter> ptrs (mq_elems mq) = {}" using queue_ptrs_band [OF that] X by blast
    then show ?thesis using mq_inv_frame [OF w _ t] band_inv_queue [OF b that] by blast
  qed
  then have "mq_inv w' mq \<and> mq_key mq = \<lparr>ID = fid, Priority = p\<rparr>" if "(fid, mq) \<in> set (pb_queues band)" for fid mq
    using that band_inv_queue [OF b that] by blast
  then show ?thesis using b by (intro band_invI) (auto simp: band_inv_def)
qed

lemma shard_band_inv:
  "shard_inv w s \<Longrightarrow> map_of (sh_priorityBands s) p = Some band \<Longrightarrow> band_inv w p band"
  by (auto simp: shard_inv_def dest!: map_of_SomeD)

lemma shard_queue_inv:
  assumes "shard_inv w s" "ManagedQueue key s = Inr mq"
  shows "mq_inv w mq" "mq_key mq = key"
proof -
  obtain band where b: "map_of (sh_priorityBands s) (Priority key) = Some band"
    and m: "map_of (pb_queues band) (ID key) = Some mq" using assms(2) by (auto simp: ManagedQueue_Inr)
  note q = band_inv_queue [OF shard_band_inv [OF assms(1) b] map_of_SomeD [OF m]]
  show "mq_inv w mq" "mq_key mq = key" using q by simp_all
qed

text \<open>The items outside one queue.\<close>

definition other_elems :: "flow_key \<Rightarrow> registryShard \<Rightarrow> queue_item multiset" where
  "other_elems key s = (case map_of (sh_priorityBands s) (Priority key) of
     None \<Rightarrow> shard_elems s
   | Some band \<Rightarrow> asum band_elems (AList.delete (Priority key) (sh_priorityBands s)) +
       asum mq_elems (AList.delete (ID key) (pb_queues band)))"

lemma shard_elems_split:
  assumes "shard_inv w s" "ManagedQueue key s = Inr mq"
  shows "shard_elems s = other_elems key s + mq_elems mq"
proof -
  obtain band where b: "map_of (sh_priorityBands s) (Priority key) = Some band"
    and m: "map_of (pb_queues band) (ID key) = Some mq" using assms(2) by (auto simp: ManagedQueue_Inr)
  have "asum band_elems (AList.delete (Priority key) (sh_priorityBands s)) + band_elems band = shard_elems s"
    unfolding shard_elems_def using assms(1) b by (intro asum_delete) (auto simp: shard_inv_def)
  moreover have "asum mq_elems (AList.delete (ID key) (pb_queues band)) + mq_elems mq = band_elems band"
    unfolding band_elems_def using shard_band_inv [OF assms(1) b] m by (intro asum_delete) (auto simp: band_inv_def)
  ultimately have "shard_elems s = asum band_elems (AList.delete (Priority key) (sh_priorityBands s)) +
      (asum mq_elems (AList.delete (ID key) (pb_queues band)) + mq_elems mq)" by simp
  then show ?thesis by (simp add: other_elems_def b ac_simps)
qed

lemma set_queue_inv:
  assumes w: "world_ok w" and inv: "shard_inv w s" and at: "ManagedQueue key s = Inr mq"
    and t: "touches X w w'" and X: "X \<inter> ptrs (other_elems key s) = {}"
    and mq': "mq_inv w' mq'" "mq_key mq' = mq_key mq"
    and d: "mq_len mq' = mq_len mq + dl" "mq_byteSize mq' = mq_byteSize mq + db"
  shows "shard_inv w' (set_queue key mq' dl db s)"
proof -
  obtain band where b: "map_of (sh_priorityBands s) (Priority key) = Some band"
    and m: "map_of (pb_queues band) (ID key) = Some mq" using at by (auto simp: ManagedQueue_Inr)
  define band' where "band' = band\<lparr>pb_len := pb_len band + dl, pb_byteSize := pb_byteSize band + db,
    pb_queues := AList.update (ID key) mq' (pb_queues band)\<rparr>"
  have bi: "band_inv w (Priority key) band" by (rule shard_band_inv [OF inv b])
  have dist: "distinct (map fst (sh_priorityBands s))" using inv by (simp add: shard_inv_def)
  have distq: "distinct (map fst (pb_queues band))" using bi by (simp add: band_inv_def)
  have other: "band_inv w' p bd" if "p \<noteq> Priority key" "(p, bd) \<in> set (sh_priorityBands s)" for p bd
  proof -
    have "(p, bd) \<in> set (AList.delete (Priority key) (sh_priorityBands s))" using that by (simp add: mem_delete)
    then have "ptrs (band_elems bd) \<subseteq> ptrs (other_elems key s)"
      using asum_ptrs [of p bd _ band_elems] by (auto simp: other_elems_def b)
    then have X': "X \<inter> ptrs (band_elems bd) = {}" using X by blast
    have "band_inv w p bd" using inv that(2) by (auto simp: shard_inv_def)
    then show ?thesis by (rule band_inv_frame [OF w _ t X'])
  qed
  have otherq: "mq_inv w' q \<and> mq_key q = \<lparr>ID = fid, Priority = Priority key\<rparr>"
    if "fid \<noteq> ID key" "(fid, q) \<in> set (pb_queues band)" for fid q
  proof -
    have "(fid, q) \<in> set (AList.delete (ID key) (pb_queues band))" using that by (simp add: mem_delete)
    then have "ptrs (mq_elems q) \<subseteq> ptrs (other_elems key s)"
      using asum_ptrs [of fid q _ mq_elems] by (auto simp: other_elems_def b)
    then have X': "X \<inter> ptrs (mq_elems q) = {}" using X by blast
    show ?thesis using band_inv_queue [OF bi that(2)] mq_inv_frame [OF w _ t X'] by blast
  qed
  have "mq_key mq = key" by (rule shard_queue_inv(2) [OF inv at])
  then have "band_inv w' (Priority key) band'"
    using otherq mq' d bi distq
    by (intro band_invI)
      (auto simp: band_inv_def band'_def distinct_update mem_update [OF distq] asum_update_diff [OF m])
  then have bands: "band_inv w' p bd" if "(p, bd) \<in> set (AList.update (Priority key) band' (sh_priorityBands s))" for p bd
    using that other by (auto simp: mem_update [OF dist])
  have keys: "map fst (AList.update (Priority key) band' (sh_priorityBands s)) = map fst (sh_priorityBands s)"
    by (rule keys_update [OF b])
  have s': "set_queue key mq' dl db s = s\<lparr>sh_totalLen := sh_totalLen s + dl,
      sh_totalByteSize := sh_totalByteSize s + db,
      sh_priorityBands := AList.update (Priority key) band' (sh_priorityBands s)\<rparr>"
    by (simp add: set_queue_def b band'_def)
  have sums: "asum pb_len (AList.update (Priority key) band' (sh_priorityBands s)) = asum pb_len (sh_priorityBands s) + dl"
    "asum pb_byteSize (AList.update (Priority key) band' (sh_priorityBands s)) = asum pb_byteSize (sh_priorityBands s) + db"
    by (simp_all add: asum_update_diff [OF b] band'_def)
  have lv: "levels_ok (set_queue key mq' dl db s)"
    using inv arg_cong [OF keys, of set] by (simp add: shard_inv_def levels_ok_def s')
  show ?thesis
    unfolding shard_inv_def
    using lv bands inv keys sums by (simp add: s' shard_inv_def) blast
qed

lemma set_queue_at:
  "ManagedQueue key s = Inr mq \<Longrightarrow> ManagedQueue key (set_queue key mq' dl db s) = Inr mq'"
  by (auto simp: ManagedQueue_Inr set_queue_def update_conv')

lemma set_queue_other: "other_elems key (set_queue key mq dl db s) = other_elems key s"
  by (auto simp: other_elems_def set_queue_def update_conv' shard_elems_def split: option.split)

lemma set_queue_elems:
  assumes "shard_inv w' (set_queue key mq' dl db s)" "ManagedQueue key s = Inr mq"
  shows "shard_elems (set_queue key mq' dl db s) = other_elems key s + mq_elems mq'"
  using shard_elems_split [OF assms(1) set_queue_at [OF assms(2)]] by (simp add: set_queue_other)

lemma set_queue_frame [simp]:
  "sh_id (set_queue key mq dl db s) = sh_id s" "sh_config (set_queue key mq dl db s) = sh_config s"
  "sh_isDraining (set_queue key mq dl db s) = sh_isDraining s"
  "sh_orderedPriorityLevels (set_queue key mq dl db s) = sh_orderedPriorityLevels s"
  by (simp_all add: set_queue_def split: option.split)

lemma shard_Add_draining:
  "sh_isDraining s \<Longrightarrow> ManagedQueue key s = Inr mq \<Longrightarrow>
     shard_Add onStatsDelta key mq it (w, s, r) = Some (Some (Sentinel ErrShardDraining), w, put_queue key mq s, r)"
  by (simp add: shard_Add_def on_queue_def mq_Add_def)

lemma shard_Add_ok:
  assumes w: "world_ok w" and inv: "shard_inv w s" and at: "ManagedQueue key s = Inr mq" and dr: "\<not> sh_isDraining s"
    and p: "item_ptr it \<notin> ptrs (shard_elems s)" and room: "Suc (size (mq_elems mq)) < 2 ^ 63"
    and r: "onStatsDelta (Priority key) 1 (item_size it) r = Some r1"
  shows "\<exists>w' mq'. shard_Add onStatsDelta key mq it (w, s, r) =
      Some (None, w', set_queue key mq' 1 (item_size it) s, r1) \<and>
    world_ok w' \<and> touches {item_ptr it} w w' \<and> mq_elems mq' = add_mset it (mq_elems mq) \<and> mq_policy mq' = mq_policy mq \<and>
    shard_inv w' (set_queue key mq' 1 (item_size it) s) \<and>
    shard_elems (set_queue key mq' 1 (item_size it) s) = add_mset it (shard_elems s)"
proof -
  note el = shard_elems_split [OF inv at] and q = shard_queue_inv [OF inv at]
  obtain s1 where s1: "shard_propagateStatsDelta onStatsDelta (Priority (mq_key mq)) 1 (item_size it) (s, r) = Some (s1, r1)"
    using shard_propagate_Some [where onStatsDelta = onStatsDelta, OF at r] q(2) by auto
  have pq: "item_ptr it \<notin> ptrs (mq_elems mq)" using p el by auto
  obtain w' mq' where A: "mq_Add False (shard_propagateStatsDelta onStatsDelta) it (w, mq, s, r) = Some (None, w', mq', s1, r1)"
    "world_ok w'" "touches {item_ptr it} w w'" "mq_inv w' mq'" "mq_elems mq' = add_mset it (mq_elems mq)"
    "mq_key mq' = mq_key mq" "mq_len mq' = mq_len mq + 1" "mq_byteSize mq' = mq_byteSize mq + item_size it"
    "mq_policy mq' = mq_policy mq"
    using mq_Add_ok [where onStatsDelta = "shard_propagateStatsDelta onStatsDelta", OF w q(1) pq room s1] by blast
  obtain band where b: "map_of (sh_priorityBands s) (Priority key) = Some band" using at by (auto simp: ManagedQueue_Inr)
  have put: "put_queue key mq' s1 = set_queue key mq' 1 (item_size it) s"
    using put_queue_propagate(1) [OF b] s1 q(2) by metis
  have "{item_ptr it} \<inter> ptrs (other_elems key s) = {}" using p el by auto
  then have inv': "shard_inv w' (set_queue key mq' 1 (item_size it) s)"
    using set_queue_inv [OF w inv at A(3) _ A(4,6,7,8)] by blast
  moreover have "shard_elems (set_queue key mq' 1 (item_size it) s) = add_mset it (shard_elems s)"
    using set_queue_elems [OF inv' at] A(5) el by simp
  ultimately show ?thesis using A dr put by (auto simp: shard_Add_def on_queue_def)
qed

lemma shard_Remove_ok:
  assumes w: "world_ok w" and inv: "shard_inv w s" and at: "ManagedQueue key s = Inr mq"
    and u: "unique_ptrs (shard_elems s)" and it: "it \<in># mq_elems mq"
    and r: "onStatsDelta (Priority key) (-1) (- item_size it) r = Some r1"
  shows "\<exists>mq'. shard_Remove onStatsDelta key mq (Handle w it) (w, s, r) =
      Some (Inr it, invalidate_item it w, set_queue key mq' (-1) (- item_size it) s, r1) \<and>
    mq_elems mq' = mq_elems mq - {#it#} \<and> mq_policy mq' = mq_policy mq \<and>
    shard_inv (invalidate_item it w) (set_queue key mq' (-1) (- item_size it) s) \<and>
    shard_elems (set_queue key mq' (-1) (- item_size it) s) = shard_elems s - {#it#}"
proof -
  note el = shard_elems_split [OF inv at] and q = shard_queue_inv [OF inv at]
  obtain s1 where s1: "shard_propagateStatsDelta onStatsDelta (Priority (mq_key mq)) (-1) (- item_size it) (s, r) = Some (s1, r1)"
    using shard_propagate_Some [where onStatsDelta = onStatsDelta, OF at r] q(2) by auto
  let ?w' = "invalidate_item it w"
  obtain mq' where A: "mq_Remove (shard_propagateStatsDelta onStatsDelta) (Handle w it) (w, mq, s, r) = Some (Inr it, ?w', mq', s1, r1)"
    "mq_inv ?w' mq'" "mq_elems mq' = mq_elems mq - {#it#}" "mq_key mq' = mq_key mq"
    "mq_len mq' = mq_len mq - 1" "mq_byteSize mq' = mq_byteSize mq - item_size it" "mq_policy mq' = mq_policy mq"
    using mq_Remove_ok [where onStatsDelta = "shard_propagateStatsDelta onStatsDelta", OF w q(1) it s1] by blast
  obtain band where b: "map_of (sh_priorityBands s) (Priority key) = Some band" using at by (auto simp: ManagedQueue_Inr)
  have put: "put_queue key mq' s1 = set_queue key mq' (-1) (- item_size it) s"
    using put_queue_propagate(1) [OF b] s1 q(2) by metis
  have "ptrs (other_elems key s) \<inter> ptrs (mq_elems mq) = {}" using unique_ptrs_add u el by simp
  then have X: "{item_ptr it} \<inter> ptrs (other_elems key s) = {}" using it by blast
  have t: "touches {item_ptr it} w ?w'" by (rule touches_invalidate_item) simp
  have inv': "shard_inv ?w' (set_queue key mq' (-1) (- item_size it) s)"
    by (rule set_queue_inv [OF w inv at t X A(2,4)]) (simp_all add: A(5,6))
  moreover have "shard_elems (set_queue key mq' (-1) (- item_size it) s) = shard_elems s - {#it#}"
    using set_queue_elems [OF inv' at] A(3) el it by simp
  ultimately show ?thesis using A put by (auto simp: shard_Remove_def on_queue_def)
qed

text \<open>\<open>Cleanup\<close> and \<open>Drain\<close> remove the items \<open>rs\<close> of one queue at once.\<close>

lemma shard_removal_ok:
  assumes w: "world_ok w" and inv: "shard_inv w s" and at: "ManagedQueue key s = Inr mq"
    and u: "unique_ptrs (shard_elems s)" and part: "mq_elems mq = mset rs + mq_elems mq'"
    and f: "f (w, mq, s, r) = Some (rs, fold invalidate_item rs w, mq', s1, r1)"
    and mq': "mq_inv (fold invalidate_item rs w) mq'" "mq_key mq' = mq_key mq"
      "mq_len mq' = mq_len mq - of_nat (length rs)" "mq_byteSize mq' = mq_byteSize mq - (\<Sum>it\<leftarrow>rs. item_size it)"
    and d: "if rs = [] then (s1, r1) = (s, r)
      else shard_propagateStatsDelta onStatsDelta (Priority (mq_key mq)) (- of_nat (length rs))
        (- (\<Sum>it\<leftarrow>rs. item_size it)) (s, r) = Some (s1, r1)"
  shows "on_queue key mq f (w, s, r) = Some (rs, fold invalidate_item rs w,
      set_queue key mq' (- of_nat (length rs)) (- (\<Sum>it\<leftarrow>rs. item_size it)) s, r1)"
    and "shard_inv (fold invalidate_item rs w) (set_queue key mq' (- of_nat (length rs)) (- (\<Sum>it\<leftarrow>rs. item_size it)) s)"
    and "shard_elems (set_queue key mq' (- of_nat (length rs)) (- (\<Sum>it\<leftarrow>rs. item_size it)) s) + mset rs = shard_elems s"
    and "if rs = [] then r1 = r
      else onStatsDelta (Priority key) (- of_nat (length rs)) (- (\<Sum>it\<leftarrow>rs. item_size it)) r = Some r1"
proof -
  let ?w' = "fold invalidate_item rs w"
  note el = shard_elems_split [OF inv at] and q = shard_queue_inv [OF inv at]
  obtain band where b: "map_of (sh_priorityBands s) (Priority key) = Some band" using at by (auto simp: ManagedQueue_Inr)
  have put: "put_queue key mq' s1 = set_queue key mq' (- of_nat (length rs)) (- (\<Sum>it\<leftarrow>rs. item_size it)) s"
  proof (cases "rs = []")
    case True
    then show ?thesis using d by (simp add: put_queue_set_queue)
  next
    case False
    then show ?thesis using put_queue_propagate(1) [OF b, of onStatsDelta] d q(2) by auto
  qed
  then show "on_queue key mq f (w, s, r) = Some (rs, ?w', set_queue key mq' (- of_nat (length rs)) (- (\<Sum>it\<leftarrow>rs. item_size it)) s, r1)"
    by (simp add: on_queue_def f)
  show "if rs = [] then r1 = r
      else onStatsDelta (Priority key) (- of_nat (length rs)) (- (\<Sum>it\<leftarrow>rs. item_size it)) r = Some r1"
    using d put_queue_propagate(2) [OF b] q(2) by (auto split: if_splits)
  have "ptrs (other_elems key s) \<inter> ptrs (mq_elems mq) = {}" using unique_ptrs_add u el by simp
  then have X: "ptrs (mq_elems mq) \<inter> ptrs (other_elems key s) = {}" by blast
  have t: "touches (ptrs (mq_elems mq)) w ?w'" by (rule touches_invalidate_items) (auto simp: part)
  show inv': "shard_inv ?w' (set_queue key mq' (- of_nat (length rs)) (- (\<Sum>it\<leftarrow>rs. item_size it)) s)"
    by (rule set_queue_inv [OF w inv at t X mq'(1,2)]) (simp_all add: mq'(3,4))
  show "shard_elems (set_queue key mq' (- of_nat (length rs)) (- (\<Sum>it\<leftarrow>rs. item_size it)) s) + mset rs = shard_elems s"
    using set_queue_elems [OF inv' at] el part by (simp add: ac_simps)
qed

subsection \<open>Administration keeps the invariant\<close>

lemma rev_sort_descending: "distinct xs \<Longrightarrow> sorted_wrt (>) (rev (sort (xs :: int list)))"
  by (simp add: sorted_wrt_rev strict_sorted_iff)

lemma sorted_wrt_remove1: "sorted_wrt P xs \<Longrightarrow> sorted_wrt P (remove1 x xs)"
  by (induction xs) (auto dest: notin_set_remove1)

lemma levels_distinct: "levels_ok s \<Longrightarrow> distinct (sh_orderedPriorityLevels s)"
  unfolding levels_ok_def by (induction "sh_orderedPriorityLevels s") (auto simp: sorted_wrt_iff_nth_less distinct_conv_nth linorder_neq_iff)

lemma shard_invI:
  assumes "distinct (map fst (sh_priorityBands s))"
    and "\<And>p band. (p, band) \<in> set (sh_priorityBands s) \<Longrightarrow> band_inv w p band"
    and "sh_totalLen s = asum pb_len (sh_priorityBands s)" "sh_totalByteSize s = asum pb_byteSize (sh_priorityBands s)"
    and "levels_ok s"
  shows "shard_inv w s"
  using assms by (auto simp: shard_inv_def)

lemma initPriorityBand_ok:
  assumes inv: "shard_inv w s" and new: "map_of (sh_priorityBands s) (band_Priority c) = None"
    and fp: "band_FairnessPolicy c = Some fp"
  shows "\<exists>s'. initPriorityBand c s = Some s' \<and> shard_inv w s' \<and> shard_elems s' = shard_elems s \<and>
    map fst (sh_priorityBands s') = map fst (sh_priorityBands s) @ [band_Priority c] \<and>
    sh_id s' = sh_id s \<and> sh_config s' = sh_config s \<and> sh_isDraining s' = sh_isDraining s \<and>
    sh_totalLen s' = sh_totalLen s \<and> sh_totalByteSize s' = sh_totalByteSize s \<and>
    (\<forall>p bd. map_of (sh_priorityBands s) p = Some bd \<longrightarrow> map_of (sh_priorityBands s') p = Some bd)"
proof -
  define band where "band = \<lparr>pb_fairnessPolicy = fp, pb_policyState = NewState fp, pb_config = c,
                      pb_queues = [], pb_byteSize = 0, pb_len = 0\<rparr>"
  define s' where "s' = s\<lparr>sh_priorityBands := AList.update (band_Priority c) band (sh_priorityBands s),
                     sh_orderedPriorityLevels :=
                       rev (sort (sh_orderedPriorityLevels s @ [band_Priority c]))\<rparr>"
  have dist: "distinct (map fst (sh_priorityBands s))" and lv: "levels_ok s"
    using inv by (simp_all add: shard_inv_def)
  have notin: "band_Priority c \<notin> fst ` set (sh_priorityBands s)" using new by (simp add: map_of_eq_None_iff)
  have keys: "map fst (AList.update (band_Priority c) band (sh_priorityBands s)) = map fst (sh_priorityBands s) @ [band_Priority c]"
    by (rule keys_update_new [OF new])
  then have keyset: "fst ` set (AList.update (band_Priority c) band (sh_priorityBands s)) = insert (band_Priority c) (fst ` set (sh_priorityBands s))"
    by (metis list.set_map set_append list.simps(15) empty_set Un_insert_right sup_bot_right)
  have "band_inv w (band_Priority c) band" by (simp add: band_inv_def band_def)
  then have "band_inv w p bd" if "(p, bd) \<in> set (sh_priorityBands s')" for p bd
    using that inv by (auto simp: s'_def mem_update [OF dist] shard_inv_def)
  moreover have "levels_ok s'"
    using lv levels_distinct [OF lv] notin keyset
    by (simp add: levels_ok_def s'_def rev_sort_descending del: sort_append)
  ultimately have "shard_inv w s'"
    using inv by (intro shard_invI) (simp_all add: s'_def distinct_update shard_inv_def asum_update_new [OF new] band_def)
  moreover have "shard_elems s' = shard_elems s"
    by (simp add: shard_elems_def s'_def asum_update_new [OF new] band_elems_def) (simp add: band_def)
  moreover have "initPriorityBand c s = Some s'" by (simp add: initPriorityBand_def fp s'_def band_def)
  ultimately show ?thesis using keys new by (auto simp: s'_def update_conv')
qed

lemma synchronizeFlow_ok:
  assumes inv: "shard_inv w s" and b: "map_of (sh_priorityBands s) (Priority key) = Some band"
    and q: "sq_inv w q" "sq_elems q = {#}"
  shows "\<exists>s' mq. synchronizeFlow key policy q s = Some s' \<and> shard_inv w s' \<and> shard_elems s' = shard_elems s \<and>
    ManagedQueue key s' = Inr mq \<and> map fst (sh_priorityBands s') = map fst (sh_priorityBands s) \<and>
    sh_id s' = sh_id s \<and> sh_config s' = sh_config s \<and> sh_isDraining s' = sh_isDraining s \<and>
    sh_totalLen s' = sh_totalLen s \<and> sh_totalByteSize s' = sh_totalByteSize s \<and>
    (\<forall>p. map_option pb_len (map_of (sh_priorityBands s') p) = map_option pb_len (map_of (sh_priorityBands s) p)) \<and>
    (\<forall>p. map_option pb_byteSize (map_of (sh_priorityBands s') p) = map_option pb_byteSize (map_of (sh_priorityBands s) p)) \<and>
    (\<forall>k mq. ManagedQueue k s = Inr mq \<longrightarrow> ManagedQueue k s' = Inr mq)"
proof (cases "map_of (pb_queues band) (ID key)")
  case None
  define mq where "mq = newManagedQueue q policy key"
  define band' where "band' = band\<lparr>pb_queues := AList.update (ID key) mq (pb_queues band)\<rparr>"
  define s' where "s' = s\<lparr>sh_priorityBands := AList.update (Priority key) band' (sh_priorityBands s)\<rparr>"
  have bi: "band_inv w (Priority key) band" by (rule shard_band_inv [OF inv b])
  have dist: "distinct (map fst (sh_priorityBands s))" using inv by (simp add: shard_inv_def)
  have distq: "distinct (map fst (pb_queues band))" using bi by (simp add: band_inv_def)
  have mq: "mq_inv w mq" unfolding mq_def by (rule mq_inv_new [OF q])
  have z: "mq_len mq = 0" "mq_byteSize mq = 0" "mq_key mq = key" "mq_elems mq = {#}"
    using q by (simp_all add: mq_def newManagedQueue_def)
  have "band_inv w (Priority key) band'"
    using bi mq z
    by (intro band_invI) (auto simp: band'_def band_inv_def distinct_update mem_update [OF distq] asum_update_new [OF None])
  then have "band_inv w p bd" if "(p, bd) \<in> set (sh_priorityBands s')" for p bd
    using that inv by (auto simp: s'_def mem_update [OF dist] shard_inv_def)
  moreover have keys: "map fst (sh_priorityBands s') = map fst (sh_priorityBands s)"
    unfolding s'_def by (simp add: keys_update [OF b])
  moreover have "levels_ok s'" using inv arg_cong [OF keys, of set] by (simp add: levels_ok_def shard_inv_def s'_def)
  ultimately have "shard_inv w s'"
    using inv by (intro shard_invI) (simp_all add: s'_def shard_inv_def asum_update_diff [OF b] band'_def distinct_update)
  moreover have "band_elems band' = band_elems band"
    using z by (simp add: band_elems_def band'_def asum_update_new [OF None])
  then have "shard_elems s' = shard_elems s"
    unfolding shard_elems_def s'_def by (simp add: asum_update_same [OF b])
  moreover have "ManagedQueue key s' = Inr mq" by (simp add: ManagedQueue_Inr s'_def update_conv' band'_def)
  moreover have "ManagedQueue k s' = Inr m" if "ManagedQueue k s = Inr m" for k m
    using that None b by (cases "Priority k = Priority key"; cases "ID k = ID key")
      (auto simp: ManagedQueue_Inr s'_def update_conv' band'_def)
  moreover have "synchronizeFlow key policy q s = Some s'"
    by (simp add: synchronizeFlow_def b None s'_def band'_def mq_def)
  ultimately show ?thesis using keys b by (auto simp: s'_def update_conv' band'_def)
next
  case (Some mq)
  then show ?thesis using inv b by (auto simp: synchronizeFlow_def ManagedQueue_Inr)
qed

lemma mq_empty: "mq_inv w mq \<Longrightarrow> mq_elems mq = {#} \<Longrightarrow> mq_len mq = 0 \<and> mq_byteSize mq = 0"
  using sq.Len [of w "mq_queue mq"] sq.ByteSize [of w "mq_queue mq"] by (simp add: mq_inv_def)

lemma asum_zero: "(\<And>k v. (k, v) \<in> set xs \<Longrightarrow> f v = 0) \<Longrightarrow> asum f xs = 0"
proof -
  assume "\<And>k v. (k, v) \<in> set xs \<Longrightarrow> f v = 0"
  then have "asum f xs = asum (\<lambda>_. 0) xs" by (rule asum_cong)
  also have "\<dots> = 0" by (induction xs) auto
  finally show ?thesis .
qed

lemma asum_empty: "asum f xs = ({#} :: 'a multiset) \<Longrightarrow> (k, v) \<in> set xs \<Longrightarrow> f v = {#}"
  by (induction xs) auto

lemma band_empty:
  assumes "band_inv w p band" "band_elems band = {#}"
  shows "pb_len band = 0" "pb_byteSize band = 0"
proof -
  have "mq_len mq = 0 \<and> mq_byteSize mq = 0" if "(fid, mq) \<in> set (pb_queues band)" for fid mq
    using band_inv_queue [OF assms(1) that] mq_empty asum_empty [OF assms(2) [unfolded band_elems_def] that] by blast
  then have "asum mq_len (pb_queues band) = 0" "asum mq_byteSize (pb_queues band) = 0"
    by (intro asum_zero; blast)+
  then show "pb_len band = 0" "pb_byteSize band = 0" using assms(1) by (simp_all add: band_inv_def)
qed


lemma deleteFlow_frame:
  "map fst (sh_priorityBands (deleteFlow key s)) = map fst (sh_priorityBands s)"
  "ManagedQueue k (deleteFlow key s) = Inr mq \<longleftrightarrow> k \<noteq> key \<and> ManagedQueue k s = Inr mq"
  "map_option pb_len (map_of (sh_priorityBands (deleteFlow key s)) p) = map_option pb_len (map_of (sh_priorityBands s) p)"
  "map_option pb_byteSize (map_of (sh_priorityBands (deleteFlow key s)) p) = map_option pb_byteSize (map_of (sh_priorityBands s) p)"
  "sh_id (deleteFlow key s) = sh_id s" "sh_config (deleteFlow key s) = sh_config s"
  "sh_isDraining (deleteFlow key s) = sh_isDraining s"
  "sh_totalLen (deleteFlow key s) = sh_totalLen s" "sh_totalByteSize (deleteFlow key s) = sh_totalByteSize s"
  by (auto simp: deleteFlow_def ManagedQueue_Inr update_conv' keys_update delete_conv'
      intro: flow_key.equality split: option.splits if_splits)

lemma deleteFlow_ok:
  assumes inv: "shard_inv w s" and e: "\<And>mq. ManagedQueue key s = Inr mq \<Longrightarrow> mq_elems mq = {#}"
  shows "shard_inv w (deleteFlow key s) \<and> shard_elems (deleteFlow key s) = shard_elems s"
proof (cases "map_of (sh_priorityBands s) (Priority key)")
  case None
  then show ?thesis using inv by (simp add: deleteFlow_def)
next
  case b: (Some band)
  define band' where "band' = band\<lparr>pb_queues := AList.delete (ID key) (pb_queues band)\<rparr>"
  have s': "deleteFlow key s = s\<lparr>sh_priorityBands := AList.update (Priority key) band' (sh_priorityBands s)\<rparr>"
    by (simp add: deleteFlow_def b band'_def)
  have bi: "band_inv w (Priority key) band" by (rule shard_band_inv [OF inv b])
  have dist: "distinct (map fst (sh_priorityBands s))" using inv by (simp add: shard_inv_def)
  have distq: "distinct (map fst (pb_queues band))" using bi by (simp add: band_inv_def)
  have gone: "asum f (AList.delete (ID key) (pb_queues band)) = asum f (pb_queues band)"
    if "\<And>mq. mq_inv w mq \<Longrightarrow> mq_elems mq = {#} \<Longrightarrow> f mq = 0" for f :: "managedQueue \<Rightarrow> 'x::cancel_comm_monoid_add"
  proof (cases "map_of (pb_queues band) (ID key)")
    case None
    then show ?thesis by (simp add: delete_id map_of_eq_None_iff)
  next
    case (Some mq)
    then have "f mq = 0"
      using that e b band_inv_queue [OF bi map_of_SomeD [OF Some]] by (auto simp: ManagedQueue_Inr)
    then show ?thesis using asum_delete [OF distq Some, of f] by simp
  qed
  have sums: "asum mq_len (pb_queues band') = asum mq_len (pb_queues band)"
    "asum mq_byteSize (pb_queues band') = asum mq_byteSize (pb_queues band)"
    "band_elems band' = band_elems band"
    unfolding band'_def band_elems_def by (simp_all add: gone mq_empty)
  have "band_inv w (Priority key) band'"
    using bi sums distq
    by (intro band_invI) (auto simp: band'_def band_inv_def distinct_delete mem_delete)
  then have "band_inv w p bd" if "(p, bd) \<in> set (sh_priorityBands (deleteFlow key s))" for p bd
    using that inv by (auto simp: s' mem_update [OF dist] shard_inv_def)
  moreover have "levels_ok (deleteFlow key s)"
    using inv arg_cong [OF deleteFlow_frame(1) [of key s], of set] by (simp add: levels_ok_def shard_inv_def s')
  ultimately have "shard_inv w (deleteFlow key s)"
    using inv by (intro shard_invI) (simp_all add: s' shard_inv_def asum_update_diff [OF b] band'_def distinct_update)
  moreover have "shard_elems (deleteFlow key s) = shard_elems s"
    unfolding shard_elems_def s' by (simp add: asum_update_same [OF b] sums)
  ultimately show ?thesis by blast
qed

lemma deletePriorityBand_ok:
  assumes inv: "shard_inv w s" and e: "\<And>band. map_of (sh_priorityBands s) p = Some band \<Longrightarrow> band_elems band = {#}"
  shows "shard_inv w (shard_deletePriorityBand p s) \<and> shard_elems (shard_deletePriorityBand p s) = shard_elems s"
proof -
  let ?s = "shard_deletePriorityBand p s"
  have dist: "distinct (map fst (sh_priorityBands s))" and lv: "levels_ok s" using inv by (simp_all add: shard_inv_def)
  have gone: "asum f (AList.delete p (sh_priorityBands s)) = asum f (sh_priorityBands s)"
    if "\<And>band. band_inv w p band \<Longrightarrow> band_elems band = {#} \<Longrightarrow> f band = 0" for f :: "priorityBand \<Rightarrow> 'x::cancel_comm_monoid_add"
  proof (cases "map_of (sh_priorityBands s) p")
    case None
    then show ?thesis by (simp add: delete_id map_of_eq_None_iff)
  next
    case (Some band)
    then have "f band = 0" using that e shard_band_inv [OF inv] by blast
    then show ?thesis using asum_delete [OF dist Some, of f] by simp
  qed
  have "levels_ok ?s"
    using lv levels_distinct [OF lv]
    by (auto simp: levels_ok_def shard_deletePriorityBand_def sorted_wrt_remove1 mem_delete image_iff)
  moreover have "band_inv w q bd" if "(q, bd) \<in> set (sh_priorityBands ?s)" for q bd
    using that inv by (auto simp: shard_deletePriorityBand_def mem_delete shard_inv_def)
  ultimately have "shard_inv w ?s"
    using inv by (intro shard_invI)
      (simp_all add: shard_deletePriorityBand_def shard_inv_def distinct_delete gone band_empty)
  moreover have "shard_elems ?s = shard_elems s"
    unfolding shard_elems_def shard_deletePriorityBand_def by (simp add: gone)
  ultimately show ?thesis by blast
qed

lemma update_band_configs_Some:
  "(\<forall>p\<in>fst ` set bands. map_of cfgs p \<noteq> None) \<longleftrightarrow> update_band_configs cfgs bands \<noteq> None"
  by (induction cfgs bands rule: update_band_configs.induct) (auto split: option.splits)

lemma update_band_configs_map:
  "update_band_configs cfgs bands = Some bands' \<Longrightarrow>
     bands' = map (\<lambda>(p, band). (p, band\<lparr>pb_config := the (map_of cfgs p)\<rparr>)) bands"
  by (induction cfgs bands arbitrary: bands' rule: update_band_configs.induct) (auto split: option.splits)

lemma asum_map_values: "(\<And>k v. f (g k v) = f v) \<Longrightarrow> asum f (map (\<lambda>(k, v). (k, g k v)) xs) = asum f xs"
  by (induction xs) auto

lemma map_of_map_values: "map_of (map (\<lambda>(k, v). (k, g k v)) xs) k = map_option (g k) (map_of xs k)"
  by (induction xs) auto

lemma map_fst_map_values: "map fst (map (\<lambda>(k, v). (k, g k v)) xs) = map fst xs"
  by (induction xs) auto

lemma updateConfig_ok:
  assumes "shard_inv w s" and "\<And>p. p \<in> fst ` set (sh_priorityBands s) \<Longrightarrow> map_of (sc_PriorityBands cfg) p \<noteq> None"
  shows "\<exists>s'. updateConfig cfg s = Some s' \<and> shard_inv w s' \<and> shard_elems s' = shard_elems s \<and>
    map fst (sh_priorityBands s') = map fst (sh_priorityBands s) \<and> sh_config s' = cfg \<and>
    sh_id s' = sh_id s \<and> sh_isDraining s' = sh_isDraining s \<and>
    sh_totalLen s' = sh_totalLen s \<and> sh_totalByteSize s' = sh_totalByteSize s \<and>
    (\<forall>p. map_of (sh_priorityBands s') p =
       map_option (pb_config_update (\<lambda>_. the (map_of (sc_PriorityBands cfg) p))) (map_of (sh_priorityBands s) p))"
proof -
  obtain bands where u: "update_band_configs (sc_PriorityBands cfg) (sh_priorityBands s) = Some bands"
    using assms(2) update_band_configs_Some [of "sh_priorityBands s" "sc_PriorityBands cfg"] by blast
  note b = update_band_configs_map [OF u]
  let ?s' = "s\<lparr>sh_config := cfg, sh_priorityBands := bands\<rparr>"
  have same: "band_inv w p (band\<lparr>pb_config := c\<rparr>) = band_inv w p band"
    "band_elems (band\<lparr>pb_config := c\<rparr>) = band_elems band" for p band c
    by (simp_all add: band_inv_def band_elems_def)
  have keys: "map fst bands = map fst (sh_priorityBands s)" unfolding b by (rule map_fst_map_values)
  have "levels_ok ?s'" using assms(1) arg_cong [OF keys, of set] by (simp add: shard_inv_def levels_ok_def)
  moreover have "band_inv w p bd" if "(p, bd) \<in> set bands" for p bd
    using that assms(1) by (auto simp: b same shard_inv_def)
  moreover have "asum pb_len bands = asum pb_len (sh_priorityBands s)"
    "asum pb_byteSize bands = asum pb_byteSize (sh_priorityBands s)" by (simp_all add: b asum_map_values)
  ultimately have "shard_inv w ?s'"
    using assms(1) keys by (intro shard_invI) (simp_all add: shard_inv_def)
  moreover have "shard_elems ?s' = shard_elems s" by (simp add: shard_elems_def b asum_map_values same)
  moreover have "map_of bands p = map_option (pb_config_update (\<lambda>_. the (map_of (sc_PriorityBands cfg) p)))
      (map_of (sh_priorityBands s) p)" for p by (simp add: b map_of_map_values)
  ultimately show ?thesis using u keys by (auto simp: updateConfig_def)
qed

lemma addPriorityBand_ok:
  assumes inv: "shard_inv w s"
    and c: "map_of (sc_PriorityBands (sh_config s)) p = Some c" "band_Priority c = p" "band_FairnessPolicy c = Some fp"
  shows "\<exists>s'. addPriorityBand p s = Some s' \<and> shard_inv w s' \<and> shard_elems s' = shard_elems s \<and>
    fst ` set (sh_priorityBands s') = insert p (fst ` set (sh_priorityBands s)) \<and>
    sh_id s' = sh_id s \<and> sh_config s' = sh_config s \<and> sh_isDraining s' = sh_isDraining s \<and>
    sh_totalLen s' = sh_totalLen s \<and> sh_totalByteSize s' = sh_totalByteSize s \<and>
    (\<forall>q bd. map_of (sh_priorityBands s) q = Some bd \<longrightarrow> map_of (sh_priorityBands s') q = Some bd)"
proof (cases "map_of (sh_priorityBands s) p")
  case None
  then have new: "map_of (sh_priorityBands s) (band_Priority c) = None" using c(2) by simp
  obtain s' where s': "initPriorityBand c s = Some s'" "shard_inv w s'" "shard_elems s' = shard_elems s"
      "map fst (sh_priorityBands s') = map fst (sh_priorityBands s) @ [p]"
      "sh_id s' = sh_id s" "sh_config s' = sh_config s" "sh_isDraining s' = sh_isDraining s"
      "sh_totalLen s' = sh_totalLen s" "sh_totalByteSize s' = sh_totalByteSize s"
      "\<forall>q bd. map_of (sh_priorityBands s) q = Some bd \<longrightarrow> map_of (sh_priorityBands s') q = Some bd"
    using initPriorityBand_ok [OF inv new c(3)] c(2) by auto
  have "fst ` set (sh_priorityBands s') = insert p (fst ` set (sh_priorityBands s))"
    using arg_cong [OF s'(4), of set] by simp
  then show ?thesis using s' None c by (auto simp: addPriorityBand_def)
next
  case (Some band)
  then have "p \<in> fst ` set (sh_priorityBands s)" by (metis domI dom_map_of_conv_image_fst)
  then show ?thesis using inv Some by (auto simp: addPriorityBand_def)
qed

lemma markAsDraining_ok [simp]:
  "shard_inv w (markAsDraining s) = shard_inv w s" "shard_elems (markAsDraining s) = shard_elems s"
  by (simp_all add: markAsDraining_def shard_inv_def shard_elems_def levels_ok_def)

lemma init_bands_ok:
  assumes "shard_inv w s" "distinct (map fst cs)" "\<And>p c. (p, c) \<in> set cs \<Longrightarrow> band_Priority c = p \<and> band_FairnessPolicy c \<noteq> None"
    and "fst ` set cs \<inter> fst ` set (sh_priorityBands s) = {}"
  shows "\<exists>s'. init_bands cs s = Some s' \<and> shard_inv w s' \<and> shard_elems s' = shard_elems s \<and>
    map fst (sh_priorityBands s') = map fst (sh_priorityBands s) @ map fst cs \<and>
    sh_id s' = sh_id s \<and> sh_config s' = sh_config s \<and> sh_isDraining s' = sh_isDraining s \<and>
    sh_totalLen s' = sh_totalLen s \<and> sh_totalByteSize s' = sh_totalByteSize s"
  using assms
proof (induction cs arbitrary: s)
  case (Cons x cs)
  obtain p c where x: "x = (p, c)" by (cases x)
  have pc: "band_Priority c = p" "band_FairnessPolicy c \<noteq> None" using Cons.prems(3) [of p c] x by simp_all
  then obtain fp where fp: "band_FairnessPolicy c = Some fp" by blast
  have new: "map_of (sh_priorityBands s) (band_Priority c) = None"
    using Cons.prems(4) x pc by (simp add: map_of_eq_None_iff)
  obtain s1 where s1: "initPriorityBand c s = Some s1" "shard_inv w s1" "shard_elems s1 = shard_elems s"
      "map fst (sh_priorityBands s1) = map fst (sh_priorityBands s) @ [p]"
      "sh_id s1 = sh_id s" "sh_config s1 = sh_config s" "sh_isDraining s1 = sh_isDraining s"
      "sh_totalLen s1 = sh_totalLen s" "sh_totalByteSize s1 = sh_totalByteSize s"
    using initPriorityBand_ok [OF Cons.prems(1) new fp] pc by auto
  have "fst ` set cs \<inter> fst ` set (sh_priorityBands s1) = {}"
    using Cons.prems(2,4) x arg_cong [OF s1(4), of set] by auto
  moreover have cs: "band_Priority d = q \<and> band_FairnessPolicy d \<noteq> None" if "(q, d) \<in> set cs" for q d
    using Cons.prems(3) [of q d] that by simp
  ultimately obtain s' where "init_bands cs s1 = Some s'" "shard_inv w s'" "shard_elems s' = shard_elems s1"
    "map fst (sh_priorityBands s') = map fst (sh_priorityBands s1) @ map fst cs" "sh_id s' = sh_id s1"
    "sh_config s' = sh_config s1" "sh_isDraining s' = sh_isDraining s1"
    "sh_totalLen s' = sh_totalLen s1" "sh_totalByteSize s' = sh_totalByteSize s1"
    using Cons.IH [OF s1(2) _ cs] Cons.prems(2) x by auto
  then show ?case using s1 x by simp
qed simp

lemma newShard_ok:
  assumes "distinct (map fst (sc_PriorityBands cfg))"
    "\<And>p c. (p, c) \<in> set (sc_PriorityBands cfg) \<Longrightarrow> band_Priority c = p \<and> band_FairnessPolicy c \<noteq> None"
  shows "\<exists>s. newShard sid cfg = Some s \<and> shard_inv w s \<and> shard_elems s = {#} \<and>
    map fst (sh_priorityBands s) = map fst (sc_PriorityBands cfg) \<and>
    sh_id s = sid \<and> sh_config s = cfg \<and> \<not> sh_isDraining s"
proof -
  let ?s0 = "\<lparr>sh_id = sid, sh_config = cfg, sh_orderedPriorityLevels = [], sh_priorityBands = [],
        sh_isDraining = False, sh_totalByteSize = 0, sh_totalLen = 0\<rparr>"
  have "shard_inv w ?s0" by (simp add: shard_inv_def levels_ok_def)
  then show ?thesis
    using init_bands_ok [of w ?s0 "sc_PriorityBands cfg"] assms
    by (force simp: newShard_def shard_elems_def)
qed

end
