(* ===== verification/Leasing.thy ===== *)
theory Leasing
  imports Prelude "HOL-Library.AList"
begin

text \<open>
  Reference-counted leases (src/pkg/epp/flowcontrol/registry/leasing.go): the leased state,
  the collection of idle resources, and the pinning loop. The pinning loop and the
  collector run concurrently; their atomic accesses to the shared map and to the leased
  states are the steps of a transition system, for any number of clients.
\<close>

subsection \<open>Leased states\<close>

record leased_state =
  leaseCount :: int
  becameIdleAt :: gotime
  markedForDeletion :: bool

definition new_leased_state :: leased_state where
  "new_leased_state = \<lparr>leaseCount = 0, becameIdleAt = zero_time, markedForDeletion = False\<rparr>"

definition tryPin :: "leased_state \<Rightarrow> bool \<times> leased_state" where
  "tryPin ls =
     (if markedForDeletion ls then (False, ls)
      else (True, ls\<lparr>leaseCount := leaseCount ls + 1, becameIdleAt := zero_time\<rparr>))"

definition unpin :: "gotime \<Rightarrow> leased_state \<Rightarrow> leased_state" where
  "unpin now ls =
     (let ls1 = ls\<lparr>leaseCount := leaseCount ls - 1\<rparr>
      in if leaseCount ls1 = 0 then ls1\<lparr>becameIdleAt := now\<rparr> else ls1)"

definition isActive :: "leased_state \<Rightarrow> bool" where
  "isActive ls \<longleftrightarrow> leaseCount ls > 0"

definition checkAndMarkForDeletion :: "duration \<Rightarrow> gotime \<Rightarrow> leased_state \<Rightarrow> bool \<times> leased_state" where
  "checkAndMarkForDeletion timeout now ls =
     (if leaseCount ls > 0
      then (False, if \<not> IsZero (becameIdleAt ls) then ls\<lparr>becameIdleAt := zero_time\<rparr> else ls)
      else if IsZero (becameIdleAt ls) then (False, ls\<lparr>becameIdleAt := now\<rparr>)
      else if now - becameIdleAt ls < timeout then (False, ls)
      else (True, ls\<lparr>markedForDeletion := True\<rparr>))"

subsection \<open>Collection\<close>

text \<open>
  \<open>collectLeasedResources\<close> when nothing else runs: the map as an association list to
  addresses in the order \<open>Range\<close> visits it, the leased states as a store.
\<close>

fun collectLeasedResources ::
  "duration \<Rightarrow> gotime \<Rightarrow> ('k \<times> nat) list \<Rightarrow> (nat \<Rightarrow> leased_state) \<Rightarrow>
   ('k \<times> nat) list \<times> ('k \<times> nat) list \<times> (nat \<Rightarrow> leased_state)" where
  "collectLeasedResources timeout now [] st = ([], [], st)"
| "collectLeasedResources timeout now ((k, a) # m) st =
     (let (del, ls) = checkAndMarkForDeletion timeout now (st a);
          (gone, m', st') = collectLeasedResources timeout now m (st(a := ls))
      in if del then ((k, a) # gone, m', st') else (gone, (k, a) # m', st'))"

text \<open>
  \<open>pinLeasedResource\<close> when nothing else runs: one pass of its loop. \<open>None\<close> is a pass that
  goes round again, as it does for ever when the object it finds is marked and nobody
  removes it. The result is the address of the pinned object and whether it is new.
\<close>

definition pinLeasedResource ::
  "'k \<Rightarrow> ('k \<times> nat) list \<times> (nat \<Rightarrow> leased_state) \<times> nat \<Rightarrow>
   ((nat \<times> bool) \<times> ('k \<times> nat) list \<times> (nat \<Rightarrow> leased_state) \<times> nat) option" where
  "pinLeasedResource key = (\<lambda>(m, st, nxt).
     let (a, isNew, m1, st1, nxt1) =
           (case map_of m key of
              Some a \<Rightarrow> (a, False, m, st, nxt)
            | None \<Rightarrow> (nxt, True, AList.update key nxt m, st(nxt := new_leased_state), Suc nxt));
         (pinned, ls) = tryPin (st1 a)
     in if pinned
        then if map_of m1 key = Some a then Some ((a, isNew), m1, st1(a := ls), nxt1) else None
        else None)"

subsection \<open>The pinning protocol\<close>

text \<open>Where a client of \<open>pinLeasedResource\<close> is in its loop; the flag is \<open>isNew\<close>.\<close>

datatype 'k client_pc =
    Quiet
  | Start 'k
  | Missed 'k
  | Loaded 'k nat bool
  | Pinned 'k nat bool
  | Holding 'k nat bool

text \<open>Where the collector is: scanning, or between the mark and the \<open>LoadAndDelete\<close>.\<close>

datatype 'k gc_pc = GcScan | GcMarked 'k

record 'k lease_sys =
  sys_map :: "'k \<Rightarrow> nat option"
  sys_obj :: "nat \<Rightarrow> leased_state"
  sys_next :: nat
  sys_client :: "nat \<Rightarrow> 'k client_pc"
  sys_gc :: "'k gc_pc"
  sys_now :: gotime

definition set_client :: "nat \<Rightarrow> 'k client_pc \<Rightarrow> 'k lease_sys \<Rightarrow> 'k lease_sys" where
  "set_client c pc s = s\<lparr>sys_client := (sys_client s)(c := pc)\<rparr>"

definition set_obj :: "nat \<Rightarrow> leased_state \<Rightarrow> 'k lease_sys \<Rightarrow> 'k lease_sys" where
  "set_obj a ls s = s\<lparr>sys_obj := (sys_obj s)(a := ls)\<rparr>"

inductive lease_step :: "duration \<Rightarrow> 'k lease_sys \<Rightarrow> 'k lease_sys \<Rightarrow> bool" for timeout where
  enter: "sys_client s c = Quiet \<Longrightarrow> lease_step timeout s (set_client c (Start k) s)"
| load: "sys_client s c = Start k \<Longrightarrow> sys_map s k = Some a \<Longrightarrow>
    lease_step timeout s (set_client c (Loaded k a False) s)"
| load_miss: "sys_client s c = Start k \<Longrightarrow> sys_map s k = None \<Longrightarrow>
    lease_step timeout s (set_client c (Missed k) s)"
| store: "sys_client s c = Missed k \<Longrightarrow> sys_map s k = None \<Longrightarrow>
    lease_step timeout s (set_client c (Loaded k (sys_next s) True)
      (set_obj (sys_next s) new_leased_state
        (s\<lparr>sys_map := (sys_map s)(k \<mapsto> sys_next s), sys_next := Suc (sys_next s)\<rparr>)))"
| loaded: "sys_client s c = Missed k \<Longrightarrow> sys_map s k = Some a \<Longrightarrow>
    lease_step timeout s (set_client c (Loaded k a False) s)"
| pin: "sys_client s c = Loaded k a isNew \<Longrightarrow> tryPin (sys_obj s a) = (True, ls) \<Longrightarrow>
    lease_step timeout s (set_client c (Pinned k a isNew) (set_obj a ls s))"
| pin_refused: "sys_client s c = Loaded k a isNew \<Longrightarrow> tryPin (sys_obj s a) = (False, ls) \<Longrightarrow>
    lease_step timeout s (set_client c (Start k) (set_obj a ls s))"
| recheck: "sys_client s c = Pinned k a isNew \<Longrightarrow> sys_map s k = Some a \<Longrightarrow>
    lease_step timeout s (set_client c (Holding k a isNew) s)"
| stale: "sys_client s c = Pinned k a isNew \<Longrightarrow> sys_map s k \<noteq> Some a \<Longrightarrow>
    lease_step timeout s (set_client c (Start k) (set_obj a (unpin (sys_now s) (sys_obj s a)) s))"
| release: "sys_client s c = Holding k a isNew \<Longrightarrow>
    lease_step timeout s (set_client c Quiet (set_obj a (unpin t (sys_obj s a)) s))"
| gc_keep: "sys_gc s = GcScan \<Longrightarrow> sys_map s k = Some a \<Longrightarrow>
    checkAndMarkForDeletion timeout (sys_now s) (sys_obj s a) = (False, ls) \<Longrightarrow>
    lease_step timeout s (set_obj a ls s)"
| gc_mark: "sys_gc s = GcScan \<Longrightarrow> sys_map s k = Some a \<Longrightarrow>
    checkAndMarkForDeletion timeout (sys_now s) (sys_obj s a) = (True, ls) \<Longrightarrow>
    lease_step timeout s ((set_obj a ls s)\<lparr>sys_gc := GcMarked k\<rparr>)"
| gc_delete: "sys_gc s = GcMarked k \<Longrightarrow>
    lease_step timeout s (s\<lparr>sys_map := (sys_map s)(k := None), sys_gc := GcScan\<rparr>)"
| tick: "sys_now s \<le> t \<Longrightarrow> lease_step timeout s (s\<lparr>sys_now := t\<rparr>)"

definition init_lease_sys :: "'k lease_sys" where
  "init_lease_sys = \<lparr>sys_map = (\<lambda>_. None), sys_obj = (\<lambda>_. new_leased_state), sys_next = 0,
     sys_client = (\<lambda>_. Quiet), sys_gc = GcScan, sys_now = 1\<rparr>"

inductive lease_reachable :: "duration \<Rightarrow> 'k lease_sys \<Rightarrow> bool" for timeout where
  init: "lease_reachable timeout init_lease_sys"
| step: "lease_reachable timeout s \<Longrightarrow> lease_step timeout s s' \<Longrightarrow> lease_reachable timeout s'"

subsection \<open>Invariant of the protocol\<close>

primrec holds :: "'k client_pc \<Rightarrow> nat option" where
  "holds Quiet = None"
| "holds (Start k) = None"
| "holds (Missed k) = None"
| "holds (Loaded k a n) = None"
| "holds (Pinned k a n) = Some a"
| "holds (Holding k a n) = Some a"

primrec refers :: "'k client_pc \<Rightarrow> ('k \<times> nat) option" where
  "refers Quiet = None"
| "refers (Start k) = None"
| "refers (Missed k) = None"
| "refers (Loaded k a n) = Some (k, a)"
| "refers (Pinned k a n) = Some (k, a)"
| "refers (Holding k a n) = Some (k, a)"

definition holders :: "'k lease_sys \<Rightarrow> nat \<Rightarrow> nat set" where
  "holders s a = {c. holds (sys_client s c) = Some a}"

definition counts_ok :: "'k lease_sys \<Rightarrow> bool" where
  "counts_ok s \<longleftrightarrow> (\<forall>a. finite (holders s a) \<and> leaseCount (sys_obj s a) = int (card (holders s a)))"

definition marks_ok :: "'k lease_sys \<Rightarrow> bool" where
  "marks_ok s \<longleftrightarrow> (\<forall>a. markedForDeletion (sys_obj s a) \<longrightarrow> leaseCount (sys_obj s a) = 0) \<and>
     (\<forall>k. sys_gc s = GcMarked k \<longrightarrow> (\<exists>a. sys_map s k = Some a \<and> markedForDeletion (sys_obj s a)))"

definition refs_ok :: "'k lease_sys \<Rightarrow> bool" where
  "refs_ok s \<longleftrightarrow> (\<forall>c k a. refers (sys_client s c) = Some (k, a) \<longrightarrow>
       a < sys_next s \<and> (sys_map s k = Some a \<or> markedForDeletion (sys_obj s a))) \<and>
     (\<forall>k a. sys_map s k = Some a \<longrightarrow> a < sys_next s)"

definition lease_inv :: "'k lease_sys \<Rightarrow> bool" where
  "lease_inv s \<longleftrightarrow> counts_ok s \<and> marks_ok s \<and> refs_ok s"

lemma set_client_sel [simp]:
  "sys_client (set_client c pc s) = (sys_client s)(c := pc)" "sys_obj (set_client c pc s) = sys_obj s"
  "sys_map (set_client c pc s) = sys_map s" "sys_next (set_client c pc s) = sys_next s"
  "sys_gc (set_client c pc s) = sys_gc s" "sys_now (set_client c pc s) = sys_now s"
  by (simp_all add: set_client_def)

lemma set_obj_sel [simp]:
  "sys_obj (set_obj a ls s) = (sys_obj s)(a := ls)" "sys_client (set_obj a ls s) = sys_client s"
  "sys_map (set_obj a ls s) = sys_map s" "sys_next (set_obj a ls s) = sys_next s"
  "sys_gc (set_obj a ls s) = sys_gc s" "sys_now (set_obj a ls s) = sys_now s"
  by (simp_all add: set_obj_def)

lemma holds_refers: "holds pc = Some a \<Longrightarrow> \<exists>k. refers pc = Some (k, a)"
  by (cases pc) auto

lemma counts_same:
  assumes "counts_ok s" "\<And>c. holds (sys_client s' c) = holds (sys_client s c)"
    and "\<And>a. leaseCount (sys_obj s' a) = leaseCount (sys_obj s a)"
  shows "counts_ok s'"
proof -
  have "holders s' = holders s" using assms(2) by (simp add: holders_def fun_eq_iff)
  then show ?thesis using assms(1,3) by (simp add: counts_ok_def)
qed

lemma counts_pin:
  assumes "counts_ok s" "sys_client s' = (sys_client s)(c := pc)" "holds (sys_client s c) = None" "holds pc = Some a"
    and "\<And>b. leaseCount (sys_obj s' b) = leaseCount (sys_obj s b) + (if b = a then 1 else 0)"
  shows "counts_ok s'"
proof -
  have "holders s' b = (if b = a then insert c (holders s b) else holders s b)" for b
    using assms(2-4) by (auto simp: holders_def)
  moreover have "c \<notin> holders s a" using assms(3) by (simp add: holders_def)
  ultimately show ?thesis using assms(1,5) by (simp add: counts_ok_def)
qed

lemma counts_unpin:
  assumes "counts_ok s" "sys_client s' = (sys_client s)(c := pc)" "holds (sys_client s c) = Some a" "holds pc = None"
    and "\<And>b. leaseCount (sys_obj s' b) = leaseCount (sys_obj s b) - (if b = a then 1 else 0)"
  shows "counts_ok s'"
proof -
  have "holders s' b = (if b = a then holders s b - {c} else holders s b)" for b
    using assms(2-4) by (auto simp: holders_def)
  moreover have "c \<in> holders s a" using assms(3) by (simp add: holders_def)
  moreover have "finite (holders s a)" using assms(1) by (simp add: counts_ok_def)
  ultimately show ?thesis
    using assms(1,5) card_Suc_Diff1 [of "holders s a" c] by (auto simp: counts_ok_def card_Diff_singleton)
qed

lemma counts_init: "counts_ok init_lease_sys"
  by (simp add: counts_ok_def holders_def init_lease_sys_def new_leased_state_def)

lemma leaseCount_unpin [simp]: "leaseCount (unpin t ls) = leaseCount ls - 1"
  by (simp add: unpin_def Let_def)

lemma marked_unpin [simp]: "markedForDeletion (unpin t ls) = markedForDeletion ls"
  by (simp add: unpin_def Let_def)

lemma tryPin_True: "tryPin ls = (True, ls') \<Longrightarrow>
    \<not> markedForDeletion ls \<and> \<not> markedForDeletion ls' \<and> leaseCount ls' = leaseCount ls + 1"
  by (auto simp: tryPin_def split: if_splits)

lemma tryPin_False: "tryPin ls = (False, ls') \<Longrightarrow> ls' = ls \<and> markedForDeletion ls"
  by (auto simp: tryPin_def split: if_splits)

lemma check_False: "checkAndMarkForDeletion timeout now ls = (False, ls') \<Longrightarrow>
    leaseCount ls' = leaseCount ls \<and> markedForDeletion ls' = markedForDeletion ls"
  by (auto simp: checkAndMarkForDeletion_def split: if_splits)

lemma check_True: "checkAndMarkForDeletion timeout now ls = (True, ls') \<Longrightarrow>
    leaseCount ls \<le> 0 \<and> leaseCount ls' = leaseCount ls \<and> markedForDeletion ls' \<and> timeout \<le> now - becameIdleAt ls"
  by (auto simp: checkAndMarkForDeletion_def split: if_splits)

lemma fresh_no_lease: "lease_inv s \<Longrightarrow> leaseCount (sys_obj s (sys_next s)) = 0"
proof -
  assume inv: "lease_inv s"
  have "holders s (sys_next s) = {}"
  proof (rule equals0I)
    fix c assume "c \<in> holders s (sys_next s)"
    then obtain k where "refers (sys_client s c) = Some (k, sys_next s)"
      using holds_refers by (auto simp: holders_def)
    then show False using inv unfolding lease_inv_def refs_ok_def by blast
  qed
  then show ?thesis using inv by (simp add: lease_inv_def counts_ok_def)
qed

lemma counts_step: "lease_step timeout s s' \<Longrightarrow> lease_inv s \<Longrightarrow> counts_ok s'"
proof (induction rule: lease_step.induct)
  case (store s c k)
  show ?case
    by (rule counts_same [of s])
       (use store fresh_no_lease [OF store.prems] in \<open>auto simp: lease_inv_def new_leased_state_def\<close>)
next
  case (pin s c k a isNew ls)
  show ?case
    by (rule counts_pin [of s _ c "Pinned k a isNew" a])
       (use pin tryPin_True [OF pin.hyps(2)] in \<open>auto simp: lease_inv_def\<close>)
next
  case (stale s c k a isNew)
  show ?case
    by (rule counts_unpin [of s _ c "Start k" a]) (use stale in \<open>auto simp: lease_inv_def\<close>)
next
  case (release s c k a isNew t)
  show ?case
    by (rule counts_unpin [of s _ c Quiet a]) (use release in \<open>auto simp: lease_inv_def\<close>)
next
  case (pin_refused s c k a isNew ls)
  show ?case
    by (rule counts_same [of s]) (use pin_refused tryPin_False [OF pin_refused.hyps(2)] in \<open>auto simp: lease_inv_def\<close>)
next
  case (gc_keep s k a ls)
  show ?case by (rule counts_same [of s]) (use gc_keep check_False [OF gc_keep.hyps(3)] in \<open>auto simp: lease_inv_def\<close>)
next
  case (gc_mark s k a ls)
  show ?case by (rule counts_same [of s]) (use gc_mark check_True [OF gc_mark.hyps(3)] in \<open>auto simp: lease_inv_def\<close>)
qed (rule counts_same; auto simp: lease_inv_def)+

lemma held_lease: "lease_inv s \<Longrightarrow> holds (sys_client s c) = Some a \<Longrightarrow>
    0 < leaseCount (sys_obj s a) \<and> \<not> markedForDeletion (sys_obj s a)"
proof -
  assume inv: "lease_inv s" and c: "holds (sys_client s c) = Some a"
  then have "c \<in> holders s a" "finite (holders s a)" by (simp_all add: holders_def lease_inv_def counts_ok_def)
  then have "0 < card (holders s a)" by (auto simp: card_gt_0_iff)
  then have "0 < leaseCount (sys_obj s a)" using inv by (simp add: lease_inv_def counts_ok_def)
  then show ?thesis using inv by (auto simp: lease_inv_def marks_ok_def)
qed

lemma held_in_map: "lease_inv s \<Longrightarrow> holds (sys_client s c) = Some a \<Longrightarrow> refers (sys_client s c) = Some (k, a) \<Longrightarrow>
    sys_map s k = Some a"
  using held_lease by (fastforce simp: lease_inv_def refs_ok_def)

lemma marks_step: "lease_step timeout s s' \<Longrightarrow> lease_inv s \<Longrightarrow> marks_ok s'"
proof (induction rule: lease_step.induct)
  case (store s c k)
  have "sys_map s k' = Some a \<Longrightarrow> a < sys_next s" for k' a
    using store.prems by (auto simp: lease_inv_def refs_ok_def)
  then show ?case using store unfolding lease_inv_def marks_ok_def
    by (auto simp: new_leased_state_def) (metis less_irrefl option.distinct(1))
next
  case (pin s c k a isNew ls)
  then show ?case using tryPin_True [OF pin.hyps(2)] unfolding lease_inv_def marks_ok_def by auto
next
  case (pin_refused s c k a isNew ls)
  then show ?case using tryPin_False [OF pin_refused.hyps(2)] by (auto simp: lease_inv_def marks_ok_def)
next
  case (stale s c k a isNew)
  then show ?case using held_lease [of s c a] unfolding lease_inv_def marks_ok_def by auto
next
  case (release s c k a isNew t)
  then show ?case using held_lease [of s c a] unfolding lease_inv_def marks_ok_def by auto
next
  case (gc_keep s k a ls)
  then show ?case using check_False [OF gc_keep.hyps(3)] unfolding lease_inv_def marks_ok_def by auto
next
  case (gc_mark s k a ls)
  have "0 \<le> leaseCount (sys_obj s a)" using gc_mark.prems by (simp add: lease_inv_def counts_ok_def)
  then show ?case using gc_mark check_True [OF gc_mark.hyps(3)] unfolding lease_inv_def marks_ok_def by auto
qed (auto simp: lease_inv_def marks_ok_def)

lemma refs_okD: "refs_ok s \<Longrightarrow> refers (sys_client s c) = Some (k, a) \<Longrightarrow>
    a < sys_next s \<and> (sys_map s k = Some a \<or> markedForDeletion (sys_obj s a))"
  by (simp add: refs_ok_def)

lemma refs_okI:
  assumes "\<And>c k a. refers (sys_client s c) = Some (k, a) \<Longrightarrow>
      a < sys_next s \<and> (sys_map s k = Some a \<or> markedForDeletion (sys_obj s a))"
    and "\<And>k a. sys_map s k = Some a \<Longrightarrow> a < sys_next s"
  shows "refs_ok s"
  using assms by (simp add: refs_ok_def)

lemma refs_step: "lease_step timeout s s' \<Longrightarrow> lease_inv s \<Longrightarrow> refs_ok s'"
proof (induction rule: lease_step.induct)
  case (store s c k)
  have old: "refers (sys_client s c') = Some (k', a) \<Longrightarrow> a < sys_next s \<and>
      (sys_map s k' = Some a \<or> markedForDeletion (sys_obj s a))" "sys_map s k' = Some a \<Longrightarrow> a < sys_next s" for c' k' a
    using store.prems by (auto simp: lease_inv_def refs_ok_def)
  show ?case
  proof (rule refs_okI, goal_cases)
    case (1 c' k' a)
    then show ?case using old(1) [of c' k' a] store.hyps(2) by (auto split: if_splits)
  next
    case (2 k' a)
    then show ?case using old(2) [of k' a] by (auto split: if_splits)
  qed
next
  case (pin s c k a isNew ls)
  then show ?case using tryPin_True [OF pin.hyps(2)] refs_okD [of s c k a] unfolding lease_inv_def refs_ok_def
    by (auto split: if_splits)
next
  case (pin_refused s c k a isNew ls)
  then show ?case using tryPin_False [OF pin_refused.hyps(2)] by (auto simp: lease_inv_def refs_ok_def)
next
  case (gc_keep s k a ls)
  then show ?case using check_False [OF gc_keep.hyps(3)] unfolding lease_inv_def refs_ok_def by auto
next
  case (gc_mark s k a ls)
  then show ?case using check_True [OF gc_mark.hyps(3)] unfolding lease_inv_def refs_ok_def by auto
next
  case (gc_delete s k)
  then show ?case unfolding lease_inv_def refs_ok_def marks_ok_def by (auto split: if_splits) (metis option.inject)+
qed (auto simp: lease_inv_def refs_ok_def split: if_splits)

lemma lease_reachable_inv: "lease_reachable timeout s \<Longrightarrow> lease_inv s"
proof (induction rule: lease_reachable.induct)
  case init
  show ?case using counts_init by (simp add: lease_inv_def marks_ok_def refs_ok_def init_lease_sys_def new_leased_state_def)
next
  case (step s s')
  then show ?case using counts_step marks_step refs_step unfolding lease_inv_def by blast
qed

inductive_simps lease_step_simps: "lease_step timeout s s'"


lemma lease_reachable_Holding:
  "\<exists>s :: nat lease_sys. lease_reachable timeout s \<and> sys_client s 0 = Holding 7 0 True"
proof -
  let ?s1 = "set_client 0 (Start (7::nat)) init_lease_sys"
  let ?s2 = "set_client 0 (Missed 7) ?s1"
  let ?s3 = "set_client 0 (Loaded 7 (sys_next ?s2) True) (set_obj (sys_next ?s2) new_leased_state
      (?s2\<lparr>sys_map := (sys_map ?s2)(7 \<mapsto> sys_next ?s2), sys_next := Suc (sys_next ?s2)\<rparr>))"
  let ?ls = "snd (tryPin (sys_obj ?s3 0))"
  let ?s4 = "set_client 0 (Pinned 7 0 True) (set_obj 0 ?ls ?s3)"
  let ?s5 = "set_client 0 (Holding 7 0 True) ?s4"
  have 1: "lease_reachable timeout ?s1"
    by (rule lease_reachable.step [OF lease_reachable.init lease_step.enter]) (simp add: init_lease_sys_def)
  have 2: "lease_reachable timeout ?s2"
    by (rule lease_reachable.step [OF 1 lease_step.load_miss]) (simp_all add: init_lease_sys_def)
  have 3: "lease_reachable timeout ?s3"
    by (rule lease_reachable.step [OF 2 lease_step.store]) (simp_all add: init_lease_sys_def)
  have 4: "lease_reachable timeout ?s4"
    by (rule lease_reachable.step [OF 3 lease_step.pin])
       (simp_all add: init_lease_sys_def tryPin_def new_leased_state_def)
  have "lease_reachable timeout ?s5"
    by (rule lease_reachable.step [OF 4 lease_step.recheck]) (simp_all add: init_lease_sys_def)
  then show ?thesis by (intro exI [of _ ?s5]) simp
qed



subsection \<open>Sequential collection\<close>

lemma collect_partition:
  assumes "collectLeasedResources timeout now m st = (gone, m', st')" "distinct (map snd m)"
  shows "gone = filter (\<lambda>(_, a). fst (checkAndMarkForDeletion timeout now (st a))) m \<and>
    m' = filter (\<lambda>(_, a). \<not> fst (checkAndMarkForDeletion timeout now (st a))) m \<and>
    (\<forall>a. leaseCount (st' a) = leaseCount (st a))"
  using assms
proof (induction m arbitrary: gone m' st st')
  case (Cons x m)
  obtain k a where x: "x = (k, a)" by (cases x)
  obtain del ls where C: "checkAndMarkForDeletion timeout now (st a) = (del, ls)"
    by (cases "checkAndMarkForDeletion timeout now (st a)")
  obtain g1 m1 st1 where R: "collectLeasedResources timeout now m (st(a := ls)) = (g1, m1, st1)"
    by (metis surj_pair)
  have a: "a \<notin> snd ` set m" and d: "distinct (map snd m)" using Cons.prems(2) by (auto simp: x)
  have "leaseCount ls = leaseCount (st a)"
    using C by (auto simp: checkAndMarkForDeletion_def split: if_splits)
  moreover have filt: "filter (\<lambda>(_, b). P ((st(a := ls)) b)) m = filter (\<lambda>(_, b). P (st b)) m" for P
    using a by (intro filter_cong) (auto simp: rev_image_eqI)
  moreover have "g1 = filter (\<lambda>(_, a). fst (checkAndMarkForDeletion timeout now (st a))) m"
    "m1 = filter (\<lambda>(_, a). \<not> fst (checkAndMarkForDeletion timeout now (st a))) m"
    "\<forall>b. leaseCount (st1 b) = leaseCount ((st(a := ls)) b)"
    using Cons.IH [OF R d] unfolding filt [of "\<lambda>ls. fst (checkAndMarkForDeletion timeout now ls)"]
      filt [of "\<lambda>ls. \<not> fst (checkAndMarkForDeletion timeout now ls)"] by blast+
  ultimately show ?case using Cons.prems(1) C R by (auto simp: x split: if_splits)
qed simp

end
