(* ===== verification/Registry.thy ===== *)
theory Registry
  imports Shard Leasing "HOL-Library.List_Lexorder" "HOL-Library.Char_ord"
begin

text \<open>
  The flow registry (src/pkg/epp/flowcontrol/registry/registry.go, connection.go): sessions
  on flows, just-in-time provisioning of flows and bands, garbage collection, scaling of
  the shards, aggregated statistics.

  Shards are objects of the store \<open>fr_shards\<close>, named by their id; the slices and the map of
  the registry hold ids. Leased objects are addresses in \<open>fr_leased\<close>; \<open>fr_init\<close> is the
  \<open>sync.Once\<close> of a flow state with the error it left. \<open>fr_now\<close> is what the clock shows.
  \<open>None\<close> is a panic.
\<close>

subsection \<open>State\<close>

record bandStats =
  bst_byteSize :: int64
  bst_len :: int64

record flowRegistry =
  fr_config :: config
  fr_now :: gotime
  fr_flowStates :: "(flow_key \<times> nat) list"
  fr_priorityBandStates :: "(int \<times> nat) list"
  fr_leased :: "nat \<Rightarrow> leased_state"
  fr_init :: "nat \<Rightarrow> gerror option option"
  fr_nextObj :: nat
  fr_totalByteSize :: int64
  fr_totalLen :: int64
  fr_perPriorityBandStats :: "(int \<times> bandStats) list"
  fr_shards :: "(string \<times> registryShard) list"
  fr_activeShards :: "string list"
  fr_drainingShards :: "string list"
  fr_allShards :: "string list"
  fr_nextShardID :: uint64

definition new_bandStats :: bandStats where
  "new_bandStats = \<lparr>bst_byteSize = 0, bst_len = 0\<rparr>"

subsection \<open>Access to the shards\<close>

definition on_shard ::
  "(registryShard \<Rightarrow> registryShard option) \<Rightarrow> string \<Rightarrow> flowRegistry \<Rightarrow> flowRegistry option" where
  "on_shard f sid fr =
     (case map_of (fr_shards fr) sid of
        None \<Rightarrow> None
      | Some s \<Rightarrow>
          (case f s of
             None \<Rightarrow> None
           | Some s' \<Rightarrow> Some (fr\<lparr>fr_shards := AList.update sid s' (fr_shards fr)\<rparr>)))"

text \<open>A loop over shards whose body may use the position.\<close>

fun for_shards ::
  "(nat \<Rightarrow> registryShard \<Rightarrow> registryShard option) \<Rightarrow> nat \<Rightarrow> string list \<Rightarrow> flowRegistry \<Rightarrow> flowRegistry option" where
  "for_shards f i [] fr = Some fr"
| "for_shards f i (sid # sids) fr =
     (case on_shard (f i) sid fr of None \<Rightarrow> None | Some fr1 \<Rightarrow> for_shards f (Suc i) sids fr1)"

subsection \<open>Statistics\<close>

definition propagateStatsDelta :: "flowRegistry stats_delta" where
  "propagateStatsDelta priority lenDelta byteSizeDelta fr =
     (case map_of (fr_perPriorityBandStats fr) priority of
        None \<Rightarrow> None
      | Some stats \<Rightarrow>
          let stats1 = stats\<lparr>bst_len := bst_len stats + lenDelta, bst_byteSize := bst_byteSize stats + byteSizeDelta\<rparr>
          in Some (fr\<lparr>fr_perPriorityBandStats := AList.update priority stats1 (fr_perPriorityBandStats fr),
                      fr_totalLen := fr_totalLen fr + lenDelta,
                      fr_totalByteSize := fr_totalByteSize fr + byteSizeDelta\<rparr>))"

record aggregate_stats =
  ag_TotalCapacityBytes :: uint64
  ag_TotalCapacityRequests :: uint64
  ag_TotalByteSize :: uint64
  ag_TotalLen :: uint64
  ag_PerPriorityBandStats :: "(int \<times> priority_band_stats) list"

fun registry_band_stats ::
  "(int \<times> priority_band_config) list \<Rightarrow> (int \<times> bandStats) list \<Rightarrow> (int \<times> priority_band_stats) list option" where
  "registry_band_stats cfgs [] = Some []"
| "registry_band_stats cfgs ((priority, stats) # rest) =
     (case map_of cfgs priority of
        None \<Rightarrow> None
      | Some bandCfg \<Rightarrow>
          (case registry_band_stats cfgs rest of
             None \<Rightarrow> None
           | Some out \<Rightarrow>
               Some ((priority, \<lparr>bs_Priority = priority, bs_CapacityBytes = band_MaxBytes bandCfg,
                   bs_CapacityRequests = band_MaxRequests bandCfg, bs_ByteSize = bst_byteSize stats,
                   bs_Len = bst_len stats\<rparr>) # out)))"

definition registry_Stats :: "flowRegistry \<Rightarrow> aggregate_stats option" where
  "registry_Stats fr =
     map_option (\<lambda>bands.
       \<lparr>ag_TotalCapacityBytes = cfg_MaxBytes (fr_config fr),
        ag_TotalCapacityRequests = cfg_MaxRequests (fr_config fr),
        ag_TotalByteSize = fr_totalByteSize fr, ag_TotalLen = fr_totalLen fr,
        ag_PerPriorityBandStats = bands\<rparr>)
       (registry_band_stats (cfg_PriorityBands (fr_config fr)) (fr_perPriorityBandStats fr))"

definition ShardStats :: "flowRegistry \<Rightarrow> shard_stats option list" where
  "ShardStats fr = map (\<lambda>sid. map_option shard_Stats (map_of (fr_shards fr) sid)) (fr_allShards fr)"

subsection \<open>Topology\<close>

definition updateAllShardsCacheLocked :: "flowRegistry \<Rightarrow> flowRegistry" where
  "updateAllShardsCacheLocked fr =
     fr\<lparr>fr_allShards := sort (fr_activeShards fr @ fr_drainingShards fr)\<rparr>"

definition repartitionShardConfigsLocked :: "flowRegistry \<Rightarrow> flowRegistry option" where
  "repartitionShardConfigsLocked fr =
     (let numActive = int (length (fr_activeShards fr))
      in for_shards (\<lambda>i s. case partition_config (fr_config fr) (int i) numActive of
                             None \<Rightarrow> None
                           | Some newPartitionedConfig \<Rightarrow> updateConfig newPartitionedConfig s)
           0 (fr_activeShards fr) fr)"

text \<open>\<open>numInstances\<close> queues of the flow's band, each a fresh one.\<close>

fun build_queues ::
  "string \<Rightarrow> ordering_policy \<Rightarrow> nat \<Rightarrow> world \<Rightarrow> (gerror + (ordering_policy \<times> safeQueue) list) \<times> world" where
  "build_queues qname policy 0 w = (Inr [], w)"
| "build_queues qname policy (Suc n) w =
     (case NewQueueFromName RegisteredQueues qname policy w of
        (Inl err, w1) \<Rightarrow> (Inl (Errorf ''failed to instantiate queue for flow'' [err]), w1)
      | (Inr q, w1) \<Rightarrow>
          (case build_queues qname policy n w1 of
             (Inl err, w2) \<Rightarrow> (Inl err, w2)
           | (Inr qs, w2) \<Rightarrow> (Inr ((policy, q) # qs), w2)))"

definition buildFlowComponents ::
  "flow_key \<Rightarrow> nat \<Rightarrow> flowRegistry \<Rightarrow> world \<Rightarrow> (gerror + (ordering_policy \<times> safeQueue) list) \<times> world" where
  "buildFlowComponents key numInstances fr w =
     (case map_of (cfg_PriorityBands (fr_config fr)) (Priority key) of
        None \<Rightarrow> (Inl (Errorf ''priority band not found'' [Sentinel ErrPriorityBandNotFound]), w)
      | Some bandConfig \<Rightarrow>
          build_queues (band_Queue bandConfig)
            (case band_OrderingPolicy bandConfig of None \<Rightarrow> nil_policy | Some p \<Rightarrow> p) numInstances w)"

fun decimal :: "nat \<Rightarrow> string" where
  "decimal n = (if n < 10 then [char_of (48 + n)] else decimal (n div 10) @ [char_of (48 + n mod 10)])"

declare decimal.simps [simp del]

definition shard_id :: "uint64 \<Rightarrow> string" where
  "shard_id n = (let d = decimal (unat n) in ''shard-'' @ replicate (4 - length d) (CHR ''0'') @ d)"

text \<open>Building the components of every known flow for the new shards; the first error stops.\<close>

fun build_all ::
  "flow_key list \<Rightarrow> nat \<Rightarrow> flowRegistry \<Rightarrow> world \<Rightarrow>
   (gerror + (flow_key \<times> (ordering_policy \<times> safeQueue) list) list) \<times> world" where
  "build_all [] n fr w = (Inr [], w)"
| "build_all (key # keys) n fr w =
     (case buildFlowComponents key n fr w of
        (Inl err, w1) \<Rightarrow> (Inl (Errorf ''failed to prepare components for flow on new shards'' [err]), w1)
      | (Inr components, w1) \<Rightarrow>
          (case build_all keys n fr w1 of
             (Inl err, w2) \<Rightarrow> (Inl err, w2)
           | (Inr rest, w2) \<Rightarrow> (Inr ((key, components) # rest), w2)))"

fun sync_flows ::
  "nat \<Rightarrow> (flow_key \<times> (ordering_policy \<times> safeQueue) list) list \<Rightarrow> registryShard \<Rightarrow> registryShard option" where
  "sync_flows i [] s = Some s"
| "sync_flows i ((key, components) # rest) s =
     (case synchronizeFlow key (fst (components ! i)) (snd (components ! i)) s of
        None \<Rightarrow> None
      | Some s1 \<Rightarrow> sync_flows i rest s1)"

definition new_shards :: "nat \<Rightarrow> flowRegistry \<Rightarrow> registryShard list option" where
  "new_shards newTotalActive fr =
     (let currentActive = length (fr_activeShards fr)
      in those (map (\<lambda>i. case partition_config (fr_config fr) (int (currentActive + i)) (int newTotalActive) of
                           None \<Rightarrow> None
                         | Some cfg \<Rightarrow> newShard (shard_id (fr_nextShardID fr + of_nat i)) cfg)
                  [0..<newTotalActive - currentActive]))"

definition executeScaleUpLocked ::
  "nat \<Rightarrow> world \<times> flowRegistry \<Rightarrow> (gerror option \<times> world \<times> flowRegistry) option" where
  "executeScaleUpLocked newTotalActive = (\<lambda>(w, fr).
     let numToAdd = newTotalActive - length (fr_activeShards fr)
     in case new_shards newTotalActive fr of
          None \<Rightarrow> None
        | Some newShards \<Rightarrow>
            (case build_all (map fst (fr_flowStates fr)) (length newShards) fr w of
               (Inl rangeErr, w1) \<Rightarrow> Some (Some rangeErr, w1, fr)
             | (Inr allComponents, w1) \<Rightarrow>
                 (case those (map (\<lambda>(i, s). sync_flows i allComponents s) (enumerate 0 newShards)) of
                    None \<Rightarrow> None
                  | Some shards \<Rightarrow>
                      let fr1 = fr\<lparr>fr_shards := fr_shards fr @ map (\<lambda>s. (sh_id s, s)) shards,
                                   fr_activeShards := fr_activeShards fr @ map sh_id shards,
                                   fr_nextShardID := fr_nextShardID fr + of_nat numToAdd\<rparr>
                      in (case repartitionShardConfigsLocked fr1 of
                            None \<Rightarrow> None
                          | Some fr2 \<Rightarrow> Some (None, w1, updateAllShardsCacheLocked fr2)))))"

definition executeScaleDownLocked :: "nat \<Rightarrow> flowRegistry \<Rightarrow> flowRegistry option" where
  "executeScaleDownLocked newTotalActive fr =
     (let shardsToDrain = drop newTotalActive (fr_activeShards fr);
          fr1 = fr\<lparr>fr_activeShards := take newTotalActive (fr_activeShards fr),
                   fr_drainingShards := fr_drainingShards fr @ filter (\<lambda>sid. sid \<notin> set (fr_drainingShards fr)) shardsToDrain\<rparr>
      in (case for_shards (\<lambda>_ s. Some (markAsDraining s)) 0 shardsToDrain fr1 of
            None \<Rightarrow> None
          | Some fr2 \<Rightarrow> map_option updateAllShardsCacheLocked (repartitionShardConfigsLocked fr2)))"

definition updateShardCount ::
  "int \<Rightarrow> world \<times> flowRegistry \<Rightarrow> (gerror option \<times> world \<times> flowRegistry) option" where
  "updateShardCount n = (\<lambda>(w, fr).
     if n \<le> 0 then Some (Some (Errorf ''shard count must be a positive integer'' [Sentinel ErrInvalidShardCount]), w, fr)
     else if n = int (length (fr_activeShards fr)) then Some (None, w, fr)
     else if n > int (length (fr_activeShards fr)) then executeScaleUpLocked (nat n) (w, fr)
     else map_option (\<lambda>fr'. (None, w, fr')) (executeScaleDownLocked (nat n) fr))"

definition NewFlowRegistry ::
  "config \<Rightarrow> gotime \<Rightarrow> world \<Rightarrow> ((gerror + flowRegistry) \<times> world) option" where
  "NewFlowRegistry config now w =
     (case Clone (Some config) of
        None \<Rightarrow> None
      | Some cfg \<Rightarrow>
          let fr = \<lparr>fr_config = cfg, fr_now = now, fr_flowStates = [], fr_priorityBandStates = [],
                    fr_leased = (\<lambda>_. new_leased_state), fr_init = (\<lambda>_. None), fr_nextObj = 0,
                    fr_totalByteSize = 0, fr_totalLen = 0,
                    fr_perPriorityBandStats = map (\<lambda>(prio, _). (prio, new_bandStats)) (cfg_PriorityBands cfg),
                    fr_shards = [], fr_activeShards = [], fr_drainingShards = [], fr_allShards = [],
                    fr_nextShardID = 0\<rparr>
          in (case updateShardCount (cfg_InitialShardCount cfg) (w, fr) of
                None \<Rightarrow> None
              | Some (Some err, w1, _) \<Rightarrow> Some (Inl (Errorf ''failed to initialize shards'' [err]), w1)
              | Some (None, w1, fr1) \<Rightarrow> Some (Inr fr1, w1)))"

subsection \<open>Provisioning\<close>

definition ensurePriorityBand :: "int \<Rightarrow> flowRegistry \<Rightarrow> flowRegistry option" where
  "ensurePriorityBand priority fr =
     (if map_of (cfg_PriorityBands (fr_config fr)) priority \<noteq> None then Some fr
      else (case cfg_DefaultPriorityBand (fr_config fr) of
              None \<Rightarrow> None
            | Some template \<Rightarrow>
                let newBand = template\<lparr>band_Priority := priority\<rparr>;
                    fr1 = fr\<lparr>fr_config := (fr_config fr)\<lparr>cfg_PriorityBands :=
                                AList.update priority newBand (cfg_PriorityBands (fr_config fr))\<rparr>\<rparr>;
                    fr2 = (if map_of (fr_perPriorityBandStats fr1) priority \<noteq> None then fr1
                           else fr1\<lparr>fr_perPriorityBandStats :=
                                  AList.update priority new_bandStats (fr_perPriorityBandStats fr1)\<rparr>);
                    fr3 = (if map_of (fr_priorityBandStates fr2) priority \<noteq> None then fr2
                           else fr2\<lparr>fr_priorityBandStates :=
                                  AList.update priority (fr_nextObj fr2) (fr_priorityBandStates fr2),
                                fr_leased := (fr_leased fr2)(fr_nextObj fr2 := new_leased_state),
                                fr_nextObj := Suc (fr_nextObj fr2)\<rparr>)
                in (case repartitionShardConfigsLocked fr3 of
                      None \<Rightarrow> None
                    | Some fr4 \<Rightarrow> for_shards (\<lambda>_. addPriorityBand priority) 0 (fr_activeShards fr4) fr4)))"

definition ensureFlowInfrastructure ::
  "flow_key \<Rightarrow> world \<times> flowRegistry \<Rightarrow> (gerror option \<times> world \<times> flowRegistry) option" where
  "ensureFlowInfrastructure key = (\<lambda>(w, fr).
     case (if map_of (cfg_PriorityBands (fr_config fr)) (Priority key) = None
           then ensurePriorityBand (Priority key) fr else Some fr) of
       None \<Rightarrow> None
     | Some fr1 \<Rightarrow>
         (case buildFlowComponents key (length (fr_allShards fr1)) fr1 w of
            (Inl err, w1) \<Rightarrow> Some (Some err, w1, fr1)
          | (Inr components, w1) \<Rightarrow>
              (case for_shards (\<lambda>i. synchronizeFlow key (fst (components ! i)) (snd (components ! i)))
                      0 (fr_allShards fr1) fr1 of
                 None \<Rightarrow> None
               | Some fr2 \<Rightarrow> Some (None, w1, fr2))))"

subsection \<open>Sessions\<close>

record connection =
  conn_key :: flow_key

definition connection_FlowKey :: "connection \<Rightarrow> flow_key" where
  "connection_FlowKey c = conn_key c"

definition ActiveShards :: "flowRegistry \<Rightarrow> string list" where
  "ActiveShards fr = fr_activeShards fr"

definition pin_flow :: "flow_key \<Rightarrow> flowRegistry \<Rightarrow> ((nat \<times> bool) \<times> flowRegistry) option" where
  "pin_flow key fr =
     map_option (\<lambda>(r, m, st, nxt). (r, fr\<lparr>fr_flowStates := m, fr_leased := st, fr_nextObj := nxt,
         fr_init := (if snd r then (fr_init fr)(fst r := None) else fr_init fr)\<rparr>))
       (pinLeasedResource key (fr_flowStates fr, fr_leased fr, fr_nextObj fr))"

definition pin_band :: "int \<Rightarrow> flowRegistry \<Rightarrow> flowRegistry option" where
  "pin_band priority fr =
     map_option (\<lambda>(_, m, st, nxt). fr\<lparr>fr_priorityBandStates := m, fr_leased := st, fr_nextObj := nxt\<rparr>)
       (pinLeasedResource priority (fr_priorityBandStates fr, fr_leased fr, fr_nextObj fr))"

definition unpin_obj :: "gotime \<Rightarrow> nat \<Rightarrow> flowRegistry \<Rightarrow> flowRegistry" where
  "unpin_obj t a fr = fr\<lparr>fr_leased := (fr_leased fr)(a := unpin t (fr_leased fr a))\<rparr>"

definition unpin_band :: "int \<Rightarrow> flowRegistry \<Rightarrow> flowRegistry" where
  "unpin_band priority fr =
     (case map_of (fr_priorityBandStates fr) priority of
        None \<Rightarrow> fr
      | Some a \<Rightarrow> unpin_obj (fr_now fr) a fr)"

text \<open>Up to the callback: the lease, the band lease of a new flow, and the provisioning.\<close>

definition acquire :: "flow_key \<Rightarrow> flowRegistry \<Rightarrow> ((nat \<times> bool) \<times> flowRegistry) option" where
  "acquire key fr =
     (case pin_flow key fr of
        None \<Rightarrow> None
      | Some ((a, isNewFlow), fr1) \<Rightarrow>
          if isNewFlow then map_option (\<lambda>fr2. ((a, isNewFlow), fr2)) (pin_band (Priority key) fr1)
          else Some ((a, isNewFlow), fr1))"

definition initialize_once ::
  "flow_key \<Rightarrow> nat \<Rightarrow> world \<times> flowRegistry \<Rightarrow> (gerror option \<times> world \<times> flowRegistry) option" where
  "initialize_once key a = (\<lambda>(w, fr).
     case fr_init fr a of
       Some initErr \<Rightarrow> Some (initErr, w, fr)
     | None \<Rightarrow>
         (case ensureFlowInfrastructure key (w, fr) of
            None \<Rightarrow> None
          | Some (err, w1, fr1) \<Rightarrow> Some (err, w1, fr1\<lparr>fr_init := (fr_init fr1)(a \<mapsto> err)\<rparr>)))"

text \<open>
  The callback runs on the whole state, with a component \<open>'e\<close> for what its closure captures.
  The time of the deferred \<open>unpin\<close> is evaluated where the \<open>defer\<close> statement is.
\<close>

type_synonym 'e callback =
  "connection \<Rightarrow> world \<times> flowRegistry \<times> 'e \<Rightarrow> (gerror option \<times> world \<times> flowRegistry \<times> 'e) option"

definition WithConnection ::
  "flow_key \<Rightarrow> 'e callback \<Rightarrow> world \<times> flowRegistry \<times> 'e \<Rightarrow> (gerror option \<times> world \<times> flowRegistry \<times> 'e) option" where
  "WithConnection key fn = (\<lambda>(w, fr, e).
     if ID key = [] then Some (Some (Sentinel ErrFlowIDEmpty), w, fr, e)
     else case acquire key fr of
       None \<Rightarrow> None
     | Some ((state, isNewFlow), fr1) \<Rightarrow>
         let deferred = fr_now fr1
         in (case initialize_once key state (w, fr1) of
               None \<Rightarrow> None
             | Some (Some initErr, w2, fr2) \<Rightarrow>
                 let fr3 = fr2\<lparr>fr_flowStates := AList.delete key (fr_flowStates fr2)\<rparr>;
                     fr4 = (if isNewFlow then unpin_band (Priority key) fr3 else fr3)
                 in Some (Some (Errorf ''failed to provision JIT flow resources'' [initErr]), w2,
                          unpin_obj deferred state fr4, e)
             | Some (None, w2, fr2) \<Rightarrow>
                 (case fn \<lparr>conn_key = key\<rparr> (w2, fr2, e) of
                    None \<Rightarrow> None
                  | Some (err, w3, fr3, e') \<Rightarrow> Some (err, w3, unpin_obj deferred state fr3, e'))))"

subsection \<open>Garbage collection\<close>

fun cleanupFlowResources :: "flow_key list \<Rightarrow> flowRegistry \<Rightarrow> flowRegistry option" where
  "cleanupFlowResources [] fr = Some fr"
| "cleanupFlowResources (key # keys) fr =
     (if map_of (fr_flowStates fr) key \<noteq> None then cleanupFlowResources keys fr
      else (case for_shards (\<lambda>_ s. Some (deleteFlow key s)) 0 (fr_allShards fr) fr of
              None \<Rightarrow> None
            | Some fr1 \<Rightarrow> cleanupFlowResources keys fr1))"

definition gcFlows :: "flowRegistry \<Rightarrow> flowRegistry option" where
  "gcFlows fr =
     (let (deletedFlows, m, st) =
            collectLeasedResources (cfg_FlowGCTimeout (fr_config fr)) (fr_now fr) (fr_flowStates fr) (fr_leased fr);
          fr1 = fr\<lparr>fr_flowStates := m, fr_leased := st\<rparr>
      in if deletedFlows = [] then Some fr1
         else cleanupFlowResources (map fst deletedFlows)
                (fold (\<lambda>(key, _). unpin_band (Priority key)) deletedFlows fr1))"

fun cleanupPriorityBandResources :: "int list \<Rightarrow> flowRegistry \<Rightarrow> flowRegistry option" where
  "cleanupPriorityBandResources [] fr = Some fr"
| "cleanupPriorityBandResources (priority # priorities) fr =
     (if map_of (fr_priorityBandStates fr) priority \<noteq> None then cleanupPriorityBandResources priorities fr
      else let fr1 = fr\<lparr>fr_config := (fr_config fr)\<lparr>cfg_PriorityBands :=
                           AList.delete priority (cfg_PriorityBands (fr_config fr))\<rparr>,
                        fr_perPriorityBandStats := AList.delete priority (fr_perPriorityBandStats fr)\<rparr>
           in (case for_shards (\<lambda>_ s. Some (shard_deletePriorityBand priority s)) 0 (fr_allShards fr1) fr1 of
                 None \<Rightarrow> None
               | Some fr2 \<Rightarrow> cleanupPriorityBandResources priorities fr2))"

definition deletePriorityBand :: "int \<Rightarrow> flowRegistry \<Rightarrow> flowRegistry option" where
  "deletePriorityBand priority fr =
     cleanupPriorityBandResources [priority]
       (fr\<lparr>fr_priorityBandStates := AList.delete priority (fr_priorityBandStates fr)\<rparr>)"

definition gcPriorityBands :: "flowRegistry \<Rightarrow> flowRegistry option" where
  "gcPriorityBands fr =
     (let (deletedBands, m, st) =
            collectLeasedResources (cfg_PriorityBandGCTimeout (fr_config fr)) (fr_now fr)
              (fr_priorityBandStates fr) (fr_leased fr);
          fr1 = fr\<lparr>fr_priorityBandStates := m, fr_leased := st\<rparr>
      in if deletedBands = [] then Some fr1 else cleanupPriorityBandResources (map fst deletedBands) fr1)"

definition shard_len :: "flowRegistry \<Rightarrow> string \<Rightarrow> int64" where
  "shard_len fr sid = (case map_of (fr_shards fr) sid of None \<Rightarrow> 0 | Some s \<Rightarrow> sh_totalLen s)"

definition sweepDrainingShards :: "flowRegistry \<Rightarrow> flowRegistry" where
  "sweepDrainingShards fr =
     (let shardsToDelete = filter (\<lambda>sid. shard_len fr sid = 0) (fr_drainingShards fr)
      in if shardsToDelete = [] then fr
         else updateAllShardsCacheLocked
                (fr\<lparr>fr_drainingShards := filter (\<lambda>sid. sid \<notin> set shardsToDelete) (fr_drainingShards fr)\<rparr>))"

definition executeGCCycle :: "flowRegistry \<Rightarrow> flowRegistry option" where
  "executeGCCycle fr =
     (case gcFlows fr of
        None \<Rightarrow> None
      | Some fr1 \<Rightarrow> map_option sweepDrainingShards (gcPriorityBands fr1))"

subsection \<open>Queue operations from the data path\<close>

text \<open>An operation on a shard's queue, with the registry's aggregator as the shard's parent.\<close>

definition via_shard ::
  "string \<Rightarrow> (world \<times> registryShard \<times> flowRegistry \<Rightarrow> ('a \<times> world \<times> registryShard \<times> flowRegistry) option) \<Rightarrow>
   world \<times> flowRegistry \<Rightarrow> ('a \<times> world \<times> flowRegistry) option" where
  "via_shard sid f = (\<lambda>(w, fr).
     case map_of (fr_shards fr) sid of
       None \<Rightarrow> None
     | Some s \<Rightarrow>
         (case f (w, s, fr) of
            None \<Rightarrow> None
          | Some (x, w1, s1, fr1) \<Rightarrow> Some (x, w1, fr1\<lparr>fr_shards := AList.update sid s1 (fr_shards fr1)\<rparr>)))"

definition registry_Add ::
  "string \<Rightarrow> flow_key \<Rightarrow> managedQueue \<Rightarrow> queue_item \<Rightarrow> world \<times> flowRegistry \<Rightarrow>
   (gerror option \<times> world \<times> flowRegistry) option" where
  "registry_Add sid key mq it = via_shard sid (shard_Add propagateStatsDelta key mq it)"

definition registry_Remove ::
  "string \<Rightarrow> flow_key \<Rightarrow> managedQueue \<Rightarrow> queue_handle option \<Rightarrow> world \<times> flowRegistry \<Rightarrow>
   ((gerror + queue_item) \<times> world \<times> flowRegistry) option" where
  "registry_Remove sid key mq handle = via_shard sid (shard_Remove propagateStatsDelta key mq handle)"

definition registry_Cleanup ::
  "string \<Rightarrow> flow_key \<Rightarrow> managedQueue \<Rightarrow> (queue_item \<Rightarrow> bool) \<Rightarrow> world \<times> flowRegistry \<Rightarrow>
   (queue_item list \<times> world \<times> flowRegistry) option" where
  "registry_Cleanup sid key mq predicate = via_shard sid (shard_Cleanup propagateStatsDelta key mq predicate)"

definition registry_Drain ::
  "string \<Rightarrow> flow_key \<Rightarrow> managedQueue \<Rightarrow> world \<times> flowRegistry \<Rightarrow>
   (queue_item list \<times> world \<times> flowRegistry) option" where
  "registry_Drain sid key mq = via_shard sid (shard_Drain propagateStatsDelta key mq)"

end
