(* ===== verification/Flow_Item.thy ===== *)
theory Flow_Item
  imports Safe_Queue
begin

text \<open>
  The life of a queued request (src/pkg/epp/flowcontrol/controller/internal/item.go): its
  final state, set once, and the channel that announces it. The mutable cells of an item
  are in the \<open>world\<close>; \<open>item_done\<close> lists what was sent on its \<open>done\<close> channel.
\<close>

subsection \<open>Operations\<close>

definition NewItem :: "flow_request \<Rightarrow> duration \<Rightarrow> gotime \<Rightarrow> nat \<Rightarrow> queue_item" where
  "NewItem req ttl t p = \<lparr>item_ptr = p, enqueueTime = t, effectiveTTL = ttl, originalRequest = req\<rparr>"

definition FinalState :: "world \<Rightarrow> queue_item \<Rightarrow> final_state option" where
  "FinalState w it = item_final w (item_ptr it)"

definition finalizeInternal :: "queue_outcome \<Rightarrow> gerror option \<Rightarrow> queue_item \<Rightarrow> world \<Rightarrow> world" where
  "finalizeInternal outcome err it w =
     (let finalState = \<lparr>Outcome = outcome, Err = err\<rparr>
      in w\<lparr>item_final := (item_final w)(item_ptr it \<mapsto> finalState),
           item_done := (item_done w)(item_ptr it := item_done w (item_ptr it) @ [finalState])\<rparr>)"

text \<open>
  \<open>onceFinalize.Do\<close>: the guarded function always stores the final state, so the once has
  run exactly when there is one.
\<close>

definition onceFinalize :: "(world \<Rightarrow> world) \<Rightarrow> queue_item \<Rightarrow> world \<Rightarrow> world" where
  "onceFinalize f it w = (if FinalState w it \<noteq> None then w else f w)"

definition inferOutcome :: "gerror \<Rightarrow> bool \<Rightarrow> queue_outcome \<times> gerror" where
  "inferOutcome cause isQueued =
     (let (specificErr, outcomeIfEvicted) =
            (if errors_Is cause ErrTTLExpired \<or> errors_Is cause ContextDeadlineExceeded
             then (Sentinel ErrTTLExpired, QueueOutcomeEvictedTTL)
             else if errors_Is cause ContextCanceled
             then (Errorf ''context cancelled'' [Sentinel ErrContextCancelled, cause], QueueOutcomeEvictedContextCancelled)
             else (cause, QueueOutcomeEvictedOther))
      in if isQueued then (outcomeIfEvicted, Errorf ''evicted'' [Sentinel ErrEvicted, specificErr])
         else (QueueOutcomeRejectedOther, Errorf ''rejected'' [Sentinel ErrRejected, specificErr]))"

definition Finalize :: "gerror \<Rightarrow> queue_item \<Rightarrow> world \<Rightarrow> world" where
  "Finalize cause it w =
     onceFinalize (\<lambda>w. let (outcome, finalErr) = inferOutcome cause (Handle w it \<noteq> None)
                       in finalizeInternal outcome (Some finalErr) it w) it w"

definition FinalizeWithOutcome :: "queue_outcome \<Rightarrow> gerror option \<Rightarrow> queue_item \<Rightarrow> world \<Rightarrow> world" where
  "FinalizeWithOutcome outcome err it w = onceFinalize (finalizeInternal outcome err it) it w"

subsection \<open>Once and for all\<close>

text \<open>
  The final states agree with what the channels carried: nothing for an item that is not
  final, exactly the final state for one that is.
\<close>

definition finals_ok :: "world \<Rightarrow> bool" where
  "finals_ok w \<longleftrightarrow> (\<forall>p. item_done w p = (case item_final w p of None \<Rightarrow> [] | Some s \<Rightarrow> [s]))"

text \<open>A later world keeps every final state that was set.\<close>

definition keeps_finals :: "world \<Rightarrow> world \<Rightarrow> bool" where
  "keeps_finals w w' \<longleftrightarrow> (\<forall>p s. item_final w p = Some s \<longrightarrow> item_final w' p = Some s)"

lemma keeps_finals_refl [simp]: "keeps_finals w w"
  by (simp add: keeps_finals_def)

lemma keeps_finals_trans: "keeps_finals w w1 \<Longrightarrow> keeps_finals w1 w2 \<Longrightarrow> keeps_finals w w2"
  by (simp add: keeps_finals_def)

lemma touches_finals: "touches X w w' \<Longrightarrow> finals_ok w' = finals_ok w \<and> keeps_finals w w' \<and> item_final w' = item_final w"
  by (simp add: touches_def finals_ok_def keeps_finals_def)

lemma FinalState_finalize [simp]:
  "FinalState (finalizeInternal oc err it w) it' =
     (if item_ptr it' = item_ptr it then Some \<lparr>Outcome = oc, Err = err\<rparr> else FinalState w it')"
  by (simp add: finalizeInternal_def Let_def FinalState_def)

lemma FinalizeWithOutcome_ok:
  "finals_ok w \<Longrightarrow> finals_ok (FinalizeWithOutcome oc err it w)"
  "keeps_finals w (FinalizeWithOutcome oc err it w)"
  by (auto simp: FinalizeWithOutcome_def onceFinalize_def finalizeInternal_def Let_def FinalState_def finals_ok_def keeps_finals_def)

lemma Finalize_is_once: "\<exists>oc err. Finalize cause it w = FinalizeWithOutcome oc (Some err) it w"
  unfolding Finalize_def FinalizeWithOutcome_def onceFinalize_def by (auto split: prod.splits)

lemma Finalize_ok:
  "finals_ok w \<Longrightarrow> finals_ok (Finalize cause it w)" "keeps_finals w (Finalize cause it w)"
  using Finalize_is_once [of cause it w] FinalizeWithOutcome_ok [of w] by metis+

lemma FinalState_FinalizeWithOutcome:
  "FinalState (FinalizeWithOutcome oc err it w) it =
     (case FinalState w it of None \<Rightarrow> Some \<lparr>Outcome = oc, Err = err\<rparr> | Some s \<Rightarrow> Some s)"
  by (auto simp: FinalizeWithOutcome_def onceFinalize_def split: option.split)

lemma FinalState_FinalizeWithOutcome_other:
  "item_ptr it' \<noteq> item_ptr it \<Longrightarrow> FinalState (FinalizeWithOutcome oc err it w) it' = FinalState w it'"
  by (simp add: FinalizeWithOutcome_def onceFinalize_def)

lemma finalize_cells [simp]:
  "item_handle (FinalizeWithOutcome oc err it w) = item_handle w"
  "isInvalidated (FinalizeWithOutcome oc err it w) = isInvalidated w"
  "next_addr (FinalizeWithOutcome oc err it w) = next_addr w"
  by (simp_all add: FinalizeWithOutcome_def onceFinalize_def finalizeInternal_def Let_def)

text \<open>A queue does not look at the final states.\<close>

lemma world_ok_finalize [simp]: "world_ok (FinalizeWithOutcome oc err it w) = world_ok w"
  by (simp add: world_ok_def)

subsection \<open>What an outcome means\<close>

text \<open>
  The pairs a caller may see: dispatched without an error; rejected or evicted with an
  error that carries the corresponding sentinel.
\<close>

fun outcome_ok :: "queue_outcome \<Rightarrow> gerror option \<Rightarrow> bool" where
  "outcome_ok QueueOutcomeNotYetFinalized err = False"
| "outcome_ok QueueOutcomeDispatched err = (err = None)"
| "outcome_ok QueueOutcomeRejectedCapacity err = (\<exists>e. err = Some e \<and> errors_Is e ErrRejected)"
| "outcome_ok QueueOutcomeRejectedOther err = (\<exists>e. err = Some e \<and> errors_Is e ErrRejected)"
| "outcome_ok QueueOutcomeEvictedTTL err = (\<exists>e. err = Some e \<and> errors_Is e ErrEvicted \<and> errors_Is e ErrTTLExpired)"
| "outcome_ok QueueOutcomeEvictedContextCancelled err =
     (\<exists>e. err = Some e \<and> errors_Is e ErrEvicted \<and> errors_Is e ErrContextCancelled)"
| "outcome_ok QueueOutcomeEvictedOther err = (\<exists>e. err = Some e \<and> errors_Is e ErrEvicted)"



datatype finalization = ByCause gerror | ByOutcome queue_outcome "gerror option"

primrec finalize :: "queue_item \<Rightarrow> finalization \<Rightarrow> world \<Rightarrow> world" where
  "finalize it (ByCause cause) = Finalize cause it"
| "finalize it (ByOutcome oc err) = FinalizeWithOutcome oc err it"

lemma finalize_ok: "finals_ok w \<Longrightarrow> finals_ok (finalize it f w)" "keeps_finals w (finalize it f w)"
  by (cases f; simp add: Finalize_ok FinalizeWithOutcome_ok)+

lemma finalize_settles: "FinalState (finalize it f w) it \<noteq> None"
  by (cases f) (auto simp: Finalize_def onceFinalize_def FinalState_FinalizeWithOutcome split: prod.splits option.splits)

lemma finalize_list_ok: "finals_ok w \<Longrightarrow> finals_ok (fold (finalize it) fs w)" "keeps_finals w (fold (finalize it) fs w)"
proof (induction fs arbitrary: w)
  case (Cons f fs)
  { case 1 then show ?case using Cons finalize_ok by simp }
  { case 2 then show ?case using Cons finalize_ok keeps_finals_trans by fastforce }
qed simp_all

text \<open>
  C10: an item is finalized once: whatever finalizations are tried in whatever order, the
  first one decides the final state, and the channel carries exactly that one value.
\<close>

theorem finalized_once:
  assumes "finals_ok w" "FinalState w it = None"
  shows "\<exists>s. FinalState (finalize it f w) it = Some s \<and>
    FinalState (fold (finalize it) (f # fs) w) it = Some s \<and> item_done (fold (finalize it) (f # fs) w) (item_ptr it) = [s]"
proof -
  obtain s where s: "FinalState (finalize it f w) it = Some s" using finalize_settles by blast
  have "keeps_finals (finalize it f w) (fold (finalize it) fs (finalize it f w))" by (rule finalize_list_ok(2))
  then have k: "FinalState (fold (finalize it) (f # fs) w) it = Some s"
    using s by (simp add: keeps_finals_def FinalState_def)
  moreover have "finals_ok (fold (finalize it) (f # fs) w)" by (rule finalize_list_ok(1) [OF assms(1)])
  ultimately show ?thesis using s by (simp add: finals_ok_def FinalState_def)
qed

lemma finals_ok_init: "finals_ok init_world"
  by (simp add: finals_ok_def init_world_def)

definition plain_item :: queue_item where
  "plain_item = NewItem \<lparr>req_id = ''r'', req_flowKey = \<lparr>ID = ''f'', Priority = 0\<rparr>, req_byteSize = 1,
     receivedTimestamp = 0, initialEffectiveTTL = 0, infReq_headers = None\<rparr> 0 0 0"

theorem finalized_once_witness:
  "item_done (fold (finalize plain_item) [ByOutcome QueueOutcomeDispatched None, ByCause (Sentinel ContextCanceled)] init_world)
     (item_ptr plain_item) = [\<lparr>Outcome = QueueOutcomeDispatched, Err = None\<rparr>]"
proof -
  have "FinalState init_world plain_item = None" by (simp add: FinalState_def init_world_def)
  then show ?thesis
    using finalized_once [OF finals_ok_init, of plain_item "ByOutcome QueueOutcomeDispatched None" "[ByCause (Sentinel ContextCanceled)]"]
    by (auto simp: FinalState_FinalizeWithOutcome)
qed

end
