(* ===== verification/Registry_Plane.thy ===== *)
theory Registry_Plane
  imports Registry Flow_Item
begin

text \<open>
  The data plane of the registry: queue operations that go through a shard keep the
  statistics of the queue, the band, the shard and the registry exact together.
\<close>

subsection \<open>Invariant\<close>

definition reg_elems :: "flowRegistry \<Rightarrow> queue_item multiset" where
  "reg_elems fr = asum shard_elems (fr_shards fr)"

definition band_len_of :: "int \<Rightarrow> registryShard \<Rightarrow> int64" where
  "band_len_of p s = (case map_of (sh_priorityBands s) p of None \<Rightarrow> 0 | Some band \<Rightarrow> pb_len band)"

definition band_bytes_of :: "int \<Rightarrow> registryShard \<Rightarrow> int64" where
  "band_bytes_of p s = (case map_of (sh_priorityBands s) p of None \<Rightarrow> 0 | Some band \<Rightarrow> pb_byteSize band)"

text \<open>The registry's counters are the sums over the shards.\<close>

definition sums_ok :: "flowRegistry \<Rightarrow> bool" where
  "sums_ok fr \<longleftrightarrow> fr_totalLen fr = asum sh_totalLen (fr_shards fr) \<and>
     fr_totalByteSize fr = asum sh_totalByteSize (fr_shards fr) \<and>
     (\<forall>p st. map_of (fr_perPriorityBandStats fr) p = Some st \<longrightarrow>
        bst_len st = asum (band_len_of p) (fr_shards fr) \<and> bst_byteSize st = asum (band_bytes_of p) (fr_shards fr))"

definition shards_ok :: "world \<Rightarrow> flowRegistry \<Rightarrow> bool" where
  "shards_ok w fr \<longleftrightarrow> distinct (map fst (fr_shards fr)) \<and>
     (\<forall>(sid, s)\<in>set (fr_shards fr). shard_inv w s \<and>
        (\<forall>p\<in>fst ` set (sh_priorityBands s). map_of (fr_perPriorityBandStats fr) p \<noteq> None))"

definition plane_inv :: "world \<Rightarrow> flowRegistry \<Rightarrow> bool" where
  "plane_inv w fr \<longleftrightarrow> world_ok w \<and> shards_ok w fr \<and> sums_ok fr \<and> unique_ptrs (reg_elems fr)"

lemma shard_inv_frame:
  assumes "world_ok w" "shard_inv w s" "touches X w w'" "X \<inter> ptrs (shard_elems s) = {}"
  shows "shard_inv w' s"
proof -
  have "band_inv w' p band" if "(p, band) \<in> set (sh_priorityBands s)" for p band
  proof -
    have "ptrs (band_elems band) \<subseteq> ptrs (shard_elems s)" unfolding shard_elems_def using that by (rule asum_ptrs)
    then have "X \<inter> ptrs (band_elems band) = {}" using assms(4) by blast
    moreover have "band_inv w p band" using assms(2) that by (auto simp: shard_inv_def)
    ultimately show ?thesis using band_inv_frame [OF assms(1) _ assms(3)] by blast
  qed
  then show ?thesis using assms(2) by (auto simp: shard_inv_def)
qed

lemma shards_okI:
  assumes "distinct (map fst (fr_shards fr))" "\<And>sid s. (sid, s) \<in> set (fr_shards fr) \<Longrightarrow> shard_inv w s"
    and "\<And>sid s p. (sid, s) \<in> set (fr_shards fr) \<Longrightarrow> p \<in> fst ` set (sh_priorityBands s) \<Longrightarrow>
      map_of (fr_perPriorityBandStats fr) p \<noteq> None"
  shows "shards_ok w fr"
  using assms unfolding shards_ok_def by blast

lemma shards_ok_shard:
  "shards_ok w fr \<Longrightarrow> map_of (fr_shards fr) sid = Some s \<Longrightarrow> shard_inv w s"
  by (auto simp: shards_ok_def dest!: map_of_SomeD)

definition other_shards :: "string \<Rightarrow> flowRegistry \<Rightarrow> queue_item multiset" where
  "other_shards sid fr = asum shard_elems (AList.delete sid (fr_shards fr))"

lemma reg_elems_split:
  "shards_ok w fr \<Longrightarrow> map_of (fr_shards fr) sid = Some s \<Longrightarrow> reg_elems fr = other_shards sid fr + shard_elems s"
  unfolding reg_elems_def other_shards_def shards_ok_def using asum_delete [of "fr_shards fr" sid s shard_elems] by simp

text \<open>The registry after an operation on one queue of one shard.\<close>

definition set_in_shard ::
  "string \<Rightarrow> flow_key \<Rightarrow> managedQueue \<Rightarrow> int64 \<Rightarrow> int64 \<Rightarrow> registryShard \<Rightarrow> flowRegistry \<Rightarrow> flowRegistry" where
  "set_in_shard sid key mq dl db s fr =
     (case propagateStatsDelta (Priority key) dl db fr of
        None \<Rightarrow> fr
      | Some fr1 \<Rightarrow> fr1\<lparr>fr_shards := AList.update sid (set_queue key mq dl db s) (fr_shards fr1)\<rparr>)"

lemma propagate_total:
  assumes "shards_ok w fr" "map_of (fr_shards fr) sid = Some s" "ManagedQueue key s = Inr mq"
  shows "\<exists>st fr1. map_of (fr_perPriorityBandStats fr) (Priority key) = Some st \<and>
    propagateStatsDelta (Priority key) dl db fr = Some fr1"
proof -
  obtain band where "map_of (sh_priorityBands s) (Priority key) = Some band" using assms(3) by (auto simp: ManagedQueue_Inr)
  then have "Priority key \<in> fst ` set (sh_priorityBands s)" by (metis domI dom_map_of_conv_image_fst)
  moreover have "(sid, s) \<in> set (fr_shards fr)" using assms(2) by (rule map_of_SomeD)
  ultimately have "map_of (fr_perPriorityBandStats fr) (Priority key) \<noteq> None"
    using assms(1) unfolding shards_ok_def by fast
  then show ?thesis by (auto simp: propagateStatsDelta_def Let_def)
qed

lemma propagate_frame:
  assumes "propagateStatsDelta p dl db fr = Some fr1"
  shows "fr_shards fr1 = fr_shards fr" "fr_config fr1 = fr_config fr" "fr_activeShards fr1 = fr_activeShards fr"
    "fr_drainingShards fr1 = fr_drainingShards fr" "fr_allShards fr1 = fr_allShards fr"
    "fr_flowStates fr1 = fr_flowStates fr" "fr_priorityBandStates fr1 = fr_priorityBandStates fr"
    "fr_leased fr1 = fr_leased fr" "fr_now fr1 = fr_now fr" "fr_nextShardID fr1 = fr_nextShardID fr"
    "fr_init fr1 = fr_init fr" "fr_nextObj fr1 = fr_nextObj fr"
    "map fst (fr_perPriorityBandStats fr1) = map fst (fr_perPriorityBandStats fr)"
  using assms by (auto simp: propagateStatsDelta_def Let_def keys_update split: option.splits)

lemma set_queue_band_sums:
  assumes "ManagedQueue key s = Inr mq"
  shows "sh_totalLen (set_queue key mq' dl db s) = sh_totalLen s + dl"
    "sh_totalByteSize (set_queue key mq' dl db s) = sh_totalByteSize s + db"
    "band_len_of p (set_queue key mq' dl db s) = band_len_of p s + (if p = Priority key then dl else 0)"
    "band_bytes_of p (set_queue key mq' dl db s) = band_bytes_of p s + (if p = Priority key then db else 0)"
    "map fst (sh_priorityBands (set_queue key mq' dl db s)) = map fst (sh_priorityBands s)"
  using assms
  by (auto simp: ManagedQueue_Inr set_queue_def band_len_of_def band_bytes_of_def update_conv' keys_update)

lemma set_in_shard_inv:
  assumes inv: "plane_inv w fr" and s: "map_of (fr_shards fr) sid = Some s" and at: "ManagedQueue key s = Inr mq"
    and w': "world_ok w'" and t: "touches X w w'" and X: "X \<inter> ptrs (other_shards sid fr) = {}"
    and s': "shard_inv w' (set_queue key mq' dl db s)"
    and u: "unique_ptrs (other_shards sid fr + shard_elems (set_queue key mq' dl db s))"
  shows "plane_inv w' (set_in_shard sid key mq' dl db s fr)"
    "reg_elems (set_in_shard sid key mq' dl db s fr) = other_shards sid fr + shard_elems (set_queue key mq' dl db s)"
proof -
  let ?s' = "set_queue key mq' dl db s" and ?fr' = "set_in_shard sid key mq' dl db s fr"
  have ok: "shards_ok w fr" "sums_ok fr" "world_ok w" using inv by (simp_all add: plane_inv_def)
  have dist: "distinct (map fst (fr_shards fr))" using ok(1) by (simp add: shards_ok_def)
  obtain st fr1 where st: "map_of (fr_perPriorityBandStats fr) (Priority key) = Some st"
    and fr1: "propagateStatsDelta (Priority key) dl db fr = Some fr1"
    using propagate_total [OF ok(1) s at] by blast
  note pf = propagate_frame [OF fr1] and sq = set_queue_band_sums [OF at, where mq' = mq' and dl = dl and db = db]
  have fr': "?fr' = fr1\<lparr>fr_shards := AList.update sid ?s' (fr_shards fr)\<rparr>" by (simp add: set_in_shard_def fr1 pf)
  then have sel: "fr_shards ?fr' = AList.update sid ?s' (fr_shards fr)"
    "fr_perPriorityBandStats ?fr' = fr_perPriorityBandStats fr1" by simp_all
  have stats: "map_of (fr_perPriorityBandStats fr1) p =
      (if p = Priority key then Some (st\<lparr>bst_len := bst_len st + dl, bst_byteSize := bst_byteSize st + db\<rparr>)
       else map_of (fr_perPriorityBandStats fr) p)" for p
    using fr1 st by (auto simp: propagateStatsDelta_def Let_def update_conv')
  have other: "shard_inv w' s2" if "(sid2, s2) \<in> set (fr_shards fr)" "sid2 \<noteq> sid" for sid2 s2
  proof -
    have "(sid2, s2) \<in> set (AList.delete sid (fr_shards fr))" using that by (simp add: mem_delete)
    then have "ptrs (shard_elems s2) \<subseteq> ptrs (other_shards sid fr)" unfolding other_shards_def by (rule asum_ptrs)
    then have "X \<inter> ptrs (shard_elems s2) = {}" using X by blast
    moreover have "shard_inv w s2" using ok(1) that(1) by (auto simp: shards_ok_def)
    ultimately show ?thesis using shard_inv_frame [OF ok(3) _ t] by blast
  qed
  have bands: "map_of (fr_perPriorityBandStats fr1) p \<noteq> None"
    if "(sid2, s2) \<in> set (AList.update sid ?s' (fr_shards fr))" "p \<in> fst ` set (sh_priorityBands s2)" for sid2 s2 p
  proof -
    have "\<exists>s3. (sid2, s3) \<in> set (fr_shards fr) \<and> p \<in> fst ` set (sh_priorityBands s3)"
      using that map_of_SomeD [OF s] arg_cong [OF sq(5), of set] by (auto simp: mem_update [OF dist])
    then have "map_of (fr_perPriorityBandStats fr) p \<noteq> None" using ok(1) unfolding shards_ok_def by fast
    then show ?thesis by (simp add: stats)
  qed
  have "shard_inv w' s2" if "(sid2, s2) \<in> set (AList.update sid ?s' (fr_shards fr))" for sid2 s2
    using that other s' by (auto simp: mem_update [OF dist])
  then have "shards_ok w' ?fr'"
    using bands distinct_update [OF dist] by (intro shards_okI) (unfold sel, blast+)
  moreover have "sums_ok ?fr'"
    using ok(2) fr1 st stats sq unfolding sums_ok_def fr'
    by (auto simp: propagateStatsDelta_def Let_def asum_update_diff [OF s])
  moreover have el: "reg_elems ?fr' = other_shards sid fr + shard_elems ?s'"
    using asum_delete [of "AList.update sid ?s' (fr_shards fr)" sid ?s' shard_elems] dist
    by (simp add: reg_elems_def fr' other_shards_def distinct_update update_conv')
  ultimately show "plane_inv w' ?fr'" "reg_elems ?fr' = other_shards sid fr + shard_elems ?s'"
    using w' u by (simp_all add: plane_inv_def)
qed

subsection \<open>Operations\<close>

lemma unique_ptrs_mono: "M \<subseteq># N \<Longrightarrow> unique_ptrs N \<Longrightarrow> unique_ptrs M"
  unfolding unique_ptrs_def by (meson image_mset_subseteq_mono mset_subset_eq_count order_trans)

lemma unique_ptrs_add_mset: "unique_ptrs M \<Longrightarrow> item_ptr it \<notin> ptrs M \<Longrightarrow> unique_ptrs (add_mset it M)"
  unfolding unique_ptrs_def by (auto simp: not_in_iff [symmetric])

lemma update_triv: "map_of xs k = Some v \<Longrightarrow> AList.update k v xs = xs"
  by (induction xs) auto

lemma propagate_zero: "map_of (fr_perPriorityBandStats fr) p = Some st \<Longrightarrow> propagateStatsDelta p 0 0 fr = Some fr"
  by (cases fr; cases st) (simp add: propagateStatsDelta_def Let_def update_triv)

definition queue_at :: "flowRegistry \<Rightarrow> string \<Rightarrow> flow_key \<Rightarrow> registryShard \<Rightarrow> managedQueue \<Rightarrow> bool" where
  "queue_at fr sid key s mq \<longleftrightarrow> map_of (fr_shards fr) sid = Some s \<and> ManagedQueue key s = Inr mq"

lemma queue_elems_reg: "plane_inv w fr \<Longrightarrow> queue_at fr sid key s mq \<Longrightarrow> mq_elems mq \<subseteq># reg_elems fr"
  using reg_elems_split [of w fr sid s] shard_elems_split [of w s key mq] shards_ok_shard [of w fr sid s]
  by (auto simp: plane_inv_def queue_at_def)

lemma queue_at_inv: "plane_inv w fr \<Longrightarrow> queue_at fr sid key s mq \<Longrightarrow> shard_inv w s \<and> mq_inv w mq \<and> mq_key mq = key"
  using shards_ok_shard [of w fr sid s] shard_queue_inv [of w s key mq] by (auto simp: plane_inv_def queue_at_def)

lemma registry_Add_ok:
  assumes inv: "plane_inv w fr" and at: "queue_at fr sid key s mq" and dr: "\<not> sh_isDraining s"
    and p: "item_ptr it \<notin> ptrs (reg_elems fr)" and room: "Suc (size (mq_elems mq)) < 2 ^ 63"
  shows "\<exists>w' mq'. registry_Add sid key mq it (w, fr) =
      Some (None, w', set_in_shard sid key mq' 1 (item_size it) s fr) \<and>
    touches {item_ptr it} w w' \<and> plane_inv w' (set_in_shard sid key mq' 1 (item_size it) s fr) \<and>
    mq_elems mq' = add_mset it (mq_elems mq) \<and> mq_policy mq' = mq_policy mq \<and>
    reg_elems (set_in_shard sid key mq' 1 (item_size it) s fr) = add_mset it (reg_elems fr)"
proof -
  have i: "world_ok w" "shards_ok w fr" "unique_ptrs (reg_elems fr)" using inv by (simp_all add: plane_inv_def)
  have s: "map_of (fr_shards fr) sid = Some s" and m: "ManagedQueue key s = Inr mq" using at by (simp_all add: queue_at_def)
  have si: "shard_inv w s" by (rule shards_ok_shard [OF i(2) s])
  note el = reg_elems_split [OF i(2) s]
  obtain fr1 where fr1: "propagateStatsDelta (Priority key) 1 (item_size it) fr = Some fr1"
    using propagate_total [OF i(2) s m] by blast
  have ps: "item_ptr it \<notin> ptrs (shard_elems s)" using p el by auto
  obtain w' mq' where A: "shard_Add propagateStatsDelta key mq it (w, s, fr) =
      Some (None, w', set_queue key mq' 1 (item_size it) s, fr1)"
    "world_ok w'" "touches {item_ptr it} w w'" "mq_elems mq' = add_mset it (mq_elems mq)"
    "shard_inv w' (set_queue key mq' 1 (item_size it) s)"
    "shard_elems (set_queue key mq' 1 (item_size it) s) = add_mset it (shard_elems s)" "mq_policy mq' = mq_policy mq"
    using shard_Add_ok [OF i(1) si m dr ps room, of propagateStatsDelta fr fr1, OF fr1] by blast
  have X: "{item_ptr it} \<inter> ptrs (other_shards sid fr) = {}" using p el by auto
  have u: "unique_ptrs (other_shards sid fr + shard_elems (set_queue key mq' 1 (item_size it) s))"
    using unique_ptrs_add_mset [OF i(3) p] el by (simp add: A(6))
  note S = set_in_shard_inv [OF inv s m A(2,3) X A(5) u]
  have "registry_Add sid key mq it (w, fr) = Some (None, w', set_in_shard sid key mq' 1 (item_size it) s fr)"
    using A(1) s fr1 by (simp add: registry_Add_def via_shard_def set_in_shard_def)
  then show ?thesis using A(3,4,7) S el by (auto simp: A(6))
qed

lemma registry_Remove_ok:
  assumes inv: "plane_inv w fr" and at: "queue_at fr sid key s mq" and it: "it \<in># mq_elems mq"
  shows "\<exists>mq'. registry_Remove sid key mq (Handle w it) (w, fr) =
      Some (Inr it, invalidate_item it w, set_in_shard sid key mq' (-1) (- item_size it) s fr) \<and>
    plane_inv (invalidate_item it w) (set_in_shard sid key mq' (-1) (- item_size it) s fr) \<and>
    mq_elems mq' = mq_elems mq - {#it#} \<and> mq_policy mq' = mq_policy mq \<and>
    reg_elems (set_in_shard sid key mq' (-1) (- item_size it) s fr) = reg_elems fr - {#it#}"
proof -
  have i: "world_ok w" "shards_ok w fr" "unique_ptrs (reg_elems fr)" using inv by (simp_all add: plane_inv_def)
  have s: "map_of (fr_shards fr) sid = Some s" and m: "ManagedQueue key s = Inr mq" using at by (simp_all add: queue_at_def)
  have si: "shard_inv w s" by (rule shards_ok_shard [OF i(2) s])
  note el = reg_elems_split [OF i(2) s]
  have us: "unique_ptrs (shard_elems s)" by (rule unique_ptrs_mono [OF _ i(3)]) (simp add: el)
  obtain fr1 where fr1: "propagateStatsDelta (Priority key) (-1) (- item_size it) fr = Some fr1"
    using propagate_total [OF i(2) s m] by blast
  obtain mq' where A: "shard_Remove propagateStatsDelta key mq (Handle w it) (w, s, fr) =
      Some (Inr it, invalidate_item it w, set_queue key mq' (-1) (- item_size it) s, fr1)"
    "mq_elems mq' = mq_elems mq - {#it#}"
    "shard_inv (invalidate_item it w) (set_queue key mq' (-1) (- item_size it) s)"
    "shard_elems (set_queue key mq' (-1) (- item_size it) s) = shard_elems s - {#it#}" "mq_policy mq' = mq_policy mq"
    using shard_Remove_ok [OF i(1) si m us it, of propagateStatsDelta fr fr1, OF fr1] by blast
  have its: "it \<in># shard_elems s" using it shard_elems_split [OF si m] by simp
  have "ptrs (other_shards sid fr) \<inter> ptrs (shard_elems s) = {}"
    using unique_ptrs_add [of "other_shards sid fr" "shard_elems s"] i(3) el by simp
  then have X: "{item_ptr it} \<inter> ptrs (other_shards sid fr) = {}" using its by blast
  have t: "touches {item_ptr it} w (invalidate_item it w)" by (rule touches_invalidate_item) simp
  have u: "unique_ptrs (other_shards sid fr + shard_elems (set_queue key mq' (-1) (- item_size it) s))"
    by (rule unique_ptrs_mono [OF _ i(3)]) (simp add: el A(4))
  note S = set_in_shard_inv [OF inv s m world_ok_invalidate_item [OF i(1)] t X A(3) u]
  have "registry_Remove sid key mq (Handle w it) (w, fr) =
      Some (Inr it, invalidate_item it w, set_in_shard sid key mq' (-1) (- item_size it) s fr)"
    using A(1) s fr1 by (simp add: registry_Remove_def via_shard_def set_in_shard_def)
  moreover have "reg_elems (set_in_shard sid key mq' (-1) (- item_size it) s fr) = reg_elems fr - {#it#}"
    using S(2) its by (simp add: el A(4))
  ultimately show ?thesis using A(2,5) S(1) by blast
qed

text \<open>\<open>Cleanup\<close> and \<open>Drain\<close> at once: they remove the items \<open>rs\<close> of the queue.\<close>

lemma registry_removal_ok:
  assumes inv: "plane_inv w fr" and at: "queue_at fr sid key s mq"
    and A: "f (w, s, fr) = Some (rs, fold invalidate_item rs w,
        set_queue key mq' (- of_nat (length rs)) (- (\<Sum>it\<leftarrow>rs. item_size it)) s, fr1)"
      "shard_inv (fold invalidate_item rs w) (set_queue key mq' (- of_nat (length rs)) (- (\<Sum>it\<leftarrow>rs. item_size it)) s)"
      "shard_elems (set_queue key mq' (- of_nat (length rs)) (- (\<Sum>it\<leftarrow>rs. item_size it)) s) + mset rs = shard_elems s"
      "if rs = [] then fr1 = fr
       else propagateStatsDelta (Priority key) (- of_nat (length rs)) (- (\<Sum>it\<leftarrow>rs. item_size it)) fr = Some fr1"
  shows "\<exists>fr'. via_shard sid f (w, fr) = Some (rs, fold invalidate_item rs w, fr') \<and>
    fr' = set_in_shard sid key mq' (- of_nat (length rs)) (- (\<Sum>it\<leftarrow>rs. item_size it)) s fr \<and>
    plane_inv (fold invalidate_item rs w) fr' \<and> reg_elems fr' + mset rs = reg_elems fr"
proof -
  let ?w' = "fold invalidate_item rs w" and ?dl = "- of_nat (length rs)" and ?db = "- (\<Sum>it\<leftarrow>rs. item_size it)"
  have i: "world_ok w" "shards_ok w fr" "unique_ptrs (reg_elems fr)" using inv by (simp_all add: plane_inv_def)
  have s: "map_of (fr_shards fr) sid = Some s" and m: "ManagedQueue key s = Inr mq" using at by (simp_all add: queue_at_def)
  note el = reg_elems_split [OF i(2) s]
  have fr1: "propagateStatsDelta (Priority key) ?dl ?db fr = Some fr1"
    using A(4) propagate_total [OF i(2) s m, of 0 0] propagate_zero [of fr "Priority key"] by (auto split: if_splits)
  have "ptrs (other_shards sid fr) \<inter> ptrs (shard_elems s) = {}"
    using unique_ptrs_add [of "other_shards sid fr" "shard_elems s"] i(3) el by simp
  moreover have rs: "item_ptr ` set rs \<subseteq> ptrs (shard_elems s)" unfolding A(3) [symmetric] by auto
  ultimately have X: "item_ptr ` set rs \<inter> ptrs (other_shards sid fr) = {}" by blast
  have t: "touches (item_ptr ` set rs) w ?w'" by (rule touches_invalidate_items) simp
  have u: "unique_ptrs (other_shards sid fr + shard_elems (set_queue key mq' ?dl ?db s))"
    by (rule unique_ptrs_mono [OF _ i(3)]) (simp add: el A(3) [symmetric])
  note S = set_in_shard_inv [OF inv s m world_ok_invalidate_items [OF i(1)] t X A(2) u]
  have "via_shard sid f (w, fr) = Some (rs, ?w', set_in_shard sid key mq' ?dl ?db s fr)"
    using A(1) s fr1 by (simp add: via_shard_def set_in_shard_def)
  moreover have "reg_elems (set_in_shard sid key mq' ?dl ?db s fr) + mset rs = reg_elems fr"
    using S(2) A(3) by (simp add: el add.assoc)
  ultimately show ?thesis using S(1) by blast
qed

lemma registry_Cleanup_ok:
  assumes inv: "plane_inv w fr" and at: "queue_at fr sid key s mq"
  shows "\<exists>rs fr' mq'. registry_Cleanup sid key mq P (w, fr) = Some (rs, fold invalidate_item rs w, fr') \<and>
    fr' = set_in_shard sid key mq' (- of_nat (length rs)) (- (\<Sum>it\<leftarrow>rs. item_size it)) s fr \<and>
    mset rs = filter_mset P (mq_elems mq) \<and> mq_elems mq' = filter_mset (\<lambda>it. \<not> P it) (mq_elems mq) \<and>
    mq_policy mq' = mq_policy mq \<and> plane_inv (fold invalidate_item rs w) fr' \<and> reg_elems fr' + mset rs = reg_elems fr"
proof -
  have i: "world_ok w" "shards_ok w fr" "unique_ptrs (reg_elems fr)" using inv by (simp_all add: plane_inv_def)
  have s: "map_of (fr_shards fr) sid = Some s" and m: "ManagedQueue key s = Inr mq" using at by (simp_all add: queue_at_def)
  have si: "shard_inv w s" by (rule shards_ok_shard [OF i(2) s])
  have us: "unique_ptrs (shard_elems s)" by (rule unique_ptrs_mono [OF _ i(3)]) (simp add: reg_elems_split [OF i(2) s])
  note q = shard_queue_inv [OF si m]
  have np: "shard_propagateStatsDelta propagateStatsDelta (Priority (mq_key mq)) dl db (s, fr) \<noteq> None" for dl db
    using shard_propagate_Some [OF m, of propagateStatsDelta dl db fr] propagate_total [OF i(2) s m, of dl db] q(2) by auto
  obtain rs mq' sr where C: "mq_Cleanup (shard_propagateStatsDelta propagateStatsDelta) P (w, mq, s, fr) =
      Some (rs, fold invalidate_item rs w, mq', sr)"
    "mset rs = filter_mset P (mq_elems mq)" "mq_elems mq' = filter_mset (\<lambda>it. \<not> P it) (mq_elems mq)"
    "mq_inv (fold invalidate_item rs w) mq'" "mq_key mq' = mq_key mq"
    "mq_len mq' = mq_len mq - of_nat (length rs)" "mq_byteSize mq' = mq_byteSize mq - (\<Sum>it\<leftarrow>rs. item_size it)"
    "if rs = [] then sr = (s, fr)
     else shard_propagateStatsDelta propagateStatsDelta (Priority (mq_key mq)) (- of_nat (length rs))
       (- (\<Sum>it\<leftarrow>rs. item_size it)) (s, fr) = Some sr" "mq_policy mq' = mq_policy mq"
    using mq_Cleanup_ok [where s = "(s, fr)" and onStatsDelta = "shard_propagateStatsDelta propagateStatsDelta" and P = P, OF i(1) q(1) np]
    by blast
  obtain s1 fr1 where sr: "sr = (s1, fr1)" by (cases sr)
  have part: "mq_elems mq = mset rs + mq_elems mq'" unfolding C(2,3) by (rule multiset_partition)
  note R = shard_removal_ok [where onStatsDelta = propagateStatsDelta and f = "mq_Cleanup (shard_propagateStatsDelta propagateStatsDelta) P", OF i(1) si m us part C(1) [unfolded sr] C(4-7) C(8) [unfolded sr]]
  show ?thesis
    using registry_removal_ok [OF inv at, where f = "shard_Cleanup propagateStatsDelta key mq P"] R C(2,3,9)
    unfolding registry_Cleanup_def shard_Cleanup_def by blast
qed

lemma registry_Drain_ok:
  assumes inv: "plane_inv w fr" and at: "queue_at fr sid key s mq"
  shows "\<exists>rs fr' mq'. registry_Drain sid key mq (w, fr) = Some (rs, fold invalidate_item rs w, fr') \<and>
    fr' = set_in_shard sid key mq' (- of_nat (length rs)) (- (\<Sum>it\<leftarrow>rs. item_size it)) s fr \<and>
    mset rs = mq_elems mq \<and> mq_elems mq' = {#} \<and>
    mq_policy mq' = mq_policy mq \<and> plane_inv (fold invalidate_item rs w) fr' \<and> reg_elems fr' + mset rs = reg_elems fr"
proof -
  have i: "world_ok w" "shards_ok w fr" "unique_ptrs (reg_elems fr)" using inv by (simp_all add: plane_inv_def)
  have s: "map_of (fr_shards fr) sid = Some s" and m: "ManagedQueue key s = Inr mq" using at by (simp_all add: queue_at_def)
  have si: "shard_inv w s" by (rule shards_ok_shard [OF i(2) s])
  have us: "unique_ptrs (shard_elems s)" by (rule unique_ptrs_mono [OF _ i(3)]) (simp add: reg_elems_split [OF i(2) s])
  note q = shard_queue_inv [OF si m]
  have np: "shard_propagateStatsDelta propagateStatsDelta (Priority (mq_key mq)) dl db (s, fr) \<noteq> None" for dl db
    using shard_propagate_Some [OF m, of propagateStatsDelta dl db fr] propagate_total [OF i(2) s m, of dl db] q(2) by auto
  obtain rs mq' sr where C: "mq_Drain (shard_propagateStatsDelta propagateStatsDelta) (w, mq, s, fr) =
      Some (rs, fold invalidate_item rs w, mq', sr)"
    "mset rs = mq_elems mq" "mq_elems mq' = {#}"
    "mq_inv (fold invalidate_item rs w) mq'" "mq_key mq' = mq_key mq"
    "mq_len mq' = mq_len mq - of_nat (length rs)" "mq_byteSize mq' = mq_byteSize mq - (\<Sum>it\<leftarrow>rs. item_size it)"
    "if rs = [] then sr = (s, fr)
     else shard_propagateStatsDelta propagateStatsDelta (Priority (mq_key mq)) (- of_nat (length rs))
       (- (\<Sum>it\<leftarrow>rs. item_size it)) (s, fr) = Some sr" "mq_policy mq' = mq_policy mq"
    using mq_Drain_ok [where s = "(s, fr)" and onStatsDelta = "shard_propagateStatsDelta propagateStatsDelta", OF i(1) q(1) np]
    by blast
  obtain s1 fr1 where sr: "sr = (s1, fr1)" by (cases sr)
  have part: "mq_elems mq = mset rs + mq_elems mq'" unfolding C(2,3) by simp
  note R = shard_removal_ok [where onStatsDelta = propagateStatsDelta and f = "mq_Drain (shard_propagateStatsDelta propagateStatsDelta)", OF i(1) si m us part C(1) [unfolded sr] C(4-7) C(8) [unfolded sr]]
  show ?thesis
    using registry_removal_ok [OF inv at, where f = "shard_Drain propagateStatsDelta key mq"] R C(2,3,9)
    unfolding registry_Drain_def shard_Drain_def by blast
qed

end
