(* ===== verification/Fairness.thy ===== *)
theory Fairness
  imports Shard
begin

text \<open>
  The fairness policies (src/pkg/epp/framework/plugins/flowcontrol/fairness): round robin
  over the flows of a band, and global strict, which takes the best head of all queues. A
  pick returns a queue, nothing, or an error, and the state of the policy for the band.
\<close>

subsection \<open>Sorting with a comparison function\<close>

text \<open>
  \<open>slices.SortFunc\<close>: when the comparison distinguishes all elements its result is the only
  sorted permutation; otherwise this is one of the permutations it may return.
\<close>

fun insort_cmp :: "('a \<Rightarrow> 'a \<Rightarrow> int) \<Rightarrow> 'a \<Rightarrow> 'a list \<Rightarrow> 'a list" where
  "insort_cmp c x [] = [x]"
| "insort_cmp c x (y # ys) = (if c x y \<le> 0 then x # y # ys else y # insort_cmp c x ys)"

definition SortFunc :: "('a \<Rightarrow> 'a \<Rightarrow> int) \<Rightarrow> 'a list \<Rightarrow> 'a list" where
  "SortFunc c xs = foldr (insort_cmp c) xs []"

text \<open>\<open>slices.Index\<close>, with \<open>None\<close> for \<open>-1\<close>.\<close>

fun slices_Index :: "'a list \<Rightarrow> 'a \<Rightarrow> nat option" where
  "slices_Index [] v = None"
| "slices_Index (x # xs) v = (if x = v then Some 0 else map_option Suc (slices_Index xs v))"

subsection \<open>Round robin\<close>

definition has_items :: "priorityBand \<Rightarrow> flow_key \<Rightarrow> bool" where
  "has_items band key = (case band_Queue_accessor (ID key) band of None \<Rightarrow> False | Some mq \<Rightarrow> mq_Len mq > 0)"

definition rr_start :: "flow_key list \<Rightarrow> flow_key option \<Rightarrow> nat" where
  "rr_start keys lastSelected =
     (case lastSelected of
        None \<Rightarrow> 0
      | Some k \<Rightarrow> (case slices_Index keys k of None \<Rightarrow> 0 | Some idx \<Rightarrow> (idx + 1) mod length keys))"

definition rr_Pick :: "priorityBand \<Rightarrow> (gerror + managedQueue option) \<times> policy_state" where
  "rr_Pick flowGroup =
     (case pb_policyState flowGroup of
        NilState \<Rightarrow> (Inl (Errorf ''invalid state type for RoundRobin policy'' []), NilState)
      | RoundRobinCursor lastSelected \<Rightarrow>
          let keys = SortFunc flow_key_Compare (FlowKeys flowGroup); numFlows = length keys
          in if numFlows = 0 then (Inr None, RoundRobinCursor None)
             else let startIndex = rr_start keys lastSelected
                  in (case find (has_items flowGroup) (map (\<lambda>i. keys ! ((startIndex + i) mod numFlows)) [0..<numFlows]) of
                        Some currentKey \<Rightarrow>
                          (Inr (band_Queue_accessor (ID currentKey) flowGroup), RoundRobinCursor (Some currentKey))
                      | None \<Rightarrow> (Inr None, RoundRobinCursor None)))"

subsection \<open>Global strict\<close>

type_synonym best = "(managedQueue \<times> queue_item) option \<times> gerror option"

definition strict_step :: "best \<Rightarrow> managedQueue \<Rightarrow> bool \<times> best" where
  "strict_step st queue =
     (if mq_Len queue = 0 then (True, st)
      else case mq_PeekHead queue of
        None \<Rightarrow> (True, st)
      | Some it \<Rightarrow>
          (case fst st of
             None \<Rightarrow> (True, (Some (queue, it), snd st))
           | Some (bestQueue, bestItem) \<Rightarrow>
               if policy_type (mq_policy queue) \<noteq> policy_type (mq_policy bestQueue)
               then (False, (fst st, Some (Errorf ''incompatible priority types'' [Sentinel ErrIncompatiblePriorityType])))
               else if Less (mq_policy bestQueue) (Some it) (Some bestItem) then (True, (Some (queue, it), snd st))
               else (True, st)))"

definition strict_Pick :: "priorityBand \<Rightarrow> (gerror + managedQueue option) \<times> policy_state" where
  "strict_Pick flowGroup =
     (let (bestOf, iterationErr) = IterateQueues strict_step flowGroup (None, None)
      in (case iterationErr of
            Some err \<Rightarrow> (Inl err, pb_policyState flowGroup)
          | None \<Rightarrow> (Inr (map_option fst bestOf), pb_policyState flowGroup)))"

primrec Pick :: "fairness_policy \<Rightarrow> priorityBand \<Rightarrow> (gerror + managedQueue option) \<times> policy_state" where
  "Pick GlobalStrict flowGroup = strict_Pick flowGroup"
| "Pick RoundRobin flowGroup = rr_Pick flowGroup"

subsection \<open>Facts about sorting\<close>

lemma mset_insort_cmp [simp]: "mset (insort_cmp c x xs) = add_mset x (mset xs)"
  by (induction xs) auto

lemma mset_SortFunc [simp]: "mset (SortFunc c xs) = mset xs"
  by (induction xs) (simp_all add: SortFunc_def)

lemma set_SortFunc [simp]: "set (SortFunc c xs) = set xs"
  by (metis mset_SortFunc set_mset_mset)

lemma length_SortFunc [simp]: "length (SortFunc c xs) = length xs"
  by (metis mset_SortFunc size_mset)

lemma distinct_SortFunc [simp]: "distinct (SortFunc c xs) = distinct xs"
  by (metis mset_SortFunc mset_eq_imp_distinct_iff)

lemma slices_Index_Some: "slices_Index xs v = Some i \<Longrightarrow> i < length xs \<and> xs ! i = v"
  by (induction xs arbitrary: i) (auto split: if_splits)

lemma slices_Index_None: "slices_Index xs v = None \<longleftrightarrow> v \<notin> set xs"
  by (induction xs) auto

lemma slices_Index_nth: "distinct xs \<Longrightarrow> i < length xs \<Longrightarrow> slices_Index xs (xs ! i) = Some i"
  by (induction xs arbitrary: i) (auto simp: nth_Cons split: nat.splits)

subsection \<open>Round robin serves the flows in turn\<close>

lemma rotation: "xs \<noteq> [] \<Longrightarrow> map (\<lambda>i. xs ! ((s + i) mod length xs)) [0..<length xs] = rotate s xs"
  by (rule nth_equalityI) (simp_all add: nth_rotate)

lemma find_hd_filter: "find P xs = (case filter P xs of [] \<Rightarrow> None | y # _ \<Rightarrow> Some y)"
  by (induction xs) auto

text \<open>After the flow at position \<open>i\<close> of the flows with items comes the next one, cyclically.\<close>

lemma next_in_rotation:
  assumes "ks = as @ x # bs" "P x" "ns = filter P ks"
  shows "find P (rotate (Suc (length as)) ks) = Some (ns ! (Suc (length (filter P as)) mod length ns))"
proof -
  have "rotate (Suc (length as)) ks = rotate (length (as @ [x])) ((as @ [x]) @ bs)" by (simp add: assms(1))
  also have "\<dots> = bs @ as @ [x]" by (rule rotate_append)
  finally have r: "rotate (Suc (length as)) ks = bs @ as @ [x]" .
  have ns: "ns = filter P as @ x # filter P bs" using assms by simp
  show ?thesis
  proof (cases "filter P bs")
    case Nil
    then show ?thesis unfolding r find_hd_filter using assms(2)
      by (cases "filter P as") (simp_all add: ns)
  next
    case (Cons y ys)
    then show ?thesis unfolding r find_hd_filter by (simp add: ns nth_append)
  qed
qed

lemma distinct_FlowKeys: "distinct (map fst (pb_queues band)) \<Longrightarrow> distinct (FlowKeys band)"
proof -
  assume "distinct (map fst (pb_queues band))"
  then have "distinct (map ID (FlowKeys band))" by (simp add: FlowKeys_def comp_def case_prod_beta')
  then show ?thesis by (simp add: distinct_map)
qed

definition rr_keys :: "priorityBand \<Rightarrow> flow_key list" where
  "rr_keys band = filter (has_items band) (SortFunc flow_key_Compare (FlowKeys band))"

text \<open>\<open>n\<close> picks in a row from a band whose queues do not change; the flows that are chosen.\<close>

fun rr_picks :: "nat \<Rightarrow> priorityBand \<Rightarrow> flow_key list" where
  "rr_picks 0 band = []"
| "rr_picks (Suc n) band =
     (case rr_Pick band of
        (Inr (Some mq), st) \<Rightarrow> mq_key mq # rr_picks n (band\<lparr>pb_policyState := st\<rparr>)
      | _ \<Rightarrow> [])"


lemma rr_keys_queue:
  assumes "distinct (map fst (pb_queues band))" "\<And>fid mq. (fid, mq) \<in> set (pb_queues band) \<Longrightarrow> mq_key mq = \<lparr>ID = fid, Priority = pb_Priority band\<rparr>"
    and "k \<in> set (FlowKeys band)"
  shows "\<exists>mq. band_Queue_accessor (ID k) band = Some mq \<and> mq_key mq = k"
proof -
  obtain fid mq where m: "(fid, mq) \<in> set (pb_queues band)" "k = \<lparr>ID = fid, Priority = pb_Priority band\<rparr>"
    using assms(3) by (auto simp: FlowKeys_def)
  then show ?thesis using assms(1) assms(2) [OF m(1)] by (simp add: band_Queue_accessor_def)
qed

lemma rr_Pick_step:
  assumes d: "distinct (map fst (pb_queues band))"
    and keys: "\<And>fid mq. (fid, mq) \<in> set (pb_queues band) \<Longrightarrow> mq_key mq = \<lparr>ID = fid, Priority = pb_Priority band\<rparr>"
    and ns: "rr_keys band \<noteq> []"
    and cur: "pb_policyState band = RoundRobinCursor None \<and> j = 0 \<or>
      (\<exists>i<length (rr_keys band). pb_policyState band = RoundRobinCursor (Some (rr_keys band ! i)) \<and> j = Suc i mod length (rr_keys band))"
  shows "\<exists>mq. rr_Pick band = (Inr (Some mq), RoundRobinCursor (Some (rr_keys band ! j))) \<and> mq_key mq = rr_keys band ! j"
proof -
  let ?ks = "SortFunc flow_key_Compare (FlowKeys band)" and ?P = "has_items band" and ?ns = "rr_keys band"
  have nsd: "?ns = filter ?P ?ks" by (simp add: rr_keys_def)
  then have ks: "?ks \<noteq> []" using ns by auto
  have dk: "distinct ?ks" using distinct_FlowKeys [OF d] by simp
  have f: "\<exists>last. pb_policyState band = RoundRobinCursor last \<and> find ?P (rotate (rr_start ?ks last) ?ks) = Some (?ns ! j)"
  proof (cases "pb_policyState band = RoundRobinCursor None \<and> j = 0")
    case True
    moreover have "find ?P ?ks = Some (?ns ! 0)" using ns by (cases ?ns) (simp_all add: find_hd_filter nsd)
    ultimately show ?thesis by (simp add: rr_start_def)
  next
    case False
    then obtain i where i: "i < length ?ns" "pb_policyState band = RoundRobinCursor (Some (?ns ! i))" "j = Suc i mod length ?ns"
      using cur by blast
    have x: "?ns ! i \<in> set ?ks" "?P (?ns ! i)" using nth_mem [OF i(1)] by (simp_all add: rr_keys_def)
    then obtain as bs where ab: "?ks = as @ ?ns ! i # bs" by (meson split_list)
    have "?ks ! length as = ?ns ! i" "length as < length ?ks" by (simp_all add: ab nth_append)
    then have "slices_Index ?ks (?ns ! i) = Some (length as)" using slices_Index_nth [OF dk] by metis
    then have st: "rr_start ?ks (Some (?ns ! i)) = Suc (length as) mod length ?ks" by (simp add: rr_start_def)
    have "?ns = filter ?P as @ ?ns ! i # filter ?P bs" using nsd ab x(2) by (metis filter.simps(2) filter_append)
    then have "?ns ! length (filter ?P as) = ?ns ! i" "length (filter ?P as) < length ?ns"
      by (metis nth_append_length, metis length_append length_Cons add_Suc_right less_add_Suc1)
    moreover have "distinct ?ns" using dk by (simp add: rr_keys_def)
    ultimately have pos: "length (filter ?P as) = i" using i(1) by (simp add: nth_eq_iff_index_eq)
    have "rotate (rr_start ?ks (Some (?ns ! i))) ?ks = rotate (Suc (length as)) ?ks"
      unfolding st by (metis rotate_conv_mod)
    then show ?thesis using next_in_rotation [OF ab x(2) nsd] i(2,3) pos by simp
  qed
  then obtain last where last: "pb_policyState band = RoundRobinCursor last"
    "find ?P (rotate (rr_start ?ks last) ?ks) = Some (?ns ! j)" by blast
  have "j < length ?ns" using cur ns by auto
  then have "?ns ! j \<in> set (FlowKeys band)" using nth_mem [of j ?ns] by (simp add: rr_keys_def)
  then obtain mq where "band_Queue_accessor (ID (?ns ! j)) band = Some mq" "mq_key mq = ?ns ! j"
    using rr_keys_queue [OF d keys] by blast
  moreover have "rr_Pick band = (Inr (band_Queue_accessor (ID (?ns ! j)) band), RoundRobinCursor (Some (?ns ! j)))"
    using last ks rotation [OF ks, of "rr_start ?ks last"] by (simp add: rr_Pick_def Let_def)
  ultimately show ?thesis by simp
qed

lemma rr_keys_state [simp]: "rr_keys (band\<lparr>pb_policyState := st\<rparr>) = rr_keys band"
  by (simp add: rr_keys_def FlowKeys_def pb_Priority_def has_items_def [abs_def] band_Queue_accessor_def)

lemma rr_picks_from:
  assumes d: "distinct (map fst (pb_queues band))"
    and keys: "\<And>fid mq. (fid, mq) \<in> set (pb_queues band) \<Longrightarrow> mq_key mq = \<lparr>ID = fid, Priority = pb_Priority band\<rparr>"
    and ns: "rr_keys band \<noteq> []" and i: "i < length (rr_keys band)"
    and cur: "pb_policyState band = RoundRobinCursor (Some (rr_keys band ! i))"
  shows "rr_picks n band = map (\<lambda>k. rr_keys band ! ((Suc i + k) mod length (rr_keys band))) [0..<n]"
  using d keys ns i cur
proof (induction n arbitrary: i band)
  case (Suc n)
  let ?ns = "rr_keys band" and ?j = "Suc i mod length (rr_keys band)"
  have j: "?j < length ?ns" using Suc.prems(3) by simp
  obtain mq where P: "rr_Pick band = (Inr (Some mq), RoundRobinCursor (Some (?ns ! ?j)))" "mq_key mq = ?ns ! ?j"
    using rr_Pick_step [OF Suc.prems(1,2,3), of ?j] Suc.prems(4,5) by blast
  let ?b = "band\<lparr>pb_policyState := RoundRobinCursor (Some (?ns ! ?j))\<rparr>"
  have "pb_Priority ?b = pb_Priority band" by (simp add: pb_Priority_def)
  then have "rr_picks n ?b = map (\<lambda>k. ?ns ! ((Suc ?j + k) mod length ?ns)) [0..<n]"
    using Suc.IH [of ?b ?j] Suc.prems(1-3) j by simp
  moreover have "(Suc ?j + k) mod length ?ns = (Suc i + Suc k) mod length ?ns" for k
    by (metis add_Suc_shift mod_Suc_eq mod_add_left_eq add_Suc)
  ultimately show ?case by (simp add: P map_upt_Suc del: upt_Suc)
qed simp

text \<open>
  C6: round robin is fair: from a fresh cursor and as long as the queues do not change,
  successive picks go through the flows that have items in the order of their keys,
  cyclically; so every such flow is served once in as many picks as there are such flows.
\<close>

theorem rr_serves_in_turn:
  assumes "band_inv w (pb_Priority band) band" and "pb_policyState band = RoundRobinCursor None" and "rr_keys band \<noteq> []"
  shows "rr_picks n band = map (\<lambda>k. rr_keys band ! (k mod length (rr_keys band))) [0..<n] \<and>
    mset (rr_picks (length (rr_keys band)) band) = mset (rr_keys band) \<and>
    (\<forall>key. key \<in> set (rr_keys band) \<longleftrightarrow> key \<in> set (FlowKeys band) \<and> has_items band key)"
proof -
  let ?ns = "rr_keys band"
  have d: "distinct (map fst (pb_queues band))" using assms(1) by (simp add: band_inv_def)
  have keys: "\<And>fid mq. (fid, mq) \<in> set (pb_queues band) \<Longrightarrow> mq_key mq = \<lparr>ID = fid, Priority = pb_Priority band\<rparr>"
    using band_inv_queue [OF assms(1)] by blast
  obtain mq where P: "rr_Pick band = (Inr (Some mq), RoundRobinCursor (Some (?ns ! 0)))" "mq_key mq = ?ns ! 0"
    using rr_Pick_step [OF d keys assms(3), of 0] assms(2) by blast
  let ?b = "band\<lparr>pb_policyState := RoundRobinCursor (Some (?ns ! 0))\<rparr>"
  have "pb_Priority ?b = pb_Priority band" by (simp add: pb_Priority_def)
  then have R: "rr_picks m ?b = map (\<lambda>k. ?ns ! ((Suc 0 + k) mod length ?ns)) [0..<m]" for m
    using rr_picks_from [of ?b 0 m] d keys assms(3) by simp
  have all: "rr_picks m band = map (\<lambda>k. ?ns ! (k mod length ?ns)) [0..<m]" for m
    by (cases m) (simp_all add: P R map_upt_Suc del: upt_Suc)
  have "rr_picks (length ?ns) band = ?ns" unfolding all by (rule nth_equalityI) simp_all
  then show ?thesis using all [of n] by (auto simp: rr_keys_def)
qed

subsection \<open>Global strict takes the best head\<close>

text \<open>The head a queue offers: nothing when its length counter is zero.\<close>

definition offer :: "managedQueue \<Rightarrow> queue_item option" where
  "offer mq = (if mq_Len mq = 0 then None else mq_PeekHead mq)"

definition best_so_far :: "ordering_policy \<Rightarrow> managedQueue list \<Rightarrow> (managedQueue \<times> queue_item) option \<Rightarrow> bool" where
  "best_so_far p qs b \<longleftrightarrow> (case b of
     None \<Rightarrow> \<forall>q\<in>set qs. offer q = None
   | Some (q, it) \<Rightarrow> q \<in> set qs \<and> offer q = Some it \<and>
       (\<forall>q'\<in>set qs. \<forall>it'. offer q' = Some it' \<longrightarrow> \<not> item_less p it' it))"

lemma best_so_far_None: "best_so_far p qs b \<Longrightarrow> (\<And>q. q \<in> set qs \<Longrightarrow> offer q = None) \<Longrightarrow> b = None"
  by (auto simp: best_so_far_def split: option.splits)

lemma strict_step_best:
  assumes o: "strict_weak_order (item_less p)" and q: "mq_policy q = p" "\<forall>q'\<in>set qs. mq_policy q' = p"
    and b: "best_so_far p qs b"
  shows "\<exists>b'. strict_step (b, None) q = (True, (b', None)) \<and> best_so_far p (qs @ [q]) b'"
proof -
  have irr: "\<not> item_less p x x" for x using strict_weak_order.irrefl [OF o] .
  have off: "strict_step (b, None) q = (True, (b, None))" if "offer q = None"
    using that by (auto simp: offer_def strict_step_def split: if_splits)
  show ?thesis
  proof (cases "offer q")
    case None
    then show ?thesis using off b by (auto simp: best_so_far_def split: option.splits)
  next
    case (Some it)
    then have s: "mq_Len q \<noteq> 0" "mq_PeekHead q = Some it" by (auto simp: offer_def split: if_splits)
    show ?thesis
    proof (cases b)
      case None
      then show ?thesis using s Some b irr by (auto simp: strict_step_def best_so_far_def)
    next
      case (Some qi)
      obtain bq bi where qi: "qi = (bq, bi)" by (cases qi)
      have bq: "bq \<in> set qs" "offer bq = Some bi"
        "\<And>q' it'. q' \<in> set qs \<Longrightarrow> offer q' = Some it' \<Longrightarrow> \<not> item_less p it' bi"
        using b by (auto simp: best_so_far_def Some qi)
      have pol: "mq_policy bq = p" using q(2) bq(1) by blast
      show ?thesis
      proof (cases "item_less p it bi")
        case True
        then have "\<not> item_less p it' it" if "q' \<in> set qs" "offer q' = Some it'" for q' it'
          using bq(3) [OF that] strict_weak_order.lt_trans [OF o] by blast
        then have "best_so_far p (qs @ [q]) (Some (q, it))"
          using \<open>offer q = Some it\<close> irr by (auto simp: best_so_far_def)
        then show ?thesis using True s pol q by (simp add: strict_step_def Some qi)
      next
        case False
        then have "best_so_far p (qs @ [q]) (Some (bq, bi))"
          using \<open>offer q = Some it\<close> bq by (auto simp: best_so_far_def)
        then show ?thesis using False s pol q by (simp add: strict_step_def Some qi)
      qed
    qed
  qed
qed

lemma strict_iterate:
  assumes o: "strict_weak_order (item_less p)" and q: "\<forall>q\<in>set (qs @ rest). mq_policy q = p"
    and b: "best_so_far p qs b"
  shows "\<exists>b'. iterate_queues strict_step rest (b, None) = (b', None) \<and> best_so_far p (qs @ rest) b'"
  using q b
proof (induction rest arbitrary: qs b)
  case (Cons q rest)
  obtain b1 where s: "strict_step (b, None) q = (True, (b1, None))" "best_so_far p (qs @ [q]) b1"
    using strict_step_best [OF o, of q qs b] Cons.prems by auto
  have pol: "\<forall>q'\<in>set ((qs @ [q]) @ rest). mq_policy q' = p" using Cons.prems(1) by auto
  show ?case using Cons.IH [OF pol s(2)] s(1) by simp
qed simp

lemma mq_PeekHead_None: "mq_PeekHead mq = None \<longleftrightarrow> mq_elems mq = {#}"
  by (cases "mq_queue mq")
     (auto simp: mq_PeekHead_def heap_PeekHead_def heap_elems_def list_PeekHead_def list_elems_def)

lemma offer_mem: "mq_inv w mq \<Longrightarrow> offer mq = None \<longleftrightarrow> mq_elems mq = {#}"
proof -
  assume inv: "mq_inv w mq"
  have "mq_Len mq = 0 \<longleftrightarrow> mq_elems mq = {#}" using mq_Len_exact [OF inv] by simp
  then show ?thesis using mq_PeekHead_None [of mq] by (auto simp: offer_def)
qed

lemma strict_Pick_result:
  assumes "band_inv w p band" and "strict_weak_order (item_less policy)"
    and "\<forall>mq\<in>snd ` set (pb_queues band). mq_policy mq = policy"
  shows "\<exists>b. strict_Pick band = (Inr (map_option fst b), pb_policyState band) \<and>
    best_so_far policy (map snd (pb_queues band)) b \<and> (b = None \<longleftrightarrow> band_elems band = {#})"
proof -
  let ?qs = "map snd (pb_queues band)"
  have "best_so_far policy [] None" by (simp add: best_so_far_def)
  moreover have "\<forall>q\<in>set ([] @ ?qs). mq_policy q = policy" using assms(3) by auto
  ultimately obtain b where b: "iterate_queues strict_step ?qs (None, None) = (b, None)" "best_so_far policy ?qs b"
    using strict_iterate [OF assms(2), of "[]" ?qs None] by auto
  have inv: "mq_inv w q" if "q \<in> set ?qs" for q
    using that band_inv_queue [OF assms(1)] by auto
  have P: "strict_Pick band = (Inr (map_option fst b), pb_policyState band)"
    by (simp add: strict_Pick_def IterateQueues_def b(1))
  have none: "b = None \<longleftrightarrow> band_elems band = {#}"
  proof
    assume "b = None"
    then have "mq_elems q = {#}" if "q \<in> set ?qs" for q
      using that b(2) offer_mem [OF inv [OF that]] by (auto simp: best_so_far_def)
    then have "mq_elems q = 0" if "(fid, q) \<in> set (pb_queues band)" for fid q
      using that by force
    then show "band_elems band = {#}" unfolding band_elems_def zero_multiset_def [symmetric] by (intro asum_zero) blast
  next
    assume e: "band_elems band = {#}"
    have "offer q = None" if "q \<in> set ?qs" for q
      using that e offer_mem [OF inv [OF that]] by (auto simp: band_elems_def dest: asum_empty)
    then show "b = None" using best_so_far_None [OF b(2)] by blast
  qed
  show ?thesis using P b(2) none by blast
qed

text \<open>
  C7: with one ordering policy for the band, global strict never fails; it picks nothing
  exactly when all queues of the band are empty, and otherwise a queue of the band whose
  head no head of another queue beats.
\<close>

theorem strict_picks_best:
  assumes "band_inv w p band" and "strict_weak_order (item_less policy)"
    and "\<forall>mq\<in>snd ` set (pb_queues band). mq_policy mq = policy"
  shows "\<exists>r. strict_Pick band = (Inr r, pb_policyState band) \<and>
    (r = None \<longleftrightarrow> band_elems band = {#}) \<and>
    (\<forall>q. r = Some q \<longrightarrow> (\<exists>fid it. (fid, q) \<in> set (pb_queues band) \<and> mq_PeekHead q = Some it \<and>
       (\<forall>(fid', q')\<in>set (pb_queues band). \<forall>it'. mq_PeekHead q' = Some it' \<longrightarrow> \<not> item_less policy it' it)))"
proof -
  let ?qs = "map snd (pb_queues band)"
  obtain b where P: "strict_Pick band = (Inr (map_option fst b), pb_policyState band)"
    and b: "best_so_far policy ?qs b" and none: "b = None \<longleftrightarrow> band_elems band = {#}"
    using strict_Pick_result [OF assms] by blast
  have inv: "mq_inv w q" if "q \<in> set ?qs" for q
    using that band_inv_queue [OF assms(1)] by auto
  have off: "mq_PeekHead q = Some it \<Longrightarrow> offer q = Some it" if "q \<in> set ?qs" for q it
    using offer_mem [OF inv [OF that]] mq_PeekHead_None [of q] by (auto simp: offer_def split: if_splits)
  have "\<exists>fid it. (fid, q) \<in> set (pb_queues band) \<and> mq_PeekHead q = Some it \<and>
       (\<forall>(fid', q')\<in>set (pb_queues band). \<forall>it'. mq_PeekHead q' = Some it' \<longrightarrow> \<not> item_less policy it' it)"
    if "b = Some (q, it)" for q it
  proof -
    have "q \<in> set ?qs" "offer q = Some it" "\<And>q' it'. q' \<in> set ?qs \<Longrightarrow> offer q' = Some it' \<Longrightarrow> \<not> item_less policy it' it"
      using b that by (auto simp: best_so_far_def)
    moreover have "mq_PeekHead q = Some it" using calculation(2) by (simp add: offer_def split: if_splits)
    moreover have "\<not> item_less policy it' it" if "(fid', q') \<in> set (pb_queues band)" "mq_PeekHead q' = Some it'" for fid' q' it'
    proof -
      have "q' \<in> set ?qs" using that(1) by force
      then show ?thesis using calculation(3) off that(2) by blast
    qed
    moreover obtain fid where "(fid, q) \<in> set (pb_queues band)" using calculation(1) by auto
    ultimately show ?thesis by blast
  qed
  then show ?thesis using P none by auto
qed


subsection \<open>A band with two waiting flows\<close>

definition sample_request :: "flow_key \<Rightarrow> flow_request" where
  "sample_request key = \<lparr>req_id = ''r'', req_flowKey = key, req_byteSize = 10, receivedTimestamp = 1,
     initialEffectiveTTL = 0, infReq_headers = None\<rparr>"

definition sample_flow_item :: "nat \<Rightarrow> gotime \<Rightarrow> flow_key \<Rightarrow> queue_item" where
  "sample_flow_item n t key = \<lparr>item_ptr = n, enqueueTime = t, effectiveTTL = 0, originalRequest = sample_request key\<rparr>"

lemma queue_with_item:
  assumes w: "world_ok w"
  shows "\<exists>w' mq. world_ok w' \<and> touches {item_ptr it} w w' \<and> mq_inv w' mq \<and> mq_key mq = key \<and>
    mq_policy mq = policy \<and> mq_elems mq = {#it#}"
proof -
  let ?q = "newManagedQueue (ListQ (newListQueue 0)) policy key"
  have e: "mq_elems ?q = {#}" by (simp add: newManagedQueue_def newListQueue_def list_elems_def)
  have "mq_inv w ?q" by (rule mq_inv_new) (simp add: list_inv_new, simp add: newListQueue_def list_elems_def)
  then obtain w' mq where "world_ok w'" "touches {item_ptr it} w w'" "mq_inv w' mq" "mq_elems mq = {#it#}"
    "mq_key mq = mq_key ?q" "mq_policy mq = mq_policy ?q"
    using mq_Add_ok [OF w, of ?q it "\<lambda>_ _ _ s. Some s" "()" "()"] e by auto
  then show ?thesis by (auto simp: newManagedQueue_def)
qed

abbreviation key_a :: flow_key where "key_a \<equiv> \<lparr>ID = ''a'', Priority = 0\<rparr>"
abbreviation key_b :: flow_key where "key_b \<equiv> \<lparr>ID = ''b'', Priority = 0\<rparr>"

definition sample_band_config :: priority_band_config where
  "sample_band_config = \<lparr>band_Priority = 0, band_OrderingPolicy = Some fcfs, band_FairnessPolicy = Some RoundRobin,
     band_Queue = ListQueueName, band_MaxBytes = 1000, band_MaxRequests = 10\<rparr>"

definition two_queue_band :: "managedQueue \<Rightarrow> managedQueue \<Rightarrow> fairness_policy \<Rightarrow> priorityBand" where
  "two_queue_band m1 m2 fp = \<lparr>pb_fairnessPolicy = fp, pb_policyState = NewState fp, pb_config = sample_band_config,
     pb_queues = [(''b'', m2), (''a'', m1)], pb_byteSize = mq_byteSize m2 + mq_byteSize m1, pb_len = mq_len m2 + mq_len m1\<rparr>"

lemma mq_PeekHead_mem: "mq_PeekHead mq = Some x \<Longrightarrow> x \<in># mq_elems mq"
  by (cases "mq_queue mq")
     (auto simp: mq_PeekHead_def heap_PeekHead_def heap_elems_def list_PeekHead_def list_elems_def split: if_splits)

lemma mq_PeekHead_single: "mq_elems mq = {#it#} \<Longrightarrow> mq_PeekHead mq = Some it"
  using mq_PeekHead_mem [of mq] mq_PeekHead_None [of mq] by (cases "mq_PeekHead mq") auto

lemma two_queues:
  "\<exists>w m1 m2. world_ok w \<and> item_final w = Map.empty \<and> band_inv w 0 (two_queue_band m1 m2 fp) \<and> mq_key m1 = key_a \<and> mq_key m2 = key_b \<and>
     mq_policy m1 = fcfs \<and> mq_policy m2 = fcfs \<and>
     mq_elems m1 = {#sample_flow_item 1 20 key_a#} \<and> mq_elems m2 = {#sample_flow_item 2 10 key_b#} \<and>
     mq_Len m1 = 1 \<and> mq_Len m2 = 1"
proof -
  obtain w1 m1 where t1: "touches {item_ptr (sample_flow_item 1 20 key_a)} init_world w1"
    and 1: "world_ok w1" "mq_inv w1 m1" "mq_key m1 = key_a" "mq_policy m1 = fcfs"
    "mq_elems m1 = {#sample_flow_item 1 20 key_a#}"
    using queue_with_item [OF world_ok_init, of "sample_flow_item 1 20 key_a" key_a fcfs] by blast
  obtain w2 m2 where 2: "world_ok w2" "touches {item_ptr (sample_flow_item 2 10 key_b)} w1 w2" "mq_inv w2 m2"
    "mq_key m2 = key_b" "mq_policy m2 = fcfs" "mq_elems m2 = {#sample_flow_item 2 10 key_b#}"
    using queue_with_item [OF 1(1), of "sample_flow_item 2 10 key_b" key_b fcfs] by blast
  have m1: "mq_inv w2 m1" by (rule mq_inv_frame [OF 1(1,2) 2(2)]) (simp add: 1 sample_flow_item_def)
  then have "band_inv w2 0 (two_queue_band m1 m2 fp)"
    using 1(3) 2(3,4) by (auto simp: band_inv_def two_queue_band_def)
  moreover have "mq_Len m1 = 1" "mq_Len m2 = 1" using mq_Len_exact [OF m1] mq_Len_exact [OF 2(3)] 1(5) 2(6) by simp_all
  moreover have "item_final w2 = Map.empty" using t1 2(2) by (simp add: touches_def init_world_def)
  ultimately show ?thesis using 1 2 by blast
qed

theorem rr_serves_in_turn_witness:
  "\<exists>w m1 m2. band_inv w 0 (two_queue_band m1 m2 RoundRobin) \<and>
     rr_picks 4 (two_queue_band m1 m2 RoundRobin) = [key_a, key_b, key_a, key_b]"
proof -
  obtain w m1 m2 where b: "band_inv w 0 (two_queue_band m1 m2 RoundRobin)" "mq_Len m1 = 1" "mq_Len m2 = 1"
    using two_queues [of RoundRobin] by blast
  let ?b = "two_queue_band m1 m2 RoundRobin"
  have k: "rr_keys ?b = [key_a, key_b]"
    by (simp add: rr_keys_def two_queue_band_def FlowKeys_def SortFunc_def has_items_def band_Queue_accessor_def
        pb_Priority_def sample_band_config_def flow_key_Compare_def b)
  have "rr_picks 4 ?b = map (\<lambda>k. rr_keys ?b ! (k mod length (rr_keys ?b))) [0..<4]"
    using rr_serves_in_turn [of w ?b 4] b k by (simp add: two_queue_band_def pb_Priority_def sample_band_config_def)
  also have "\<dots> = [key_a, key_b, key_a, key_b]" by (simp add: k upt_rec mod_Suc)
  finally show ?thesis using b by blast
qed

theorem strict_picks_best_witness:
  "\<exists>w m1 m2. band_inv w 0 (two_queue_band m1 m2 GlobalStrict) \<and> mq_elems m2 = {#sample_flow_item 2 10 key_b#} \<and>
     strict_Pick (two_queue_band m1 m2 GlobalStrict) = (Inr (Some m2), NilState)"
proof -
  obtain w m1 m2 where b: "band_inv w 0 (two_queue_band m1 m2 GlobalStrict)" "mq_policy m1 = fcfs" "mq_policy m2 = fcfs"
    "mq_elems m1 = {#sample_flow_item 1 20 key_a#}" "mq_elems m2 = {#sample_flow_item 2 10 key_b#}"
    using two_queues [of GlobalStrict] by blast
  let ?b = "two_queue_band m1 m2 GlobalStrict"
  have pol: "\<forall>mq\<in>snd ` set (pb_queues ?b). mq_policy mq = fcfs" and st: "pb_policyState ?b = NilState"
    using b by (auto simp: two_queue_band_def)
  obtain r where r: "strict_Pick ?b = (Inr r, NilState)" "r = None \<longleftrightarrow> band_elems ?b = {#}"
    "\<And>q. r = Some q \<Longrightarrow> \<exists>fid it. (fid, q) \<in> set (pb_queues ?b) \<and> mq_PeekHead q = Some it \<and>
       (\<forall>(fid', q')\<in>set (pb_queues ?b). \<forall>it'. mq_PeekHead q' = Some it' \<longrightarrow> \<not> item_less fcfs it' it)"
    using strict_picks_best [OF b(1) fcfs_items.strict_weak_order_axioms pol] unfolding st by blast
  have heads: "mq_PeekHead m1 = Some (sample_flow_item 1 20 key_a)" "mq_PeekHead m2 = Some (sample_flow_item 2 10 key_b)"
    using b(4,5) by (auto intro: mq_PeekHead_single)
  have "band_elems ?b \<noteq> {#}" using b by (simp add: band_elems_def two_queue_band_def)
  then obtain q where q: "r = Some q" using r(2) by blast
  have "item_less fcfs (sample_flow_item 2 10 key_b) (sample_flow_item 1 20 key_a)"
    by (simp add: fcfs_def fcfs_Less_def sample_flow_item_def)
  then have "q = m2" using r(3) [OF q] heads by (auto simp: two_queue_band_def)
  then show ?thesis using b r(1) q by auto
qed

end
