(* ===== verification/Processor.thy ===== *)
theory Processor
  imports Registry_Plane Fairness
begin

text \<open>
  The shard processor (src/pkg/epp/flowcontrol/controller/internal/processor.go): hand-off of
  items, admission, dispatch by priority, sweeping and shutdown. A processor works on the
  world and the registry through the id of its shard; \<open>None\<close> is a panic. The saturation of
  the pool is the value its detector returned for the cycle, \<open>ComputeLimit\<close> is the usage
  limit policy.
\<close>

subsection \<open>State and hand-off\<close>

record shardProcessor =
  sp_shard :: string
  sp_enqueueChan :: "queue_item option list"
  sp_bufferSize :: nat
  sp_isShuttingDown :: bool
  sp_ctxDone :: bool

definition NewShardProcessor :: "string \<Rightarrow> nat \<Rightarrow> bool \<Rightarrow> shardProcessor" where
  "NewShardProcessor shard enqueueChannelBufferSize ctxDone =
     \<lparr>sp_shard = shard, sp_enqueueChan = [], sp_bufferSize = enqueueChannelBufferSize,
      sp_isShuttingDown = False, sp_ctxDone = ctxDone\<rparr>"

text \<open>
  A send is ready when the buffer has room, or when the run loop waits at its \<open>select\<close> with
  an empty channel. When both the send and the closed context are ready, \<open>choice\<close> is the
  one Go takes.
\<close>

definition can_send :: "bool \<Rightarrow> shardProcessor \<Rightarrow> bool" where
  "can_send waiting sp \<longleftrightarrow> length (sp_enqueueChan sp) < sp_bufferSize sp \<or> waiting \<and> sp_enqueueChan sp = []"

definition submit_select ::
  "bool \<Rightarrow> bool \<Rightarrow> queue_item option \<Rightarrow> shardProcessor \<Rightarrow> gerror option \<times> shardProcessor" where
  "submit_select waiting choice it sp =
     (if can_send waiting sp \<and> (sp_ctxDone sp \<longrightarrow> choice)
      then (None, sp\<lparr>sp_enqueueChan := sp_enqueueChan sp @ [it]\<rparr>)
      else if sp_ctxDone sp then (Some (Sentinel ErrFlowControllerNotRunning), sp)
      else (Some (Sentinel ErrProcessorBusy), sp))"

definition Submit ::
  "bool \<Rightarrow> bool \<Rightarrow> queue_item option \<Rightarrow> shardProcessor \<Rightarrow> gerror option \<times> shardProcessor" where
  "Submit waiting choice it sp =
     (if sp_isShuttingDown sp then (Some (Sentinel ErrFlowControllerNotRunning), sp)
      else submit_select waiting choice it sp)"

text \<open>What a blocked submission ends with: room in the channel, or one of the two contexts.\<close>

datatype block_end = SendReady | CallerDone gerror | ProcessorDone

definition SubmitOrBlock ::
  "block_end \<Rightarrow> queue_item option \<Rightarrow> shardProcessor \<Rightarrow> gerror option \<times> shardProcessor" where
  "SubmitOrBlock ev it sp =
     (if sp_isShuttingDown sp then (Some (Sentinel ErrFlowControllerNotRunning), sp)
      else case ev of
        SendReady \<Rightarrow> (None, sp\<lparr>sp_enqueueChan := sp_enqueueChan sp @ [it]\<rparr>)
      | CallerDone err \<Rightarrow> (Some err, sp)
      | ProcessorDone \<Rightarrow> (Some (Sentinel ErrFlowControllerNotRunning), sp))"

subsection \<open>Admission\<close>

definition hasCapacity :: "registryShard \<Rightarrow> int \<Rightarrow> uint64 \<Rightarrow> bool" where
  "hasCapacity s priority itemByteSize =
     (let stats = shard_Stats s
      in if ss_TotalCapacityBytes stats > 0 \<and> ss_TotalByteSize stats + itemByteSize > ss_TotalCapacityBytes stats then False
         else if ss_TotalCapacityRequests stats > 0 \<and> ss_TotalLen stats + 1 > ss_TotalCapacityRequests stats then False
         else case map_of (ss_PerPriorityBandStats stats) priority of
           None \<Rightarrow> False
         | Some bandStats \<Rightarrow>
             if bs_CapacityBytes bandStats > 0 \<and> bs_ByteSize bandStats + itemByteSize > bs_CapacityBytes bandStats then False
             else if bs_CapacityRequests bandStats > 0 \<and> bs_Len bandStats + 1 > bs_CapacityRequests bandStats then False
             else True)"

definition rejected :: "gerror \<Rightarrow> gerror" where
  "rejected err = Errorf ''rejected'' [Sentinel ErrRejected, err]"

definition enqueue :: "string \<Rightarrow> queue_item \<Rightarrow> world \<times> flowRegistry \<Rightarrow> (world \<times> flowRegistry) option" where
  "enqueue sid it = (\<lambda>(w, fr).
     if FinalState w it \<noteq> None then Some (w, fr)
     else case map_of (fr_shards fr) sid of
       None \<Rightarrow> None
     | Some s \<Rightarrow>
         let key = item_key it
         in (case ManagedQueue key s of
               Inl err \<Rightarrow>
                 Some (FinalizeWithOutcome QueueOutcomeRejectedOther
                   (Some (rejected (Errorf ''configuration error: failed to get queue'' [err]))) it w, fr)
             | Inr managedQ \<Rightarrow>
                 (case shard_PriorityBandAccessor (Priority key) s of
                    Inl err \<Rightarrow>
                      Some (FinalizeWithOutcome QueueOutcomeRejectedOther
                        (Some (rejected (Errorf ''configuration error: failed to get priority band'' [err]))) it w, fr)
                  | Inr _ \<Rightarrow>
                      if \<not> hasCapacity s (Priority key) (item_size it)
                      then Some (FinalizeWithOutcome QueueOutcomeRejectedCapacity
                             (Some (rejected (Sentinel ErrQueueAtCapacity))) it w, fr)
                      else (case registry_Add sid key managedQ it (w, fr) of
                              None \<Rightarrow> None
                            | Some (Some err, w1, fr1) \<Rightarrow>
                                Some (FinalizeWithOutcome QueueOutcomeRejectedOther
                                  (Some (rejected (Errorf ''failed to add item to queue'' [err]))) it w1, fr1)
                            | Some (None, w1, fr1) \<Rightarrow> Some (w1, fr1)))))"

subsection \<open>Dispatch\<close>

definition set_policyState :: "int \<Rightarrow> policy_state \<Rightarrow> registryShard \<Rightarrow> registryShard" where
  "set_policyState priority st s =
     (case map_of (sh_priorityBands s) priority of
        None \<Rightarrow> s
      | Some band \<Rightarrow> s\<lparr>sh_priorityBands := AList.update priority (band\<lparr>pb_policyState := st\<rparr>) (sh_priorityBands s)\<rparr>)"

text \<open>The item, and the shard with the policy's new state for the band.\<close>

definition selectItem ::
  "int \<Rightarrow> priorityBand \<Rightarrow> registryShard \<Rightarrow> (gerror + queue_item option) \<times> registryShard" where
  "selectItem priority flowGroup s =
     (case shard_FairnessPolicy (pb_Priority flowGroup) s of
        Inl err \<Rightarrow> (Inl (Errorf ''could not get FairnessPolicy'' [err]), s)
      | Inr fairnessP \<Rightarrow>
          (case Pick fairnessP flowGroup of
             (Inl err, st) \<Rightarrow> (Inl (Errorf ''FairnessPolicy failed to select queue'' [err]), set_policyState priority st s)
           | (Inr None, st) \<Rightarrow> (Inr None, set_policyState priority st s)
           | (Inr (Some queue), st) \<Rightarrow> (Inr (mq_PeekHead queue), set_policyState priority st s)))"

definition dispatchItem ::
  "string \<Rightarrow> queue_item \<Rightarrow> world \<times> flowRegistry \<Rightarrow> (gerror option \<times> world \<times> flowRegistry) option" where
  "dispatchItem sid it = (\<lambda>(w, fr).
     case map_of (fr_shards fr) sid of
       None \<Rightarrow> None
     | Some s \<Rightarrow>
         (case ManagedQueue (item_key it) s of
            Inl err \<Rightarrow> Some (Some (Errorf ''failed to get ManagedQueue for flow'' [err]), w, fr)
          | Inr managedQ \<Rightarrow>
              (case registry_Remove sid (item_key it) managedQ (Handle w it) (w, fr) of
                 None \<Rightarrow> None
               | Some (Inl err, w1, fr1) \<Rightarrow> Some (None, w1, fr1)
               | Some (Inr removedItem, w1, fr1) \<Rightarrow>
                   Some (None, FinalizeWithOutcome QueueOutcomeDispatched None removedItem w1, fr1))))"

fun dispatch_bands ::
  "real \<Rightarrow> string \<Rightarrow> int list \<Rightarrow> real list \<Rightarrow> world \<times> flowRegistry \<Rightarrow> (bool \<times> world \<times> flowRegistry) option" where
  "dispatch_bands saturation sid [] ceilings st = Some (False, st)"
| "dispatch_bands saturation sid (priority # priorities) [] st = None"
| "dispatch_bands saturation sid (priority # priorities) (usageLimit # ceilings) (w, fr) =
     (if saturation \<ge> usageLimit then Some (False, w, fr)
      else case map_of (fr_shards fr) sid of
        None \<Rightarrow> None
      | Some s \<Rightarrow>
          (case shard_PriorityBandAccessor priority s of
             Inl err \<Rightarrow> dispatch_bands saturation sid priorities ceilings (w, fr)
           | Inr originalBand \<Rightarrow>
               (case selectItem priority originalBand s of
                  (res, s1) \<Rightarrow>
                    let fr1 = fr\<lparr>fr_shards := AList.update sid s1 (fr_shards fr)\<rparr>
                    in (case res of
                          Inl err \<Rightarrow> dispatch_bands saturation sid priorities ceilings (w, fr1)
                        | Inr None \<Rightarrow> dispatch_bands saturation sid priorities ceilings (w, fr1)
                        | Inr (Some it) \<Rightarrow>
                            (case dispatchItem sid it (w, fr1) of
                               None \<Rightarrow> None
                             | Some (Some err, w2, fr2) \<Rightarrow> dispatch_bands saturation sid priorities ceilings (w2, fr2)
                             | Some (None, w2, fr2) \<Rightarrow> Some (True, w2, fr2))))))"

type_synonym usage_limit_policy = "real \<Rightarrow> int list \<Rightarrow> real list"

definition dispatchCycle ::
  "usage_limit_policy \<Rightarrow> real \<Rightarrow> string \<Rightarrow> world \<times> flowRegistry \<Rightarrow> (bool \<times> world \<times> flowRegistry) option" where
  "dispatchCycle ComputeLimit saturation sid = (\<lambda>(w, fr).
     case map_of (fr_shards fr) sid of
       None \<Rightarrow> None
     | Some s \<Rightarrow>
         let priorities = AllOrderedPriorityLevels s; ceilings = ComputeLimit saturation priorities
         in dispatch_bands saturation sid priorities ceilings (w, fr))"

text \<open>The policy with one threshold for all priorities (usagelimits/usagelimitpolicy.go).\<close>

definition NewConstPolicy :: "real \<Rightarrow> usage_limit_policy" where
  "NewConstPolicy threshold saturation priorities = map (\<lambda>_. threshold) priorities"

definition DefaultPolicy :: usage_limit_policy where
  "DefaultPolicy = NewConstPolicy 1"

subsection \<open>Sweeping and shutdown\<close>

text \<open>
  The queues of the shard, highest priority first, then \<open>processFn\<close> on each. The workers of
  the code take the queues in this order from a channel and may finish in any order; the
  queues are separate, here they are processed one after the other.
\<close>

definition queuesToProcess :: "registryShard \<Rightarrow> flow_key list" where
  "queuesToProcess s =
     concat (map (\<lambda>priority. case shard_PriorityBandAccessor priority s of
                    Inl err \<Rightarrow> []
                  | Inr band \<Rightarrow> IterateQueues (\<lambda>acc q. (True, acc @ [mq_key q])) band [])
              (AllOrderedPriorityLevels s))"

type_synonym process_fn = "flow_key \<Rightarrow> managedQueue \<Rightarrow> world \<times> flowRegistry \<Rightarrow> (world \<times> flowRegistry) option"

fun process_queues :: "process_fn \<Rightarrow> string \<Rightarrow> flow_key list \<Rightarrow> world \<times> flowRegistry \<Rightarrow> (world \<times> flowRegistry) option" where
  "process_queues processFn sid [] st = Some st"
| "process_queues processFn sid (key # keys) (w, fr) =
     (case map_of (fr_shards fr) sid of
        None \<Rightarrow> None
      | Some s \<Rightarrow>
          (case ManagedQueue key s of
             Inl err \<Rightarrow> process_queues processFn sid keys (w, fr)
           | Inr managedQ \<Rightarrow>
               (case processFn key managedQ (w, fr) of
                  None \<Rightarrow> None
                | Some st1 \<Rightarrow> process_queues processFn sid keys st1)))"

definition processAllQueues :: "process_fn \<Rightarrow> string \<Rightarrow> world \<times> flowRegistry \<Rightarrow> (world \<times> flowRegistry) option" where
  "processAllQueues processFn sid = (\<lambda>(w, fr).
     case map_of (fr_shards fr) sid of
       None \<Rightarrow> None
     | Some s \<Rightarrow> process_queues processFn sid (queuesToProcess s) (w, fr))"

definition sweep_queue :: "string \<Rightarrow> process_fn" where
  "sweep_queue sid key managedQ = (\<lambda>(w, fr).
     map_option snd (registry_Cleanup sid key managedQ (\<lambda>it. FinalState w it \<noteq> None) (w, fr)))"

definition sweepFinalizedItems :: "string \<Rightarrow> world \<times> flowRegistry \<Rightarrow> (world \<times> flowRegistry) option" where
  "sweepFinalizedItems sid = processAllQueues (sweep_queue sid) sid"

definition errShutdown :: gerror where
  "errShutdown = Errorf ''evicted'' [Sentinel ErrEvicted, Sentinel ErrFlowControllerNotRunning]"

definition evict_queue :: "string \<Rightarrow> process_fn" where
  "evict_queue sid key managedQ st =
     (case registry_Drain sid key managedQ st of
        None \<Rightarrow> None
      | Some (removedItems, w1, fr1) \<Rightarrow>
          Some (fold (FinalizeWithOutcome QueueOutcomeEvictedOther (Some errShutdown)) removedItems w1, fr1))"

definition evictAll :: "string \<Rightarrow> world \<times> flowRegistry \<Rightarrow> (world \<times> flowRegistry) option" where
  "evictAll sid = processAllQueues (evict_queue sid) sid"

text \<open>\<open>shutdownOnce\<close> has run exactly when the flag is set.\<close>

definition shutdown ::
  "shardProcessor \<Rightarrow> world \<times> flowRegistry \<Rightarrow> (shardProcessor \<times> world \<times> flowRegistry) option" where
  "shutdown sp = (\<lambda>(w, fr).
     if sp_isShuttingDown sp then Some (sp, w, fr)
     else let sp1 = sp\<lparr>sp_isShuttingDown := True, sp_enqueueChan := []\<rparr>;
              w1 = fold (\<lambda>item w. case item of
                           None \<Rightarrow> w
                         | Some it \<Rightarrow> FinalizeWithOutcome QueueOutcomeRejectedOther
                             (Some (rejected (Sentinel ErrFlowControllerNotRunning))) it w)
                     (sp_enqueueChan sp) w
          in map_option (Pair sp1) (evictAll (sp_shard sp) (w1, fr)))"

subsection \<open>The run loop\<close>

text \<open>What wakes the loop or its sweeper.\<close>

datatype run_event = Arrival real | DispatchTick real | SweepTick | ContextDone

definition run_step ::
  "usage_limit_policy \<Rightarrow> run_event \<Rightarrow> shardProcessor \<times> world \<times> flowRegistry \<Rightarrow>
   (shardProcessor \<times> world \<times> flowRegistry) option" where
  "run_step ComputeLimit ev = (\<lambda>(sp, w, fr).
     case ev of
       Arrival saturation \<Rightarrow>
         (case sp_enqueueChan sp of
            [] \<Rightarrow> Some (sp, w, fr)
          | None # rest \<Rightarrow> Some (sp\<lparr>sp_enqueueChan := rest\<rparr>, w, fr)
          | Some it # rest \<Rightarrow>
              (case enqueue (sp_shard sp) it (w, fr) of
                 None \<Rightarrow> None
               | Some st1 \<Rightarrow>
                   map_option (\<lambda>(_, st2). (sp\<lparr>sp_enqueueChan := rest\<rparr>, st2))
                     (dispatchCycle ComputeLimit saturation (sp_shard sp) st1)))
     | DispatchTick saturation \<Rightarrow>
         map_option (\<lambda>(_, st1). (sp, st1)) (dispatchCycle ComputeLimit saturation (sp_shard sp) (w, fr))
     | SweepTick \<Rightarrow> map_option (Pair sp) (sweepFinalizedItems (sp_shard sp) (w, fr))
     | ContextDone \<Rightarrow> shutdown (sp\<lparr>sp_ctxDone := True\<rparr>) (w, fr))"

end
