(* ===== verification/Processor_Props.thy ===== *)
theory Processor_Props
  imports Processor
begin

text \<open>
  Correctness of the shard processor: what admission decides and that it keeps the limits,
  that a dispatch cycle serves the bands in strict priority order, that the sweep removes
  exactly the finalized items, and that a shutdown leaves no item behind.
\<close>


subsection \<open>Finalization does not disturb the queues\<close>

lemma sq_inv_finalize [simp]: "sq_inv (FinalizeWithOutcome oc err it w) q = sq_inv w q"
proof -
  let ?w = "FinalizeWithOutcome oc err it w"
  have h: "Handle ?w = Handle w" by (simp add: Handle_def fun_eq_iff)
  show ?thesis
  proof (cases q)
    case (HeapQ x)
    then show ?thesis by (simp add: heap_inv_def handles_ok_def h)
  next
    case (ListQ x)
    have "element_ok ?w x = element_ok w x" by (simp add: fun_eq_iff element_ok_def h split: prod.split)
    then show ?thesis using ListQ by (simp add: list_inv_def)
  qed
qed

lemma mq_inv_finalize [simp]: "mq_inv (FinalizeWithOutcome oc err it w) mq = mq_inv w mq"
  by (simp add: mq_inv_def)

lemma shard_inv_finalize [simp]: "shard_inv (FinalizeWithOutcome oc err it w) s = shard_inv w s"
  by (simp add: shard_inv_def band_inv_def)

lemma plane_inv_finalize [simp]: "plane_inv (FinalizeWithOutcome oc err it w) fr = plane_inv w fr"
  by (simp add: plane_inv_def shards_ok_def)

lemma plane_inv_finalize_all:
  "plane_inv (fold (FinalizeWithOutcome oc err) its w) fr = plane_inv w fr"
  by (induction its arbitrary: w) simp_all

subsection \<open>What the totals of a shard mean\<close>

lemma asum_size: "size (asum f xs :: 'b multiset) = asum (\<lambda>v. size (f v)) xs"
  by (induction xs) auto

lemma asum_sum_mset: "(\<Sum>x\<in>#asum f xs. g x) = asum (\<lambda>v. \<Sum>x\<in>#f v. g x) xs"
  by (induction xs) auto

lemma asum_of_nat: "of_nat (asum f xs) = asum (\<lambda>v. of_nat (f v)) xs"
  by (induction xs) auto

lemma mq_counts:
  assumes "mq_inv w mq"
  shows "mq_len mq = of_nat (size (mq_elems mq))" "mq_byteSize mq = (\<Sum>it\<in>#mq_elems mq. item_size it)"
  using assms sq.Len [of w "mq_queue mq"] sq.ByteSize [of w "mq_queue mq"] by (simp_all add: mq_inv_def)

lemma band_counts:
  assumes "band_inv w p band"
  shows "pb_len band = of_nat (size (band_elems band))" "pb_byteSize band = (\<Sum>it\<in>#band_elems band. item_size it)"
proof -
  have q: "mq_len mq = of_nat (size (mq_elems mq))" "mq_byteSize mq = (\<Sum>it\<in>#mq_elems mq. item_size it)"
    if "(fid, mq) \<in> set (pb_queues band)" for fid mq
    using mq_counts band_inv_queue [OF assms that] by blast+
  show "pb_len band = of_nat (size (band_elems band))"
    using assms asum_cong [of "pb_queues band" mq_len, OF q(1)] by (simp add: band_inv_def band_elems_def asum_size asum_of_nat)
  show "pb_byteSize band = (\<Sum>it\<in>#band_elems band. item_size it)"
    using assms asum_cong [of "pb_queues band" mq_byteSize, OF q(2)] by (simp add: band_inv_def band_elems_def asum_sum_mset)
qed

lemma shard_counts:
  assumes "shard_inv w s"
  shows "sh_totalLen s = of_nat (size (shard_elems s))" "sh_totalByteSize s = (\<Sum>it\<in>#shard_elems s. item_size it)"
proof -
  have q: "pb_len band = of_nat (size (band_elems band))" "pb_byteSize band = (\<Sum>it\<in>#band_elems band. item_size it)"
    if "(p, band) \<in> set (sh_priorityBands s)" for p band
    using band_counts that assms by (auto simp: shard_inv_def)
  show "sh_totalLen s = of_nat (size (shard_elems s))"
    using assms asum_cong [of "sh_priorityBands s" pb_len, OF q(1)] by (simp add: shard_inv_def shard_elems_def asum_size asum_of_nat)
  show "sh_totalByteSize s = (\<Sum>it\<in>#shard_elems s. item_size it)"
    using assms asum_cong [of "sh_priorityBands s" pb_byteSize, OF q(2)] by (simp add: shard_inv_def shard_elems_def asum_sum_mset)
qed

subsection \<open>Admission\<close>

text \<open>The bytes of a collection of items, as a number that does not wrap.\<close>

definition bytes :: "queue_item multiset \<Rightarrow> nat" where
  "bytes M = (\<Sum>it\<in>#M. unat (item_size it))"

lemma sum_sizes: "(\<Sum>it\<in>#M. item_size it) = of_nat (bytes M)"
  by (induction M) (simp_all add: bytes_def)

lemma unat_of_nat_small: "n < 2 ^ 64 \<Longrightarrow> unat (of_nat n :: uint64) = n"
  by (simp add: unsigned_of_nat take_bit_nat_eq_self)

text \<open>A limit of 0 is no limit.\<close>

definition in_limit :: "nat \<Rightarrow> uint64 \<Rightarrow> bool" where
  "in_limit n limit \<longleftrightarrow> limit = 0 \<or> n \<le> unat limit"

lemma limit_word:
  assumes "n < 2 ^ 64"
  shows "\<not> (limit > 0 \<and> (of_nat n :: uint64) > limit) \<longleftrightarrow> in_limit n limit"
proof -
  have "(of_nat n :: uint64) \<le> limit \<longleftrightarrow> n \<le> unat limit"
    using unat_of_nat_small [OF assms] by (simp add: word_le_nat_alt)
  then show ?thesis by (auto simp: in_limit_def word_gt_0 not_less)
qed

lemma map_of_map_pairs: "map_of (map (\<lambda>(k, v). (k, f k v)) xs) k = map_option (f k) (map_of xs k)"
  by (induction xs) auto

lemma hasCapacity_iff:
  assumes inv: "shard_inv w s" and band: "map_of (sh_priorityBands s) p = Some band"
    and n: "Suc (size (shard_elems s)) < 2 ^ 64" and b: "bytes (shard_elems s) + unat sz < 2 ^ 64"
  shows "hasCapacity s p sz \<longleftrightarrow>
    in_limit (bytes (shard_elems s) + unat sz) (sc_MaxBytes (sh_config s)) \<and>
    in_limit (Suc (size (shard_elems s))) (sc_MaxRequests (sh_config s)) \<and>
    in_limit (bytes (band_elems band) + unat sz) (band_MaxBytes (pb_config band)) \<and>
    in_limit (Suc (size (band_elems band))) (band_MaxRequests (pb_config band))"
proof -
  have "band_elems band \<subseteq># shard_elems s"
    using asum_delete [of "sh_priorityBands s" p band band_elems] inv band unfolding shard_inv_def shard_elems_def
    by (metis mset_subset_eq_add_right)
  then obtain M where M: "shard_elems s = band_elems band + M" by (metis mset_subset_eq_exists_conv)
  have n': "Suc (size (band_elems band)) < 2 ^ 64" and b': "bytes (band_elems band) + unat sz < 2 ^ 64"
    using n b by (simp_all add: M bytes_def)
  have e: "sh_totalByteSize s + sz = of_nat (bytes (shard_elems s) + unat sz)"
    "sh_totalLen s + 1 = of_nat (Suc (size (shard_elems s)))"
    using shard_counts [OF inv] by (simp_all add: sum_sizes)
  have e': "pb_byteSize band + sz = of_nat (bytes (band_elems band) + unat sz)"
    "pb_len band + 1 = of_nat (Suc (size (band_elems band)))"
    using band_counts [OF shard_band_inv [OF inv band]] by (simp_all add: sum_sizes)
  show ?thesis
    unfolding limit_word [OF n, symmetric] limit_word [OF b, symmetric] limit_word [OF n', symmetric] limit_word [OF b', symmetric]
    by (simp add: hasCapacity_def Let_def shard_Stats_def map_of_map_pairs band e e' del: of_nat_Suc of_nat_add)
qed

lemma put_queue_same: "ManagedQueue key s = Inr mq \<Longrightarrow> put_queue key mq s = s"
  by (auto simp: ManagedQueue_Inr put_queue_def update_triv)

lemma registry_Add_draining:
  assumes "queue_at fr sid key s mq" "sh_isDraining s"
  shows "registry_Add sid key mq it (w, fr) = Some (Some (Sentinel ErrShardDraining), w, fr)"
  using assms by (simp add: queue_at_def registry_Add_def via_shard_def shard_Add_draining put_queue_same update_triv)

lemma set_in_shard_at:
  assumes "shards_ok w fr" "map_of (fr_shards fr) sid = Some s" "ManagedQueue key s = Inr mq"
  shows "queue_at (set_in_shard sid key mq' dl db s fr) sid key (set_queue key mq' dl db s) mq'"
proof -
  obtain fr1 where "propagateStatsDelta (Priority key) dl db fr = Some fr1" using propagate_total [OF assms] by blast
  then show ?thesis using set_queue_at [OF assms(3)] by (simp add: queue_at_def set_in_shard_def update_conv')
qed

text \<open>What \<open>enqueue\<close> decides about an item that is not yet final.\<close>

datatype admission = NoQueue | OverCapacity | Draining | Admitted

definition admission_of :: "registryShard \<Rightarrow> queue_item \<Rightarrow> admission" where
  "admission_of s it =
     (if (\<exists>err. ManagedQueue (item_key it) s = Inl err) then NoQueue
      else if \<not> hasCapacity s (Priority (item_key it)) (item_size it) then OverCapacity
      else if sh_isDraining s then Draining else Admitted)"


lemma bytes_add [simp]: "bytes (add_mset it M) = bytes M + unat (item_size it)"
  by (simp add: bytes_def)

text \<open>
  C18: the limits hold: as long as the sums fit in 64 bits, an item is admitted exactly when
  with it the bytes and the number of items of the shard and of the band stay within their
  limits, where a limit of 0 stands for none.
\<close>

theorem admitted_iff_fits:
  assumes inv: "shard_inv w s" and mq: "ManagedQueue (item_key it) s = Inr mq" and dr: "\<not> sh_isDraining s"
    and n: "Suc (size (shard_elems s)) < 2 ^ 64" and b: "bytes (shard_elems s) + unat (item_size it) < 2 ^ 64"
  shows "\<exists>band. map_of (sh_priorityBands s) (Priority (item_key it)) = Some band \<and>
    (admission_of s it = Admitted \<longleftrightarrow>
      in_limit (bytes (add_mset it (shard_elems s))) (sc_MaxBytes (sh_config s)) \<and>
      in_limit (size (add_mset it (shard_elems s))) (sc_MaxRequests (sh_config s)) \<and>
      in_limit (bytes (add_mset it (band_elems band))) (band_MaxBytes (pb_config band)) \<and>
      in_limit (size (add_mset it (band_elems band))) (band_MaxRequests (pb_config band)))"
proof -
  obtain band where band: "map_of (sh_priorityBands s) (Priority (item_key it)) = Some band"
    using mq by (auto simp: ManagedQueue_Inr)
  then show ?thesis using hasCapacity_iff [OF inv band n b] mq dr by (simp add: admission_of_def)
qed

subsection \<open>Dispatch\<close>

text \<open>
  What the fairness policy of a band needs: round robin its cursor, global strict one
  ordering policy for the band.
\<close>

definition fair_ok :: "int \<Rightarrow> priorityBand \<Rightarrow> bool" where
  "fair_ok p band \<longleftrightarrow> pb_Priority band = p \<and>
     (case pb_fairnessPolicy band of
        RoundRobin \<Rightarrow> (\<exists>c. pb_policyState band = RoundRobinCursor c)
      | GlobalStrict \<Rightarrow> (\<exists>policy. strict_weak_order (item_less policy) \<and>
          (\<forall>mq\<in>snd ` set (pb_queues band). mq_policy mq = policy)))"

definition items_keyed :: "priorityBand \<Rightarrow> bool" where
  "items_keyed band \<longleftrightarrow> (\<forall>mq\<in>snd ` set (pb_queues band). \<forall>it\<in>#mq_elems mq. item_key it = mq_key mq)"

definition dispatchable :: "registryShard \<Rightarrow> bool" where
  "dispatchable s \<longleftrightarrow> (\<forall>p band. map_of (sh_priorityBands s) p = Some band \<longrightarrow> fair_ok p band \<and> items_keyed band)"

lemma has_items_iff:
  assumes "band_inv w p band" "pb_Priority band = p" "k \<in> set (FlowKeys band)"
  shows "\<exists>mq. (ID k, mq) \<in> set (pb_queues band) \<and> band_Queue_accessor (ID k) band = Some mq \<and>
    (has_items band k \<longleftrightarrow> mq_elems mq \<noteq> {#})"
proof -
  obtain fid mq where m: "(fid, mq) \<in> set (pb_queues band)" "k = \<lparr>ID = fid, Priority = pb_Priority band\<rparr>"
    using assms(3) by (auto simp: FlowKeys_def)
  have "band_Queue_accessor (ID k) band = Some mq"
    using m assms(1) by (simp add: band_Queue_accessor_def band_inv_def)
  moreover have "0 < mq_Len mq \<longleftrightarrow> mq_elems mq \<noteq> {#}"
    using mq_Len_exact [of w mq] band_inv_queue [OF assms(1) m(1)] by (simp add: nonempty_has_size)
  ultimately show ?thesis using m by (auto simp: has_items_def)
qed

lemma rr_Pick_total:
  assumes inv: "band_inv w p band" and p: "pb_Priority band = p" and c: "pb_policyState band = RoundRobinCursor c"
  shows "\<exists>r c'. rr_Pick band = (Inr r, RoundRobinCursor c') \<and> (r = None \<longleftrightarrow> band_elems band = {#}) \<and>
    (\<forall>q. r = Some q \<longrightarrow> q \<in> snd ` set (pb_queues band) \<and> mq_elems q \<noteq> {#})"
proof -
  let ?ks = "SortFunc flow_key_Compare (FlowKeys band)"
  let ?rot = "map (\<lambda>i. ?ks ! ((rr_start ?ks c + i) mod length ?ks)) [0..<length ?ks]"
  have empty: "band_elems band = {#} \<longleftrightarrow> (\<forall>k\<in>set (FlowKeys band). \<not> has_items band k)"
  proof
    assume e: "band_elems band = {#}"
    show "\<forall>k\<in>set (FlowKeys band). \<not> has_items band k"
    proof
      fix k assume "k \<in> set (FlowKeys band)"
      then obtain mq where "(ID k, mq) \<in> set (pb_queues band)" "has_items band k \<longleftrightarrow> mq_elems mq \<noteq> {#}"
        using has_items_iff [OF inv p] by blast
      then show "\<not> has_items band k" using asum_empty [OF e [unfolded band_elems_def]] by blast
    qed
  next
    assume n: "\<forall>k\<in>set (FlowKeys band). \<not> has_items band k"
    have "mq_elems mq = 0" if "(fid, mq) \<in> set (pb_queues band)" for fid mq
    proof -
      let ?k = "\<lparr>ID = fid, Priority = pb_Priority band\<rparr>"
      have k: "?k \<in> set (FlowKeys band)" using that by (force simp: FlowKeys_def)
      obtain mq' where "(fid, mq') \<in> set (pb_queues band)" "has_items band ?k \<longleftrightarrow> mq_elems mq' \<noteq> {#}"
        using has_items_iff [OF inv p k] by auto
      moreover have "mq' = mq" using calculation(1) that inv by (auto simp: band_inv_def dest: eq_key_imp_eq_value)
      ultimately show ?thesis using n k by simp
    qed
    then show "band_elems band = {#}" unfolding band_elems_def zero_multiset_def [symmetric] by (intro asum_zero) blast
  qed
  show ?thesis
  proof (cases "?ks = []")
    case True
    then have "FlowKeys band = []" using length_SortFunc [of flow_key_Compare "FlowKeys band"] by simp
    then show ?thesis using True c empty by (simp add: rr_Pick_def Let_def)
  next
    case False
    then have rot: "?rot = rotate (rr_start ?ks c) ?ks" by (rule rotation)
    have set: "set (rotate (rr_start ?ks c) ?ks) = set (FlowKeys band)" by simp
    show ?thesis
    proof (cases "find (has_items band) (rotate (rr_start ?ks c) ?ks)")
      case None
      then have "rr_Pick band = (Inr None, RoundRobinCursor None)" using False c rot by (simp add: rr_Pick_def Let_def)
      moreover have "band_elems band = {#}" using None set empty unfolding find_None_iff by metis
      ultimately show ?thesis by blast
    next
      case (Some k)
      then have k: "k \<in> set (FlowKeys band)" "has_items band k"
        using set by (auto simp: find_Some_iff) (metis length_SortFunc length_rotate nth_mem set)
      then obtain mq where "(ID k, mq) \<in> set (pb_queues band)" "band_Queue_accessor (ID k) band = Some mq" "mq_elems mq \<noteq> {#}"
        using has_items_iff [OF inv p k(1)] by blast
      moreover have "rr_Pick band = (Inr (band_Queue_accessor (ID k) band), RoundRobinCursor (Some k))"
        using False c rot Some by (simp add: rr_Pick_def Let_def)
      ultimately show ?thesis using empty k by force
    qed
  qed
qed

lemma strict_Pick_total:
  assumes "band_inv w p band" "strict_weak_order (item_less policy)" "\<forall>mq\<in>snd ` set (pb_queues band). mq_policy mq = policy"
  shows "\<exists>r. strict_Pick band = (Inr r, pb_policyState band) \<and> (r = None \<longleftrightarrow> band_elems band = {#}) \<and>
    (\<forall>q. r = Some q \<longrightarrow> q \<in> snd ` set (pb_queues band) \<and> mq_elems q \<noteq> {#})"
proof -
  obtain b where b: "strict_Pick band = (Inr (map_option fst b), pb_policyState band)"
    "best_so_far policy (map snd (pb_queues band)) b" "b = None \<longleftrightarrow> band_elems band = {#}"
    using strict_Pick_result [OF assms] by blast
  have "q \<in> snd ` set (pb_queues band) \<and> mq_elems q \<noteq> {#}" if "b = Some (q, it)" for q it
    using b(2) that mq_PeekHead_None [of q] by (auto simp: best_so_far_def offer_def split: if_splits)
  then show ?thesis using b(1,3) by (intro exI [of _ "map_option fst b"]) auto
qed

text \<open>A change of a shard that keeps its items and counters keeps the registry's invariant.\<close>

definition same_counts :: "registryShard \<Rightarrow> registryShard \<Rightarrow> bool" where
  "same_counts s s' \<longleftrightarrow> shard_elems s' = shard_elems s \<and> sh_totalLen s' = sh_totalLen s \<and>
     sh_totalByteSize s' = sh_totalByteSize s \<and>
     (\<forall>p. band_len_of p s' = band_len_of p s \<and> band_bytes_of p s' = band_bytes_of p s) \<and>
     fst ` set (sh_priorityBands s') \<subseteq> fst ` set (sh_priorityBands s)"

lemma plane_inv_replace:
  assumes inv: "plane_inv w fr" and s: "map_of (fr_shards fr) sid = Some s" and s': "shard_inv w s'" and same: "same_counts s s'"
  shows "plane_inv w (fr\<lparr>fr_shards := AList.update sid s' (fr_shards fr)\<rparr>)"
    "reg_elems (fr\<lparr>fr_shards := AList.update sid s' (fr_shards fr)\<rparr>) = reg_elems fr"
proof -
  let ?fr = "fr\<lparr>fr_shards := AList.update sid s' (fr_shards fr)\<rparr>"
  have i: "shards_ok w fr" "sums_ok fr" using inv by (simp_all add: plane_inv_def)
  have dist: "distinct (map fst (fr_shards fr))" using i(1) by (simp add: shards_ok_def)
  have keep: "asum f (AList.update sid s' (fr_shards fr)) = asum f (fr_shards fr)" if "f s' = f s" for f :: "registryShard \<Rightarrow> 'x::comm_monoid_add"
    by (rule asum_update_same [OF s that])
  show el: "reg_elems ?fr = reg_elems fr" using same by (simp add: reg_elems_def keep same_counts_def)
  have mem: "(sid2, s2) \<in> set (fr_shards ?fr) \<longleftrightarrow> sid2 = sid \<and> s2 = s' \<or> sid2 \<noteq> sid \<and> (sid2, s2) \<in> set (fr_shards fr)" for sid2 s2
    by (simp add: mem_update [OF dist])
  have "shards_ok w ?fr"
  proof (rule shards_okI)
    show "distinct (map fst (fr_shards ?fr))" using dist by (simp add: distinct_update)
    fix sid2 s2 assume m: "(sid2, s2) \<in> set (fr_shards ?fr)"
    then show "shard_inv w s2" using s' i(1) unfolding mem by (auto simp: shards_ok_def)
    fix p assume "p \<in> fst ` set (sh_priorityBands s2)"
    then obtain s3 where "(sid2, s3) \<in> set (fr_shards fr)" "p \<in> fst ` set (sh_priorityBands s3)"
      using m map_of_SomeD [OF s] same unfolding mem same_counts_def by blast
    then show "map_of (fr_perPriorityBandStats ?fr) p \<noteq> None" using i(1) unfolding shards_ok_def by fastforce
  qed
  moreover have "sums_ok ?fr" using i(2) same by (simp add: sums_ok_def keep same_counts_def)
  ultimately show "plane_inv w ?fr" using inv el by (simp add: plane_inv_def)
qed

lemma ball_update:
  "map_of xs k = Some v \<Longrightarrow> P k v' = P k v \<Longrightarrow>
     (\<forall>x\<in>set (AList.update k v' xs). case x of (q, b) \<Rightarrow> P q b) \<longleftrightarrow> (\<forall>x\<in>set xs. case x of (q, b) \<Rightarrow> P q b)"
  by (induction xs) auto

lemma set_policyState_all:
  "(shard_inv w (set_policyState p st s) = shard_inv w s) \<and>
   (shard_elems (set_policyState p st s) = shard_elems s) \<and>
   (ManagedQueue key (set_policyState p st s) = ManagedQueue key s) \<and>
   (sh_orderedPriorityLevels (set_policyState p st s) = sh_orderedPriorityLevels s) \<and>
   (sh_config (set_policyState p st s) = sh_config s) \<and>
   (sh_isDraining (set_policyState p st s) = sh_isDraining s) \<and>
   (same_counts s (set_policyState p st s)) \<and>
   (map_option band_elems (map_of (sh_priorityBands (set_policyState p st s)) q) = map_option band_elems (map_of (sh_priorityBands s) q))"
proof (cases "map_of (sh_priorityBands s) p")
  case (Some band)
  let ?b = "band\<lparr>pb_policyState := st\<rparr>" and ?bs = "sh_priorityBands s"
  have e: "set_policyState p st s = s\<lparr>sh_priorityBands := AList.update p ?b ?bs\<rparr>" by (simp add: set_policyState_def Some)
  have be: "band_elems ?b = band_elems band" "band_inv w' q ?b = band_inv w' q band" for w' q
    by (simp_all add: band_elems_def band_inv_def)
  have keys: "map fst (AList.update p ?b ?bs) = map fst ?bs" by (rule keys_update [OF Some])
  have ks: "fst ` set (AList.update p ?b ?bs) = fst ` set ?bs" using keys by (metis list.set_map)
  have sums: "asum f (AList.update p ?b ?bs) = asum f ?bs" if "f ?b = f band" for f :: "priorityBand \<Rightarrow> 'x::comm_monoid_add"
    by (rule asum_update_same [OF Some that])
  have el: "shard_elems (set_policyState p st s) = shard_elems s" by (simp add: e shard_elems_def sums be)
  have bands: "(\<forall>x\<in>set (AList.update p ?b ?bs). case x of (q, bd) \<Rightarrow> band_inv w q bd) \<longleftrightarrow>
      (\<forall>x\<in>set ?bs. case x of (q, bd) \<Rightarrow> band_inv w q bd)"
    by (rule ball_update [OF Some be(2)])
  have inv: "shard_inv w (set_policyState p st s) = shard_inv w s"
    using bands ks keys by (simp add: e shard_inv_def sums levels_ok_def)
  have "same_counts s (set_policyState p st s)"
    using Some el ks
    by (auto simp: same_counts_def e band_len_of_def band_bytes_of_def update_conv' split: option.split)
  moreover have "ManagedQueue key (set_policyState p st s) = ManagedQueue key s"
    using Some by (auto simp: ManagedQueue_def e update_conv' split: option.split)
  moreover have "map_option band_elems (map_of (sh_priorityBands (set_policyState p st s)) q) = map_option band_elems (map_of ?bs q)"
    using Some by (simp add: e update_conv' be)
  ultimately show ?thesis
    using inv el by (simp add: e)
qed (simp add: set_policyState_def same_counts_def)

lemma set_policyState_frame [simp]:
  "shard_inv w (set_policyState p st s) = shard_inv w s" "shard_elems (set_policyState p st s) = shard_elems s"
  "ManagedQueue key (set_policyState p st s) = ManagedQueue key s"
  "sh_orderedPriorityLevels (set_policyState p st s) = sh_orderedPriorityLevels s"
  "sh_config (set_policyState p st s) = sh_config s" "sh_isDraining (set_policyState p st s) = sh_isDraining s"
  "same_counts s (set_policyState p st s)"
  "map_option band_elems (map_of (sh_priorityBands (set_policyState p st s)) q) = map_option band_elems (map_of (sh_priorityBands s) q)"
  using set_policyState_all [of w p st s key q] by blast+

lemma selectItem_total:
  assumes inv: "shard_inv w s" and d: "dispatchable s" and b: "map_of (sh_priorityBands s) p = Some band"
  shows "\<exists>r st. selectItem p band s = (Inr r, set_policyState p st s) \<and> dispatchable (set_policyState p st s) \<and>
    (r = None \<longleftrightarrow> band_elems band = {#}) \<and>
    (\<forall>it. r = Some it \<longrightarrow> it \<in># band_elems band \<and> Priority (item_key it) = p \<and>
       (\<exists>mq. ManagedQueue (item_key it) s = Inr mq \<and> it \<in># mq_elems mq))"
proof -
  have bi: "band_inv w p band" by (rule shard_band_inv [OF inv b])
  have f: "fair_ok p band" "items_keyed band" using d b by (auto simp: dispatchable_def)
  obtain r st where P: "Pick (pb_fairnessPolicy band) band = (Inr r, st)" "r = None \<longleftrightarrow> band_elems band = {#}"
    "\<And>q. r = Some q \<Longrightarrow> q \<in> snd ` set (pb_queues band) \<and> mq_elems q \<noteq> {#}"
    "fair_ok p (band\<lparr>pb_policyState := st\<rparr>)"
  proof (cases "pb_fairnessPolicy band")
    case RoundRobin
    then obtain c where "pb_policyState band = RoundRobinCursor c" using f(1) by (auto simp: fair_ok_def)
    then show ?thesis
      using rr_Pick_total [OF bi, of c] f(1) RoundRobin that by (auto simp: fair_ok_def pb_Priority_def)
  next
    case GlobalStrict
    then obtain policy where pol: "strict_weak_order (item_less policy)" "\<forall>mq\<in>snd ` set (pb_queues band). mq_policy mq = policy"
      using f(1) by (auto simp: fair_ok_def)
    obtain r where R: "strict_Pick band = (Inr r, pb_policyState band)" "r = None \<longleftrightarrow> band_elems band = {#}"
      "\<forall>q. r = Some q \<longrightarrow> q \<in> snd ` set (pb_queues band) \<and> mq_elems q \<noteq> {#}"
      using strict_Pick_total [OF bi pol] by blast
    have "band\<lparr>pb_policyState := pb_policyState band\<rparr> = band" by (cases band) simp
    then show ?thesis using that [of r "pb_policyState band"] R f(1) GlobalStrict by simp
  qed
  have pr: "pb_Priority band = p" using f(1) by (simp add: fair_ok_def)
  have "\<exists>x. selectItem p band s = (Inr x, set_policyState p st s) \<and> x = (case r of None \<Rightarrow> None | Some q \<Rightarrow> mq_PeekHead q)"
    using P(1) b by (simp add: selectItem_def shard_FairnessPolicy_def pr split: option.split)
  then obtain x where x: "selectItem p band s = (Inr x, set_policyState p st s)" "x = (case r of None \<Rightarrow> None | Some q \<Rightarrow> mq_PeekHead q)"
    by blast
  have none: "x = None \<longleftrightarrow> band_elems band = {#}" using x(2) P(2,3) mq_PeekHead_None by (auto split: option.split)
  have item: "it \<in># band_elems band \<and> Priority (item_key it) = p \<and> (\<exists>mq. ManagedQueue (item_key it) s = Inr mq \<and> it \<in># mq_elems mq)"
    if xit: "x = Some it" for it
  proof -
    obtain q where q: "r = Some q" "mq_PeekHead q = Some it" using xit x(2) by (auto split: option.splits)
    then obtain fid where fid: "(fid, q) \<in> set (pb_queues band)" using P(3) by auto
    have it: "it \<in># mq_elems q" by (rule mq_PeekHead_mem [OF q(2)])
    have k: "item_key it = \<lparr>ID = fid, Priority = p\<rparr>"
      using f(2) fid it band_inv_queue [OF bi fid] by (force simp: items_keyed_def)
    moreover have "map_of (pb_queues band) fid = Some q" using fid bi by (simp add: band_inv_def)
    moreover have "it \<in># band_elems band" using it fid by (auto simp: band_elems_def asum_mset_mem)
    ultimately show ?thesis using b it by (simp add: ManagedQueue_Inr)
  qed
  have "dispatchable (set_policyState p st s)"
    using d b P(4) f(2) by (auto simp: dispatchable_def set_policyState_def update_conv' items_keyed_def split: if_splits)
  then show ?thesis using x(1) none item by blast
qed

lemma fair_ok_subset:
  assumes "fair_ok p band" "pb_fairnessPolicy b = pb_fairnessPolicy band" "pb_policyState b = pb_policyState band"
    "pb_Priority b = pb_Priority band" "mq_policy ` snd ` set (pb_queues b) \<subseteq> mq_policy ` snd ` set (pb_queues band)"
  shows "fair_ok p b"
proof (cases "pb_fairnessPolicy band")
  case RoundRobin
  then show ?thesis using assms(1-4) by (simp add: fair_ok_def)
next
  case GlobalStrict
  then obtain policy where pol: "strict_weak_order (item_less policy)" "\<forall>mq\<in>snd ` set (pb_queues band). mq_policy mq = policy"
    using assms(1) by (auto simp: fair_ok_def)
  have "\<forall>mq\<in>snd ` set (pb_queues b). mq_policy mq = policy"
  proof
    fix mq assume "mq \<in> snd ` set (pb_queues b)"
    then have "mq_policy mq \<in> mq_policy ` snd ` set (pb_queues band)" using assms(5) by (meson imageI subsetD)
    then obtain m where "m \<in> snd ` set (pb_queues band)" "mq_policy mq = mq_policy m" by (rule imageE)
    then show "mq_policy mq = policy" using pol(2) by simp
  qed
  then have "\<exists>policy. strict_weak_order (item_less policy) \<and> (\<forall>mq\<in>snd ` set (pb_queues b). mq_policy mq = policy)"
    using pol(1) by (intro exI [of _ policy] conjI)
  then show ?thesis using assms(1,2,4) GlobalStrict by (simp add: fair_ok_def)
qed

lemma dispatchable_set_queue:
  assumes d: "dispatchable s" and inv: "shard_inv w s" and at: "ManagedQueue key s = Inr mq"
    and mq': "mq_policy mq' = mq_policy mq" "mq_key mq' = key" "\<And>it. it \<in># mq_elems mq' \<Longrightarrow> item_key it = key"
  shows "dispatchable (set_queue key mq' dl db s)"
proof -
  obtain band where b: "map_of (sh_priorityBands s) (Priority key) = Some band"
    and m: "map_of (pb_queues band) (ID key) = Some mq" using at by (auto simp: ManagedQueue_Inr)
  let ?qs = "AList.update (ID key) mq' (pb_queues band)"
  let ?b = "band\<lparr>pb_len := pb_len band + dl, pb_byteSize := pb_byteSize band + db, pb_queues := ?qs\<rparr>"
  have dist: "distinct (map fst (pb_queues band))" using shard_band_inv [OF inv b] by (simp add: band_inv_def)
  have mem: "q \<in> snd ` set ?qs \<Longrightarrow> q = mq' \<or> q \<in> snd ` set (pb_queues band)" for q
    by (auto simp: mem_update [OF dist])
  have mqin: "mq \<in> snd ` set (pb_queues band)" using map_of_SomeD [OF m] by force
  have f: "fair_ok (Priority key) band" and k: "items_keyed band" using d b by (auto simp: dispatchable_def)
  have "mq_policy ` snd ` set ?qs \<subseteq> mq_policy ` snd ` set (pb_queues band)"
    using mem mqin mq'(1) by (metis image_eqI image_subsetI)
  then have "fair_ok (Priority key) ?b" by (intro fair_ok_subset [OF f]) (simp_all add: pb_Priority_def)
  moreover have "item_key it = mq_key q" if "q \<in> snd ` set ?qs" "it \<in># mq_elems q" for q it
    using mem [OF that(1)] that(2) mq'(2,3) k unfolding items_keyed_def by auto
  then have "items_keyed ?b" by (simp add: items_keyed_def)
  ultimately show ?thesis using d b by (auto simp: dispatchable_def set_queue_def update_conv' split: if_splits)
qed

lemma dispatchable_keys:
  assumes d: "dispatchable s" and inv: "shard_inv w s" and at: "ManagedQueue key s = Inr mq" and x: "x \<in># mq_elems mq"
  shows "item_key x = key"
proof -
  obtain band where b: "map_of (sh_priorityBands s) (Priority key) = Some band"
    and m: "map_of (pb_queues band) (ID key) = Some mq" using at by (auto simp: ManagedQueue_Inr)
  have "mq \<in> snd ` set (pb_queues band)" using map_of_SomeD [OF m] by force
  then have "item_key x = mq_key mq" using d b x by (auto simp: dispatchable_def items_keyed_def)
  then show ?thesis using shard_queue_inv(2) [OF inv at] by simp
qed

subsection \<open>What admission decides\<close>

lemma enqueue_ok:
  assumes inv: "plane_inv w fr" and s: "map_of (fr_shards fr) sid = Some s"
    and p: "item_ptr it \<notin> ptrs (reg_elems fr)" and room: "Suc (size (shard_elems s)) < 2 ^ 63"
  shows "\<exists>w' fr'. enqueue sid it (w, fr) = Some (w', fr') \<and> plane_inv w' fr' \<and>
    (FinalState w it \<noteq> None \<longrightarrow> w' = w \<and> fr' = fr) \<and>
    (FinalState w it = None \<longrightarrow>
      (case admission_of s it of
         NoQueue \<Rightarrow> fr' = fr \<and> (\<exists>e. FinalState w' it = Some \<lparr>Outcome = QueueOutcomeRejectedOther, Err = Some e\<rparr> \<and> errors_Is e ErrRejected)
       | OverCapacity \<Rightarrow> fr' = fr \<and> (\<exists>e. FinalState w' it = Some \<lparr>Outcome = QueueOutcomeRejectedCapacity, Err = Some e\<rparr> \<and>
           errors_Is e ErrRejected \<and> errors_Is e ErrQueueAtCapacity)
       | Draining \<Rightarrow> fr' = fr \<and> (\<exists>e. FinalState w' it = Some \<lparr>Outcome = QueueOutcomeRejectedOther, Err = Some e\<rparr> \<and>
           errors_Is e ErrRejected \<and> errors_Is e ErrShardDraining)
       | Admitted \<Rightarrow> FinalState w' it = None \<and> reg_elems fr' = add_mset it (reg_elems fr) \<and>
           (\<exists>s' mq mq'. ManagedQueue (item_key it) s = Inr mq \<and> queue_at fr' sid (item_key it) s' mq' \<and>
              mq_elems mq' = add_mset it (mq_elems mq) \<and> shard_elems s' = add_mset it (shard_elems s)))) \<and>
    (\<exists>s'. map_of (fr_shards fr') sid = Some s' \<and> (dispatchable s \<longrightarrow> dispatchable s')) \<and> keeps_finals w w'"
proof (cases "FinalState w it")
  case None
  let ?key = "item_key it"
  have eq: "enqueue sid it (w, fr) =
      (case ManagedQueue ?key s of
         Inl err \<Rightarrow> Some (FinalizeWithOutcome QueueOutcomeRejectedOther
            (Some (rejected (Errorf ''configuration error: failed to get queue'' [err]))) it w, fr)
       | Inr mq \<Rightarrow>
           if \<not> hasCapacity s (Priority ?key) (item_size it)
           then Some (FinalizeWithOutcome QueueOutcomeRejectedCapacity (Some (rejected (Sentinel ErrQueueAtCapacity))) it w, fr)
           else (case registry_Add sid ?key mq it (w, fr) of
                   None \<Rightarrow> None
                 | Some (Some err, w1, fr1) \<Rightarrow> Some (FinalizeWithOutcome QueueOutcomeRejectedOther
                      (Some (rejected (Errorf ''failed to add item to queue'' [err]))) it w1, fr1)
                 | Some (None, w1, fr1) \<Rightarrow> Some (w1, fr1)))"
    using None s
    by (auto simp: enqueue_def Let_def shard_PriorityBandAccessor_def ManagedQueue_def split: sum.split option.split)
  show ?thesis
  proof (cases "ManagedQueue ?key s")
    case (Inl err)
    then show ?thesis
      using None inv s by (simp add: eq admission_of_def rejected_def FinalState_FinalizeWithOutcome FinalizeWithOutcome_ok)
  next
    case (Inr mq)
    have at: "queue_at fr sid ?key s mq" using s Inr by (simp add: queue_at_def)
    consider "\<not> hasCapacity s (Priority ?key) (item_size it)"
      | "hasCapacity s (Priority ?key) (item_size it)" "sh_isDraining s"
      | "hasCapacity s (Priority ?key) (item_size it)" "\<not> sh_isDraining s" by blast
    then show ?thesis
    proof cases
      case 1
      then show ?thesis
        using None inv Inr s by (simp add: eq admission_of_def rejected_def FinalState_FinalizeWithOutcome FinalizeWithOutcome_ok)
    next
      case 2
      then show ?thesis
        using None inv Inr s registry_Add_draining [OF at 2(2)]
        by (simp add: eq admission_of_def rejected_def FinalState_FinalizeWithOutcome FinalizeWithOutcome_ok)
    next
      case 3
      have i: "shards_ok w fr" using inv by (simp add: plane_inv_def)
      note si = shards_ok_shard [OF i s]
      have "size (mq_elems mq) \<le> size (shard_elems s)" using shard_elems_split [OF si Inr] by simp
      then have r: "Suc (size (mq_elems mq)) < 2 ^ 63" using room by simp
      obtain w' mq' where A: "registry_Add sid ?key mq it (w, fr) =
          Some (None, w', set_in_shard sid ?key mq' 1 (item_size it) s fr)" "touches {item_ptr it} w w'"
        "plane_inv w' (set_in_shard sid ?key mq' 1 (item_size it) s fr)" "mq_elems mq' = add_mset it (mq_elems mq)"
        "reg_elems (set_in_shard sid ?key mq' 1 (item_size it) s fr) = add_mset it (reg_elems fr)" "mq_policy mq' = mq_policy mq"
        using registry_Add_ok [OF inv at 3(2) p r] by blast
      let ?fr' = "set_in_shard sid ?key mq' 1 (item_size it) s fr" and ?s' = "set_queue ?key mq' 1 (item_size it) s"
      have at': "queue_at ?fr' sid ?key ?s' mq'" by (rule set_in_shard_at [OF i s Inr])
      then have "shard_inv w' ?s'" using queue_at_inv [OF A(3)] by blast
      then have "shard_elems ?s' = add_mset it (shard_elems s)"
        using set_queue_elems [OF _ Inr] shard_elems_split [OF si Inr] A(4) by simp
      moreover have "FinalState w' it = None" using touches_finals [OF A(2)] None by (simp add: FinalState_def)
      moreover have "dispatchable ?s'" if d: "dispatchable s"
      proof (rule dispatchable_set_queue [OF d si Inr A(6)])
        show "mq_key mq' = ?key" using queue_at_inv [OF A(3) at'] by blast
        show "item_key x = ?key" if "x \<in># mq_elems mq'" for x
          using dispatchable_keys [OF d si Inr, of x] that unfolding A(4) by auto
      qed
      moreover have "map_of (fr_shards ?fr') sid = Some ?s'" using at' by (simp add: queue_at_def)
      moreover have "keeps_finals w w'" using touches_finals [OF A(2)] by blast
      ultimately show ?thesis using None 3 A(1-5) Inr at' by (simp add: eq admission_of_def) blast
    qed
  qed
next
  case (Some st)
  then show ?thesis using inv s by (simp add: enqueue_def)
qed

text \<open>
  C17: admission has one outcome on every branch. An item whose flow has no queue on the
  shard, or that does not fit, or whose shard is draining, is rejected at once with the
  outcome and the error of its case, and the registry is unchanged; otherwise the item is
  in its flow's queue, not final, and the queue, band, shard and registry statistics have
  grown by it. An item that was finalized while it waited in the channel is dropped.
\<close>

theorem enqueue_outcomes:
  assumes inv: "plane_inv w fr" and s: "map_of (fr_shards fr) sid = Some s"
    and p: "item_ptr it \<notin> ptrs (reg_elems fr)" and room: "Suc (size (shard_elems s)) < 2 ^ 63"
  shows "\<exists>w' fr'. enqueue sid it (w, fr) = Some (w', fr') \<and> plane_inv w' fr' \<and>
    (FinalState w it \<noteq> None \<longrightarrow> w' = w \<and> fr' = fr) \<and>
    (FinalState w it = None \<longrightarrow>
      (case admission_of s it of
         NoQueue \<Rightarrow> fr' = fr \<and> (\<exists>e. FinalState w' it = Some \<lparr>Outcome = QueueOutcomeRejectedOther, Err = Some e\<rparr> \<and> errors_Is e ErrRejected)
       | OverCapacity \<Rightarrow> fr' = fr \<and> (\<exists>e. FinalState w' it = Some \<lparr>Outcome = QueueOutcomeRejectedCapacity, Err = Some e\<rparr> \<and>
           errors_Is e ErrRejected \<and> errors_Is e ErrQueueAtCapacity)
       | Draining \<Rightarrow> fr' = fr \<and> (\<exists>e. FinalState w' it = Some \<lparr>Outcome = QueueOutcomeRejectedOther, Err = Some e\<rparr> \<and>
           errors_Is e ErrRejected \<and> errors_Is e ErrShardDraining)
       | Admitted \<Rightarrow> FinalState w' it = None \<and> reg_elems fr' = add_mset it (reg_elems fr) \<and>
           (\<exists>s' mq mq'. ManagedQueue (item_key it) s = Inr mq \<and> queue_at fr' sid (item_key it) s' mq' \<and>
              mq_elems mq' = add_mset it (mq_elems mq) \<and> shard_elems s' = add_mset it (shard_elems s))))"
  using enqueue_ok [OF assms] by (elim exE conjE) (intro exI conjI, assumption+)

subsection \<open>One dispatch\<close>

lemma dispatchItem_ok:
  assumes inv: "plane_inv w fr" and s: "map_of (fr_shards fr) sid = Some s" and d: "dispatchable s"
    and at: "ManagedQueue (item_key it) s = Inr mq" and it: "it \<in># mq_elems mq"
  shows "\<exists>fr' s'. dispatchItem sid it (w, fr) =
      Some (None, FinalizeWithOutcome QueueOutcomeDispatched None it (invalidate_item it w), fr') \<and>
    plane_inv (FinalizeWithOutcome QueueOutcomeDispatched None it (invalidate_item it w)) fr' \<and>
    reg_elems fr' = reg_elems fr - {#it#} \<and> map_of (fr_shards fr') sid = Some s' \<and> dispatchable s'"
proof -
  let ?key = "item_key it"
  have q: "queue_at fr sid ?key s mq" using s at by (simp add: queue_at_def)
  obtain mq' where R: "registry_Remove sid ?key mq (Handle w it) (w, fr) =
      Some (Inr it, invalidate_item it w, set_in_shard sid ?key mq' (-1) (- item_size it) s fr)"
    "plane_inv (invalidate_item it w) (set_in_shard sid ?key mq' (-1) (- item_size it) s fr)"
    "mq_elems mq' = mq_elems mq - {#it#}" "mq_policy mq' = mq_policy mq"
    "reg_elems (set_in_shard sid ?key mq' (-1) (- item_size it) s fr) = reg_elems fr - {#it#}"
    using registry_Remove_ok [OF inv q it] by blast
  let ?fr' = "set_in_shard sid ?key mq' (-1) (- item_size it) s fr" and ?s' = "set_queue ?key mq' (-1) (- item_size it) s"
  have i: "shards_ok w fr" using inv by (simp add: plane_inv_def)
  have at': "queue_at ?fr' sid ?key ?s' mq'" by (rule set_in_shard_at [OF i s at])
  have si: "shard_inv w s" by (rule shards_ok_shard [OF i s])
  note keys = dispatchable_keys [OF d si at]
  have mk: "mq_key mq' = ?key" using queue_at_inv [OF R(2) at'] by blast
  have "item_key x = ?key" if "x \<in># mq_elems mq'" for x
    using keys [of x] that unfolding R(3) by (auto dest: in_diffD)
  then have "dispatchable ?s'" by (rule dispatchable_set_queue [OF d si at R(4) mk])
  moreover have "map_of (fr_shards ?fr') sid = Some ?s'" using at' by (simp add: queue_at_def)
  ultimately show ?thesis using R s at by (simp add: dispatchItem_def)
qed

text \<open>
  The specification of a dispatch cycle: go down the priorities; stop at a level whose limit
  the saturation has reached; otherwise serve the first level that has items.
\<close>

fun dispatch_spec :: "real \<Rightarrow> (int \<Rightarrow> bool) \<Rightarrow> int list \<Rightarrow> real list \<Rightarrow> int option" where
  "dispatch_spec saturation waiting (p # ps) (c # cs) =
     (if saturation \<ge> c then None else if waiting p then Some p else dispatch_spec saturation waiting ps cs)"
| "dispatch_spec saturation waiting ps cs = None"

definition waiting_in :: "registryShard \<Rightarrow> int \<Rightarrow> queue_item multiset" where
  "waiting_in s p = (case map_of (sh_priorityBands s) p of None \<Rightarrow> {#} | Some band \<Rightarrow> band_elems band)"

lemma waiting_in_set_policyState [simp]: "waiting_in (set_policyState p st s) q = waiting_in s q"
proof -
  have "map_option band_elems (map_of (sh_priorityBands (set_policyState p st s)) q) =
      map_option band_elems (map_of (sh_priorityBands s) q)" by simp
  then show ?thesis
    unfolding waiting_in_def
    by (cases "map_of (sh_priorityBands (set_policyState p st s)) q"; cases "map_of (sh_priorityBands s) q") simp_all
qed

lemma dispatch_bands_spec:
  assumes "plane_inv w fr" "map_of (fr_shards fr) sid = Some s" "dispatchable s"
    "set ps \<subseteq> fst ` set (sh_priorityBands s)" "length cs = length ps"
  shows "case dispatch_spec sat (\<lambda>p. waiting_in s p \<noteq> {#}) ps cs of
      None \<Rightarrow> (\<exists>fr' s'. dispatch_bands sat sid ps cs (w, fr) = Some (False, w, fr') \<and> plane_inv w fr' \<and>
        reg_elems fr' = reg_elems fr \<and> map_of (fr_shards fr') sid = Some s' \<and> dispatchable s')
    | Some p \<Rightarrow> (\<exists>it w' fr' s'. dispatch_bands sat sid ps cs (w, fr) = Some (True, w', fr') \<and> plane_inv w' fr' \<and>
        w' = FinalizeWithOutcome QueueOutcomeDispatched None it (invalidate_item it w) \<and>
        it \<in># waiting_in s p \<and> reg_elems fr' = reg_elems fr - {#it#} \<and>
        map_of (fr_shards fr') sid = Some s' \<and> dispatchable s')"
  using assms
proof (induction ps arbitrary: cs fr s)
  case Nil
  then show ?case by auto
next
  case (Cons p ps)
  obtain c cs' where cs: "cs = c # cs'" using Cons.prems(5) by (cases cs) auto
  obtain band where b: "map_of (sh_priorityBands s) p = Some band"
    using Cons.prems(4) by (metis (no_types, lifting) image_eqI insert_subset list.simps(15) map_of_eq_None_iff not_None_eq)
  have i: "shards_ok w fr" using Cons.prems(1) by (simp add: plane_inv_def)
  have si: "shard_inv w s" by (rule shards_ok_shard [OF i Cons.prems(2)])
  show ?case
  proof (cases "sat \<ge> c")
    case True
    then show ?thesis using Cons.prems by (auto simp: cs)
  next
    case False
    obtain r st where S: "selectItem p band s = (Inr r, set_policyState p st s)" "dispatchable (set_policyState p st s)"
      "r = None \<longleftrightarrow> band_elems band = {#}"
      "\<And>it. r = Some it \<Longrightarrow> it \<in># band_elems band \<and> Priority (item_key it) = p \<and>
         (\<exists>mq. ManagedQueue (item_key it) s = Inr mq \<and> it \<in># mq_elems mq)"
      using selectItem_total [OF si Cons.prems(3) b] by blast
    let ?s = "set_policyState p st s" and ?fr = "fr\<lparr>fr_shards := AList.update sid (set_policyState p st s) (fr_shards fr)\<rparr>"
    have P: "plane_inv w ?fr" "reg_elems ?fr = reg_elems fr"
      using plane_inv_replace [OF Cons.prems(1,2), of ?s] si by simp_all
    have at: "map_of (fr_shards ?fr) sid = Some ?s" by (simp add: update_conv')
    have w: "waiting_in s p = band_elems band" by (simp add: waiting_in_def b)
    have acc: "shard_PriorityBandAccessor p s = Inr band" by (simp add: shard_PriorityBandAccessor_def b)
    show ?thesis
    proof (cases r)
      case None
      then have e: "\<not> waiting_in s p \<noteq> {#}" using S(3) w by simp
      have keys: "set ps \<subseteq> fst ` set (sh_priorityBands ?s)"
      proof -
        have "fst ` set (sh_priorityBands ?s) = fst ` set (sh_priorityBands s)"
          using arg_cong [OF keys_update [OF b, of "band\<lparr>pb_policyState := st\<rparr>"], of set] by (simp add: set_policyState_def b)
        then show ?thesis using Cons.prems(4) by auto
      qed
      have eq: "dispatch_bands sat sid (p # ps) cs (w, fr) = dispatch_bands sat sid ps cs' (w, ?fr)"
        using False Cons.prems(2) S(1) None acc by (simp add: cs)
      have sp: "dispatch_spec sat (\<lambda>p. waiting_in s p \<noteq> {#}) (p # ps) cs = dispatch_spec sat (\<lambda>p. waiting_in ?s p \<noteq> {#}) ps cs'"
        using False e by (simp add: cs)
      have "length cs' = length ps" using Cons.prems(5) by (simp add: cs)
      then show ?thesis
        unfolding eq sp using Cons.IH [OF P(1) at S(2) keys] unfolding P(2) waiting_in_set_policyState by blast
    next
      case (Some it)
      then obtain mq where mq: "ManagedQueue (item_key it) s = Inr mq" "it \<in># mq_elems mq" and ib: "it \<in># band_elems band"
        using S(4) by blast
      then have "dispatch_spec sat (\<lambda>p. waiting_in s p \<noteq> {#}) (p # ps) cs = Some p" using False w by (auto simp: cs)
      moreover obtain fr' s' where D: "dispatchItem sid it (w, ?fr) =
          Some (None, FinalizeWithOutcome QueueOutcomeDispatched None it (invalidate_item it w), fr')"
        "plane_inv (FinalizeWithOutcome QueueOutcomeDispatched None it (invalidate_item it w)) fr'"
        "reg_elems fr' = reg_elems ?fr - {#it#}" "map_of (fr_shards fr') sid = Some s'" "dispatchable s'"
        using dispatchItem_ok [OF P(1) at S(2), of it mq] mq by auto
      moreover have "dispatch_bands sat sid (p # ps) cs (w, fr) =
          Some (True, FinalizeWithOutcome QueueOutcomeDispatched None it (invalidate_item it w), fr')"
        using False Cons.prems(2) S(1) Some acc D(1) by (simp add: cs)
      ultimately show ?thesis using ib w P(2) by auto
    qed
  qed
qed

text \<open>The levels a cycle visits.\<close>

lemma levels_in_bands: "shard_inv w s \<Longrightarrow> set (AllOrderedPriorityLevels s) \<subseteq> fst ` set (sh_priorityBands s)"
  by (simp add: shard_inv_def levels_ok_def AllOrderedPriorityLevels_def)

lemma dispatchCycle_bands:
  "map_of (fr_shards fr) sid = Some s \<Longrightarrow>
     dispatchCycle ComputeLimit sat sid (w, fr) =
       dispatch_bands sat sid (AllOrderedPriorityLevels s) (ComputeLimit sat (AllOrderedPriorityLevels s)) (w, fr)"
  by (simp add: dispatchCycle_def Let_def)

text \<open>
  C14: a dispatch cycle implements its specification: it removes one item of the level the
  specification chooses, and of no other level, invalidates its handle and finalizes it as
  dispatched; when the specification chooses no level, nothing but the state of the fairness
  policies changes. The cycle does not panic, and all statistics stay exact.
\<close>

theorem dispatchCycle_refines:
  assumes inv: "plane_inv w fr" and s: "map_of (fr_shards fr) sid = Some s" and d: "dispatchable s"
    and len: "length (ComputeLimit sat (AllOrderedPriorityLevels s)) = length (AllOrderedPriorityLevels s)"
  shows "case dispatch_spec sat (\<lambda>p. waiting_in s p \<noteq> {#}) (AllOrderedPriorityLevels s)
           (ComputeLimit sat (AllOrderedPriorityLevels s)) of
      None \<Rightarrow> (\<exists>fr' s'. dispatchCycle ComputeLimit sat sid (w, fr) = Some (False, w, fr') \<and> plane_inv w fr' \<and>
        reg_elems fr' = reg_elems fr \<and> map_of (fr_shards fr') sid = Some s' \<and> dispatchable s')
    | Some p \<Rightarrow> (\<exists>it w' fr' s'. dispatchCycle ComputeLimit sat sid (w, fr) = Some (True, w', fr') \<and> plane_inv w' fr' \<and>
        w' = FinalizeWithOutcome QueueOutcomeDispatched None it (invalidate_item it w) \<and>
        it \<in># waiting_in s p \<and> reg_elems fr' = reg_elems fr - {#it#} \<and>
        map_of (fr_shards fr') sid = Some s' \<and> dispatchable s')"
proof -
  have "shard_inv w s" using inv shards_ok_shard [OF _ s] by (auto simp: plane_inv_def)
  from dispatch_bands_spec [OF inv s d levels_in_bands [OF this] len] show ?thesis
    unfolding dispatchCycle_bands [OF s] .
qed

lemma dispatch_spec_Some:
  "dispatch_spec sat waiting ps cs = Some p \<Longrightarrow> sorted_wrt (>) ps \<Longrightarrow>
     p \<in> set ps \<and> waiting p \<and> (\<forall>q\<in>set ps. q > p \<longrightarrow> \<not> waiting q)"
  by (induction sat waiting ps cs rule: dispatch_spec.induct) (auto split: if_splits)

lemma dispatch_spec_limits:
  "dispatch_spec sat waiting ps cs = Some p \<Longrightarrow> \<exists>i < length ps. i < length cs \<and> ps ! i = p \<and> (\<forall>j\<le>i. sat < cs ! j)"
proof (induction sat waiting ps cs rule: dispatch_spec.induct)
  case (1 sat waiting p' ps c cs)
  show ?case
  proof (cases "\<not> sat \<ge> c \<and> \<not> waiting p'")
    case True
    then obtain i where i: "i < length ps" "i < length cs" "ps ! i = p" "\<forall>j\<le>i. sat < cs ! j" using 1 by auto
    have "\<forall>j\<le>Suc i. sat < (c # cs) ! j" using i(4) True by (auto simp: nth_Cons split: nat.split)
    then show ?thesis using i by (intro exI [of _ "Suc i"]) simp
  next
    case False
    then show ?thesis using 1(2) by (intro exI [of _ 0]) (auto split: if_splits)
  qed
qed auto

lemma waiting_in_band: "waiting_in s q \<noteq> {#} \<Longrightarrow> q \<in> fst ` set (sh_priorityBands s)"
  by (auto simp: waiting_in_def split: option.splits dest!: map_of_SomeD) force

text \<open>
  C15: strict priority: an item that a cycle dispatches comes from the highest priority
  that has items, and the saturation is below the limit of its priority and of every
  priority above it.
\<close>

theorem dispatch_strict_priority:
  assumes inv: "plane_inv w fr" and s: "map_of (fr_shards fr) sid = Some s" and d: "dispatchable s"
    and len: "length (ComputeLimit sat (AllOrderedPriorityLevels s)) = length (AllOrderedPriorityLevels s)"
    and run: "dispatchCycle ComputeLimit sat sid (w, fr) = Some (True, w', fr')"
  shows "\<exists>it p. reg_elems fr = add_mset it (reg_elems fr') \<and> it \<in># waiting_in s p \<and>
    (\<forall>q>p. waiting_in s q = {#}) \<and>
    (\<exists>i < length (AllOrderedPriorityLevels s). AllOrderedPriorityLevels s ! i = p \<and>
       (\<forall>j\<le>i. sat < ComputeLimit sat (AllOrderedPriorityLevels s) ! j))"
proof -
  let ?ps = "AllOrderedPriorityLevels s" and ?W = "\<lambda>p. waiting_in s p \<noteq> {#}"
  have si: "shard_inv w s" using inv shards_ok_shard [OF _ s] by (auto simp: plane_inv_def)
  then have lv: "sorted_wrt (>) ?ps" "set ?ps = fst ` set (sh_priorityBands s)"
    by (simp_all add: shard_inv_def levels_ok_def AllOrderedPriorityLevels_def)
  note B = dispatch_bands_spec [where cs = "ComputeLimit sat ?ps" and sat = sat,
      OF inv s d levels_in_bands [OF si] len, folded dispatchCycle_bands [OF s], unfolded run]
  show ?thesis
  proof (cases "dispatch_spec sat ?W ?ps (ComputeLimit sat ?ps)")
    case None
    then show ?thesis using B by simp
  next
    case (Some p)
    then obtain it where it: "it \<in># waiting_in s p" "reg_elems fr' = reg_elems fr - {#it#}" using B by auto
    have top: "\<forall>q>p. waiting_in s q = {#}" using dispatch_spec_Some [OF Some lv(1)] waiting_in_band lv(2) by blast
    obtain band where b: "map_of (sh_priorityBands s) p = Some band" "it \<in># band_elems band"
      using it(1) by (auto simp: waiting_in_def split: option.splits)
    have "it \<in># shard_elems s" using b map_of_SomeD [OF b(1)] by (auto simp: shard_elems_def asum_mset_mem)
    then have "it \<in># reg_elems fr" using map_of_SomeD [OF s] by (auto simp: reg_elems_def asum_mset_mem)
    then have "reg_elems fr = add_mset it (reg_elems fr')" using it(2) by simp
    then show ?thesis using it(1) top dispatch_spec_limits [OF Some] by blast
  qed
qed

lemma dispatch_spec_total:
  "length cs = length ps \<Longrightarrow> \<forall>c\<in>set cs. sat < c \<Longrightarrow> p \<in> set ps \<Longrightarrow> waiting p \<Longrightarrow>
     dispatch_spec sat waiting ps cs \<noteq> None"
  by (induction sat waiting ps cs rule: dispatch_spec.induct) auto


subsection \<open>A registry with one shard\<close>

definition sample_shard :: "priorityBand \<Rightarrow> registryShard" where
  "sample_shard band = \<lparr>sh_id = ''shard-0000'',
     sh_config = \<lparr>sc_MaxBytes = 1000, sc_MaxRequests = 0, sc_PriorityBands = [(0, sample_band_config)]\<rparr>,
     sh_orderedPriorityLevels = [0], sh_priorityBands = [(0, band)], sh_isDraining = False,
     sh_totalByteSize = pb_byteSize band, sh_totalLen = pb_len band\<rparr>"

definition sample_registry :: "priorityBand \<Rightarrow> flowRegistry" where
  "sample_registry band = \<lparr>fr_config = default_config, fr_now = 0, fr_flowStates = [], fr_priorityBandStates = [],
     fr_leased = (\<lambda>_. new_leased_state), fr_init = (\<lambda>_. None), fr_nextObj = 0,
     fr_totalByteSize = pb_byteSize band, fr_totalLen = pb_len band,
     fr_perPriorityBandStats = [(0, \<lparr>bst_byteSize = pb_byteSize band, bst_len = pb_len band\<rparr>)],
     fr_shards = [(''shard-0000'', sample_shard band)], fr_activeShards = [''shard-0000''],
     fr_drainingShards = [], fr_allShards = [''shard-0000''], fr_nextShardID = 1\<rparr>"

lemma sample_shard_inv: "band_inv w 0 band \<Longrightarrow> shard_inv w (sample_shard band)"
  by (simp add: shard_inv_def sample_shard_def levels_ok_def)

lemma sample_plane_inv:
  "world_ok w \<Longrightarrow> band_inv w 0 band \<Longrightarrow> unique_ptrs (band_elems band) \<Longrightarrow> plane_inv w (sample_registry band)"
  using sample_shard_inv [of w band]
  by (auto simp: plane_inv_def shards_ok_def sums_ok_def reg_elems_def shard_elems_def sample_registry_def
      sample_shard_def band_len_of_def band_bytes_of_def split: if_splits)

lemma sample_at: "map_of (fr_shards (sample_registry band)) ''shard-0000'' = Some (sample_shard band)"
  by (simp add: sample_registry_def)

text \<open>Two flows of one item each.\<close>

lemma sample_two:
  "\<exists>w m1 m2. plane_inv w (sample_registry (two_queue_band m1 m2 RoundRobin)) \<and>
     mq_elems m1 = {#sample_flow_item 1 20 key_a#} \<and> mq_elems m2 = {#sample_flow_item 2 10 key_b#} \<and>
     dispatchable (sample_shard (two_queue_band m1 m2 RoundRobin)) \<and> item_final w = Map.empty"
proof -
  obtain w m1 m2 where f: "item_final w = Map.empty" and t: "world_ok w" "band_inv w 0 (two_queue_band m1 m2 RoundRobin)" "mq_key m1 = key_a" "mq_key m2 = key_b"
    "mq_elems m1 = {#sample_flow_item 1 20 key_a#}" "mq_elems m2 = {#sample_flow_item 2 10 key_b#}"
    using two_queues [of RoundRobin] by blast
  let ?b = "two_queue_band m1 m2 RoundRobin"
  have el: "band_elems ?b = {#sample_flow_item 1 20 key_a, sample_flow_item 2 10 key_b#}"
    by (simp add: band_elems_def two_queue_band_def t)
  then have "unique_ptrs (band_elems ?b)" by (simp add: unique_ptrs_def sample_flow_item_def)
  then have "plane_inv w (sample_registry ?b)" using sample_plane_inv t by blast
  moreover have "dispatchable (sample_shard ?b)"
    using t(3-6)
    by (auto simp: dispatchable_def fair_ok_def items_keyed_def sample_shard_def two_queue_band_def pb_Priority_def
        sample_band_config_def sample_flow_item_def sample_request_def split: if_splits)
  ultimately show ?thesis using t f by blast
qed

lemma sample_two_elems:
  assumes "mq_elems m1 = {#sample_flow_item 1 20 key_a#}" "mq_elems m2 = {#sample_flow_item 2 10 key_b#}"
  shows "shard_elems (sample_shard (two_queue_band m1 m2 fp)) = {#sample_flow_item 1 20 key_a, sample_flow_item 2 10 key_b#}"
    "reg_elems (sample_registry (two_queue_band m1 m2 fp)) = {#sample_flow_item 1 20 key_a, sample_flow_item 2 10 key_b#}"
    "waiting_in (sample_shard (two_queue_band m1 m2 fp)) 0 = {#sample_flow_item 1 20 key_a, sample_flow_item 2 10 key_b#}"
    "band_elems (two_queue_band m1 m2 fp) = {#sample_flow_item 1 20 key_a, sample_flow_item 2 10 key_b#}"
  using assms
  by (simp_all add: reg_elems_def shard_elems_def band_elems_def waiting_in_def sample_shard_def sample_registry_def two_queue_band_def)

lemma sample_two_admits:
  assumes inv: "plane_inv w (sample_registry (two_queue_band m1 m2 RoundRobin))"
    and m: "mq_elems m1 = {#sample_flow_item 1 20 key_a#}" "mq_elems m2 = {#sample_flow_item 2 10 key_b#}"
  shows "admission_of (sample_shard (two_queue_band m1 m2 RoundRobin)) (sample_flow_item 3 30 key_a) = Admitted"
proof -
  let ?s = "sample_shard (two_queue_band m1 m2 RoundRobin)" and ?it = "sample_flow_item 3 30 key_a"
  have si: "shard_inv w ?s" using inv shards_ok_shard [OF _ sample_at] by (auto simp: plane_inv_def)
  have b: "map_of (sh_priorityBands ?s) 0 = Some (two_queue_band m1 m2 RoundRobin)" by (simp add: sample_shard_def)
  note e = sample_two_elems(1) [OF m, where fp = RoundRobin] sample_two_elems(4) [OF m, where fp = RoundRobin]
  have c: "sc_MaxBytes (sh_config ?s) = 1000" "sc_MaxRequests (sh_config ?s) = 0"
    "band_MaxBytes (pb_config (two_queue_band m1 m2 RoundRobin)) = 1000"
    "band_MaxRequests (pb_config (two_queue_band m1 m2 RoundRobin)) = 10"
    by (simp_all add: sample_shard_def two_queue_band_def sample_band_config_def)
  have "hasCapacity ?s 0 10"
    using hasCapacity_iff [OF si b, of 10] by (simp add: e c bytes_def sample_flow_item_def sample_request_def in_limit_def)
  moreover have "ManagedQueue key_a ?s = Inr m1" "\<not> sh_isDraining ?s"
    by (simp_all add: ManagedQueue_Inr sample_shard_def two_queue_band_def)
  ultimately show ?thesis by (simp add: admission_of_def sample_flow_item_def sample_request_def)
qed

theorem enqueue_outcomes_witness:
  "\<exists>w fr w' fr'. size (reg_elems fr) = 2 \<and> FinalState w (sample_flow_item 3 30 key_a) = None \<and>
     enqueue ''shard-0000'' (sample_flow_item 3 30 key_a) (w, fr) = Some (w', fr') \<and>
     FinalState w' (sample_flow_item 3 30 key_a) = None \<and> size (reg_elems fr') = 3"
proof -
  let ?it = "sample_flow_item 3 30 key_a"
  obtain w m1 m2 where f: "item_final w = Map.empty" and t: "plane_inv w (sample_registry (two_queue_band m1 m2 RoundRobin))"
    "mq_elems m1 = {#sample_flow_item 1 20 key_a#}" "mq_elems m2 = {#sample_flow_item 2 10 key_b#}"
    using sample_two by blast
  let ?b = "two_queue_band m1 m2 RoundRobin"
  have w: "FinalState w ?it = None" by (simp add: FinalState_def f)
  obtain w' fr' where "enqueue ''shard-0000'' ?it (w, sample_registry ?b) = Some (w', fr')"
    "FinalState w' ?it = None" "reg_elems fr' = add_mset ?it (reg_elems (sample_registry ?b))"
    using enqueue_outcomes [OF t(1) sample_at, of ?it] w sample_two_admits [OF t] sample_two_elems [OF t(2,3)]
    by (auto simp: sample_flow_item_def)
  then show ?thesis using w sample_two_elems(2) [OF t(2,3)] by (intro exI [of _ w]) (auto intro!: exI)
qed

theorem admitted_iff_fits_witness:
  "\<exists>s. size (shard_elems s) = 2 \<and> admission_of s (sample_flow_item 3 30 key_a) = Admitted \<and> in_limit 30 (sc_MaxBytes (sh_config s))"
proof -
  let ?it = "sample_flow_item 3 30 key_a"
  obtain w m1 m2 where t: "plane_inv w (sample_registry (two_queue_band m1 m2 RoundRobin))"
    "mq_elems m1 = {#sample_flow_item 1 20 key_a#}" "mq_elems m2 = {#sample_flow_item 2 10 key_b#}"
    using sample_two by blast
  let ?s = "sample_shard (two_queue_band m1 m2 RoundRobin)"
  have si: "shard_inv w ?s" using t(1) shards_ok_shard [OF _ sample_at] by (auto simp: plane_inv_def)
  have k: "ManagedQueue (item_key ?it) ?s = Inr m1" "\<not> sh_isDraining ?s"
    by (simp_all add: ManagedQueue_Inr sample_shard_def two_queue_band_def sample_flow_item_def sample_request_def)
  note e = sample_two_elems(1) [OF t(2,3), where fp = RoundRobin]
  have "in_limit 30 (sc_MaxBytes (sh_config ?s))"
    using admitted_iff_fits [OF si k] sample_two_admits [OF t]
    by (auto simp: e bytes_def sample_flow_item_def sample_request_def)
  then show ?thesis using e sample_two_admits [OF t] by (intro exI [of _ ?s]) simp
qed

lemma sample_levels: "AllOrderedPriorityLevels (sample_shard band) = [0]"
  by (simp add: AllOrderedPriorityLevels_def sample_shard_def)

theorem dispatchCycle_refines_witness:
  "\<exists>w fr w' fr'. size (reg_elems fr) = 2 \<and>
     dispatchCycle DefaultPolicy (1/2) ''shard-0000'' (w, fr) = Some (True, w', fr') \<and> size (reg_elems fr') = 1"
proof -
  obtain w m1 m2 where d: "dispatchable (sample_shard (two_queue_band m1 m2 RoundRobin))"
    and t: "plane_inv w (sample_registry (two_queue_band m1 m2 RoundRobin))"
    "mq_elems m1 = {#sample_flow_item 1 20 key_a#}" "mq_elems m2 = {#sample_flow_item 2 10 key_b#}"
    using sample_two by blast
  let ?fr = "sample_registry (two_queue_band m1 m2 RoundRobin)"
  note e = sample_two_elems(3) [OF t(2,3), where fp = RoundRobin] sample_two_elems(2) [OF t(2,3), where fp = RoundRobin]
  obtain it w' fr' where "dispatchCycle DefaultPolicy (1/2) ''shard-0000'' (w, ?fr) = Some (True, w', fr')"
    "reg_elems fr' = reg_elems ?fr - {#it#}" "it \<in># reg_elems ?fr"
    using dispatchCycle_refines [OF t(1) sample_at d, of DefaultPolicy "1/2"]
    by (auto simp: sample_levels DefaultPolicy_def NewConstPolicy_def e)
  then show ?thesis using e(2) by (intro exI [of _ w] exI [of _ ?fr] exI [of _ w'] exI [of _ fr']) (simp add: size_Diff_singleton)
qed


theorem dispatch_strict_priority_witness:
  "\<exists>w fr w' fr' it. size (reg_elems fr) = 2 \<and>
     dispatchCycle DefaultPolicy (1/2) ''shard-0000'' (w, fr) = Some (True, w', fr') \<and> reg_elems fr = add_mset it (reg_elems fr')"
proof -
  obtain w m1 m2 where d: "dispatchable (sample_shard (two_queue_band m1 m2 RoundRobin))"
    and t: "plane_inv w (sample_registry (two_queue_band m1 m2 RoundRobin))"
    "mq_elems m1 = {#sample_flow_item 1 20 key_a#}" "mq_elems m2 = {#sample_flow_item 2 10 key_b#}"
    using sample_two by blast
  let ?fr = "sample_registry (two_queue_band m1 m2 RoundRobin)" and ?s = "sample_shard (two_queue_band m1 m2 RoundRobin)"
  note e = sample_two_elems(3) [OF t(2,3), where fp = RoundRobin] sample_two_elems(2) [OF t(2,3), where fp = RoundRobin]
  have si: "shard_inv w ?s" using t(1) shards_ok_shard [OF _ sample_at] by (auto simp: plane_inv_def)
  have c: "DefaultPolicy (1/2) [0] = [1]" by (simp add: DefaultPolicy_def NewConstPolicy_def)
  obtain w' fr' where run: "dispatchCycle DefaultPolicy (1/2) ''shard-0000'' (w, ?fr) = Some (True, w', fr')"
    using dispatch_bands_spec [OF t(1) sample_at d levels_in_bands [OF si], of "[1]" "1/2"]
    by (auto simp: dispatchCycle_bands [OF sample_at] c sample_levels e simp del: dispatch_bands.simps)
  have "length (DefaultPolicy (1/2) (AllOrderedPriorityLevels ?s)) = length (AllOrderedPriorityLevels ?s)"
    by (simp add: sample_levels c)
  from dispatch_strict_priority [OF t(1) sample_at d this run]
  obtain it where "reg_elems ?fr = add_mset it (reg_elems fr')" by blast
  moreover have "size (reg_elems ?fr) = 2" by (simp add: e(2))
  ultimately show ?thesis
    using run by (intro exI [of _ w] exI [of _ ?fr] exI [of _ w'] exI [of _ fr'] exI [of _ it] conjI)
qed

end
