(* ===== verification/Processor_Sweep.thy ===== *)
theory Processor_Sweep
  imports Processor_Props
begin

text \<open>
  Sweeping and shutdown of the shard processor: the traversal of all queues visits every
  queue of the shard, the sweep removes exactly the finalized items, and a shutdown leaves
  every item final and every queue of the shard empty.
\<close>

subsection \<open>Traversal\<close>

lemma set_queue_ManagedQueue:
  assumes "ManagedQueue key s = Inr mq"
  shows "ManagedQueue k (set_queue key mq' dl db s) = (if k = key then Inr mq' else ManagedQueue k s)"
proof (cases "k = key")
  case False
  then have ne: "Priority k = Priority key \<Longrightarrow> ID k \<noteq> ID key" by (metis flow_key.equality unit.exhaust)
  obtain band where b: "map_of (sh_priorityBands s) (Priority key) = Some band" using assms by (auto simp: ManagedQueue_Inr)
  have "ManagedQueue k (set_queue key mq' dl db s) = ManagedQueue k s"
  proof (cases "Priority k = Priority key")
    case True
    then show ?thesis using ne b by (simp add: ManagedQueue_def set_queue_def update_conv')
  next
    case F: False
    then show ?thesis using b by (simp add: ManagedQueue_def set_queue_def update_conv')
  qed
  then show ?thesis using False by simp
qed (simp add: set_queue_at [OF assms])

lemma other_shards_set_in_shard [simp]: "other_shards sid (set_in_shard sid key mq dl db s fr) = other_shards sid fr"
  by (auto simp: other_shards_def set_in_shard_def propagate_frame split: option.split)

text \<open>The items of a shard are those its queues hold.\<close>

lemma shard_elems_mem:
  assumes "shard_inv w s"
  shows "it \<in># shard_elems s \<longleftrightarrow> (\<exists>key mq. ManagedQueue key s = Inr mq \<and> it \<in># mq_elems mq)"
proof
  assume "it \<in># shard_elems s"
  then obtain p band fid mq where m: "(p, band) \<in> set (sh_priorityBands s)" "(fid, mq) \<in> set (pb_queues band)" "it \<in># mq_elems mq"
    by (auto simp: shard_elems_def band_elems_def asum_mset_mem)
  have b: "map_of (sh_priorityBands s) p = Some band" using m(1) assms by (simp add: shard_inv_def)
  then have "map_of (pb_queues band) fid = Some mq" using m(2) shard_band_inv [OF assms b] by (simp add: band_inv_def)
  then have "ManagedQueue \<lparr>ID = fid, Priority = p\<rparr> s = Inr mq" using b by (simp add: ManagedQueue_Inr)
  then show "\<exists>key mq. ManagedQueue key s = Inr mq \<and> it \<in># mq_elems mq" using m(3) by blast
next
  assume "\<exists>key mq. ManagedQueue key s = Inr mq \<and> it \<in># mq_elems mq"
  then show "it \<in># shard_elems s" using shard_elems_split [OF assms] by fastforce
qed

lemma unique_ptrs_count: "unique_ptrs M \<Longrightarrow> count M x \<le> 1"
proof -
  assume u: "unique_ptrs M"
  have "count M x \<le> count (image_mset item_ptr M) (item_ptr x)"
    using image_mset_subseteq_mono [of "replicate_mset (count M x) x" M item_ptr]
    by (metis count_le_replicate_mset_subset_eq image_replicate_mset order_refl)
  then show ?thesis using u unfolding unique_ptrs_def by (meson order_trans)
qed

lemma unique_ptrs_filter:
  assumes "unique_ptrs M" "unique_ptrs N" "\<And>x. x \<in># N \<longleftrightarrow> x \<in># M \<and> P x"
  shows "N = filter_mset P M"
proof (rule multiset_eqI)
  fix x
  have "count M x \<le> 1" "count N x \<le> 1" using unique_ptrs_count assms(1,2) by blast+
  then show "count N x = count (filter_mset P M) x"
    using assms(3) [of x] by (simp add: count_greater_zero_iff [symmetric] del: count_greater_zero_iff)
      (metis One_nat_def Suc_leI le_antisym not_gr_zero)
qed

lemma shard_unique: "plane_inv w fr \<Longrightarrow> map_of (fr_shards fr) sid = Some s \<Longrightarrow> unique_ptrs (shard_elems s)"
  using reg_elems_split [of w fr sid s] unique_ptrs_mono [of "shard_elems s" "reg_elems fr"] by (simp add: plane_inv_def)

text \<open>
  A step of the traversal keeps the plane's invariant and the invariant \<open>I\<close> of the caller
  and leaves in the queue the items that satisfy \<open>P\<close>.
\<close>

definition queue_step :: "process_fn \<Rightarrow> string \<Rightarrow> (world \<Rightarrow> registryShard \<Rightarrow> bool) \<Rightarrow> (queue_item \<Rightarrow> bool) \<Rightarrow> bool" where
  "queue_step pf sid I P \<longleftrightarrow> (\<forall>key mq w fr s. plane_inv w fr \<longrightarrow> queue_at fr sid key s mq \<longrightarrow> I w s \<longrightarrow>
     (\<exists>w' mq' dl db. pf key mq (w, fr) = Some (w', set_in_shard sid key mq' dl db s fr) \<and>
        plane_inv w' (set_in_shard sid key mq' dl db s fr) \<and> I w' (set_queue key mq' dl db s) \<and>
        mq_elems mq' = filter_mset P (mq_elems mq) \<and> mq_policy mq' = mq_policy mq))"

lemma queue_stepD:
  assumes "queue_step pf sid I P" "plane_inv w fr" "queue_at fr sid key s mq" "I w s"
  shows "\<exists>w' mq' dl db. pf key mq (w, fr) = Some (w', set_in_shard sid key mq' dl db s fr) \<and>
        plane_inv w' (set_in_shard sid key mq' dl db s fr) \<and> I w' (set_queue key mq' dl db s) \<and>
        mq_elems mq' = filter_mset P (mq_elems mq) \<and> mq_policy mq' = mq_policy mq"
  using assms unfolding queue_step_def by blast

definition kept :: "(queue_item \<Rightarrow> bool) \<Rightarrow> flow_key set \<Rightarrow> registryShard \<Rightarrow> registryShard \<Rightarrow> bool" where
  "kept P K s s' \<longleftrightarrow> (\<forall>k. case ManagedQueue k s of
      Inl e \<Rightarrow> ManagedQueue k s' = Inl e
    | Inr mq \<Rightarrow> (\<exists>mq'. ManagedQueue k s' = Inr mq' \<and>
        mq_elems mq' = (if k \<in> K then filter_mset P (mq_elems mq) else mq_elems mq)))"

lemma kept_step:
  assumes at: "ManagedQueue key s = Inr mq" and el: "mq_elems mq' = filter_mset P (mq_elems mq)"
    and k: "kept P K (set_queue key mq' dl db s) s'"
  shows "kept P (insert key K) s s'"
  unfolding kept_def
proof
  fix k
  have 1: "case ManagedQueue k (set_queue key mq' dl db s) of Inl e \<Rightarrow> ManagedQueue k s' = Inl e
    | Inr mq \<Rightarrow> (\<exists>mq'. ManagedQueue k s' = Inr mq' \<and> mq_elems mq' = (if k \<in> K then filter_mset P (mq_elems mq) else mq_elems mq))"
    using k unfolding kept_def by blast
  show "case ManagedQueue k s of Inl e \<Rightarrow> ManagedQueue k s' = Inl e
    | Inr mq \<Rightarrow> (\<exists>mq'. ManagedQueue k s' = Inr mq' \<and>
        mq_elems mq' = (if k \<in> insert key K then filter_mset P (mq_elems mq) else mq_elems mq))"
  proof (cases "k = key")
    case True
    then show ?thesis using 1 at el by (auto simp: set_queue_ManagedQueue [OF at] filter_filter_mset split: if_splits)
  next
    case False
    then show ?thesis using 1 by (cases "ManagedQueue k s") (simp_all add: set_queue_ManagedQueue [OF at])
  qed
qed

lemma kept_missing:
  assumes at: "ManagedQueue key s = Inl e" and k: "kept P K s s'"
  shows "kept P (insert key K) s s'"
  unfolding kept_def
proof
  fix k
  have "case ManagedQueue k s of Inl e \<Rightarrow> ManagedQueue k s' = Inl e
    | Inr mq \<Rightarrow> (\<exists>mq'. ManagedQueue k s' = Inr mq' \<and> mq_elems mq' = (if k \<in> K then filter_mset P (mq_elems mq) else mq_elems mq))"
    using k unfolding kept_def by blast
  then show "case ManagedQueue k s of Inl e \<Rightarrow> ManagedQueue k s' = Inl e
    | Inr mq \<Rightarrow> (\<exists>mq'. ManagedQueue k s' = Inr mq' \<and>
        mq_elems mq' = (if k \<in> insert key K then filter_mset P (mq_elems mq) else mq_elems mq))"
    using at by (cases "k = key"; cases "ManagedQueue k s") simp_all
qed

lemma dispatchable_filter:
  assumes d: "dispatchable s" and inv: "shard_inv w s" and at: "ManagedQueue key s = Inr mq"
    and inv': "shard_inv w' (set_queue key mq' dl db s)"
    and el: "mq_elems mq' = filter_mset P (mq_elems mq)" and pol: "mq_policy mq' = mq_policy mq"
  shows "dispatchable (set_queue key mq' dl db s)"
proof -
  have "mq_key mq' = key" by (rule shard_queue_inv(2) [OF inv' set_queue_at [OF at]])
  moreover have "item_key it = key" if "it \<in># mq_elems mq'" for it
    using dispatchable_keys [OF d inv at, of it] that unfolding el by simp
  ultimately show ?thesis by (rule dispatchable_set_queue [OF d inv at pol])
qed

lemma process_queues_ok:
  assumes step: "queue_step pf sid I P"
  shows "plane_inv w fr \<Longrightarrow> map_of (fr_shards fr) sid = Some s \<Longrightarrow> I w s \<Longrightarrow>
    \<exists>w' fr' s'. process_queues pf sid keys (w, fr) = Some (w', fr') \<and> plane_inv w' fr' \<and>
      map_of (fr_shards fr') sid = Some s' \<and> I w' s' \<and> kept P (set keys) s s' \<and> other_shards sid fr' = other_shards sid fr \<and>
      (dispatchable s \<longrightarrow> dispatchable s')"
proof (induction keys arbitrary: w fr s)
  case Nil
  then show ?case by (auto simp: kept_def split: sum.split)
next
  case (Cons key keys)
  show ?case
  proof (cases "ManagedQueue key s")
    case (Inl e)
    obtain w' fr' s' where R: "process_queues pf sid keys (w, fr) = Some (w', fr')" "plane_inv w' fr'"
      "map_of (fr_shards fr') sid = Some s'" "I w' s'" "kept P (set keys) s s'" "other_shards sid fr' = other_shards sid fr"
      "dispatchable s \<longrightarrow> dispatchable s'"
      using Cons.IH [OF Cons.prems] by blast
    moreover have "process_queues pf sid (key # keys) (w, fr) = Some (w', fr')" using Cons.prems(2) Inl R(1) by simp
    moreover have "kept P (set (key # keys)) s s'" using kept_missing [OF Inl R(5)] by simp
    ultimately show ?thesis by blast
  next
    case (Inr mq)
    have at: "queue_at fr sid key s mq" using Inr Cons.prems(2) by (simp add: queue_at_def)
    obtain w1 mq' dl db where S: "pf key mq (w, fr) = Some (w1, set_in_shard sid key mq' dl db s fr)"
      "plane_inv w1 (set_in_shard sid key mq' dl db s fr)" "I w1 (set_queue key mq' dl db s)"
      "mq_elems mq' = filter_mset P (mq_elems mq)" "mq_policy mq' = mq_policy mq"
      using queue_stepD [OF step Cons.prems(1) at Cons.prems(3)] by blast
    have ok: "shards_ok w fr" "shards_ok w1 (set_in_shard sid key mq' dl db s fr)" using Cons.prems(1) S(2) by (simp_all add: plane_inv_def)
    have at': "map_of (fr_shards (set_in_shard sid key mq' dl db s fr)) sid = Some (set_queue key mq' dl db s)"
      using set_in_shard_at [OF ok(1) Cons.prems(2) Inr] by (simp add: queue_at_def)
    have "dispatchable s \<longrightarrow> dispatchable (set_queue key mq' dl db s)"
      using dispatchable_filter [OF _ shards_ok_shard [OF ok(1) Cons.prems(2)] Inr shards_ok_shard [OF ok(2) at'] S(4,5)] by blast
    moreover from Cons.IH [OF S(2) at' S(3)] obtain w' fr' s' where R:
      "process_queues pf sid keys (w1, set_in_shard sid key mq' dl db s fr) = Some (w', fr')" "plane_inv w' fr'"
      "map_of (fr_shards fr') sid = Some s'" "I w' s'" "kept P (set keys) (set_queue key mq' dl db s) s'"
      "other_shards sid fr' = other_shards sid fr"
      "dispatchable (set_queue key mq' dl db s) \<longrightarrow> dispatchable s'" by auto
    moreover have "process_queues pf sid (key # keys) (w, fr) = Some (w', fr')" using Cons.prems(2) Inr S(1) R(1) by simp
    moreover have "kept P (set (key # keys)) s s'" using kept_step [OF Inr S(4) R(5)] by simp
    ultimately show ?thesis by blast
  qed
qed

lemma iterate_collect: "iterate_queues (\<lambda>acc q. (True, acc @ [f q])) mqs acc = acc @ map f mqs"
  by (induction mqs arbitrary: acc) simp_all

lemma queuesToProcess_complete:
  assumes inv: "shard_inv w s" and at: "ManagedQueue key s = Inr mq"
  shows "key \<in> set (queuesToProcess s)"
proof -
  obtain band where b: "map_of (sh_priorityBands s) (Priority key) = Some band" "map_of (pb_queues band) (ID key) = Some mq"
    using at by (auto simp: ManagedQueue_Inr)
  have "Priority key \<in> set (AllOrderedPriorityLevels s)"
    using inv map_of_SomeD [OF b(1)] by (force simp: shard_inv_def levels_ok_def AllOrderedPriorityLevels_def)
  moreover have "mq_key mq = key" by (rule shard_queue_inv(2) [OF inv at])
  moreover have "mq \<in> snd ` set (pb_queues band)" using map_of_SomeD [OF b(2)] by force
  ultimately show ?thesis
    using b(1) by (force simp: queuesToProcess_def IterateQueues_def iterate_collect shard_PriorityBandAccessor_def)
qed

lemma processAllQueues_ok:
  assumes step: "queue_step pf sid I P" and inv: "plane_inv w fr" and s: "map_of (fr_shards fr) sid = Some s" and I: "I w s"
  shows "\<exists>w' fr' s'. processAllQueues pf sid (w, fr) = Some (w', fr') \<and> plane_inv w' fr' \<and>
    map_of (fr_shards fr') sid = Some s' \<and> I w' s' \<and> shard_elems s' = filter_mset P (shard_elems s) \<and>
    other_shards sid fr' = other_shards sid fr \<and> (dispatchable s \<longrightarrow> dispatchable s')"
proof -
  have si: "shard_inv w s" using inv shards_ok_shard [OF _ s] by (auto simp: plane_inv_def)
  obtain w' fr' s' where R: "processAllQueues pf sid (w, fr) = Some (w', fr')" "plane_inv w' fr'"
    "map_of (fr_shards fr') sid = Some s'" "I w' s'" "kept P (set (queuesToProcess s)) s s'"
    "other_shards sid fr' = other_shards sid fr" "dispatchable s \<longrightarrow> dispatchable s'"
    using process_queues_ok [OF step inv s I, of "queuesToProcess s"] s by (auto simp: processAllQueues_def)
  have si': "shard_inv w' s'" using R(2) shards_ok_shard [OF _ R(3)] by (auto simp: plane_inv_def)
  have "it \<in># shard_elems s' \<longleftrightarrow> it \<in># shard_elems s \<and> P it" for it
  proof -
    have q: "case ManagedQueue k s of Inl e \<Rightarrow> ManagedQueue k s' = Inl e
      | Inr mq \<Rightarrow> \<exists>mq'. ManagedQueue k s' = Inr mq' \<and> mq_elems mq' = filter_mset P (mq_elems mq)" for k
      using spec [OF R(5) [unfolded kept_def], of k] queuesToProcess_complete [OF si, of k]
      by (cases "ManagedQueue k s") simp_all
    show ?thesis
      unfolding shard_elems_mem [OF si] shard_elems_mem [OF si']
    proof
      assume "\<exists>key mq. ManagedQueue key s' = Inr mq \<and> it \<in># mq_elems mq"
      then obtain key mq where "ManagedQueue key s' = Inr mq" "it \<in># mq_elems mq" by blast
      then show "(\<exists>key mq. ManagedQueue key s = Inr mq \<and> it \<in># mq_elems mq) \<and> P it"
        using q [of key] by (cases "ManagedQueue key s") auto
    next
      assume "(\<exists>key mq. ManagedQueue key s = Inr mq \<and> it \<in># mq_elems mq) \<and> P it"
      then obtain key mq where "ManagedQueue key s = Inr mq" "it \<in># mq_elems mq" "P it" by blast
      then show "\<exists>key mq. ManagedQueue key s' = Inr mq \<and> it \<in># mq_elems mq" using q [of key] by fastforce
    qed
  qed
  then have "shard_elems s' = filter_mset P (shard_elems s)"
    by (intro unique_ptrs_filter shard_unique [OF inv s] shard_unique [OF R(2,3)])
  then show ?thesis using R by blast
qed

subsection \<open>Sweeping\<close>

lemma FinalState_cong: "item_final w' = item_final w \<Longrightarrow> FinalState w' = FinalState w"
  by (simp add: FinalState_def fun_eq_iff)

lemma sweep_step: "queue_step (sweep_queue sid) sid (\<lambda>w s. item_final w = F) (\<lambda>it. F (item_ptr it) = None)"
  unfolding queue_step_def
proof (intro allI impI)
  fix key mq w fr s
  assume inv: "plane_inv w fr" and at: "queue_at fr sid key s mq" and F: "item_final w = F"
  let ?P = "\<lambda>it. FinalState w it \<noteq> None"
  obtain rs fr' mq' where C: "registry_Cleanup sid key mq ?P (w, fr) = Some (rs, fold invalidate_item rs w, fr')"
    "fr' = set_in_shard sid key mq' (- of_nat (length rs)) (- (\<Sum>it\<leftarrow>rs. item_size it)) s fr"
    "mq_elems mq' = filter_mset (\<lambda>it. \<not> ?P it) (mq_elems mq)" "plane_inv (fold invalidate_item rs w) fr'" "mq_policy mq' = mq_policy mq"
    using registry_Cleanup_ok [OF inv at, of ?P] by blast
  have "(\<lambda>it. \<not> ?P it) = (\<lambda>it. F (item_ptr it) = None)" using F by (auto simp: FinalState_def)
  then show "\<exists>w' mq' dl db. sweep_queue sid key mq (w, fr) = Some (w', set_in_shard sid key mq' dl db s fr) \<and>
      plane_inv w' (set_in_shard sid key mq' dl db s fr) \<and> item_final w' = F \<and>
      mq_elems mq' = filter_mset (\<lambda>it. F (item_ptr it) = None) (mq_elems mq) \<and> mq_policy mq' = mq_policy mq"
    using C F by (intro exI [of _ "fold invalidate_item rs w"] exI [of _ mq'] exI [of _ "- of_nat (length rs)"]
        exI [of _ "- (\<Sum>it\<leftarrow>rs. item_size it)"]) (simp add: sweep_queue_def)
qed

lemma sweep_ok:
  assumes inv: "plane_inv w fr" and s: "map_of (fr_shards fr) sid = Some s"
  shows "\<exists>w' fr' s'. sweepFinalizedItems sid (w, fr) = Some (w', fr') \<and> plane_inv w' fr' \<and>
    map_of (fr_shards fr') sid = Some s' \<and> shard_elems s' = filter_mset (\<lambda>it. FinalState w it = None) (shard_elems s) \<and>
    reg_elems fr' + filter_mset (\<lambda>it. FinalState w it \<noteq> None) (shard_elems s) = reg_elems fr \<and>
    item_final w' = item_final w \<and> (dispatchable s \<longrightarrow> dispatchable s')"
proof -
  obtain w' fr' s' where R: "sweepFinalizedItems sid (w, fr) = Some (w', fr')" "plane_inv w' fr'"
    "map_of (fr_shards fr') sid = Some s'" "item_final w' = item_final w"
    "shard_elems s' = filter_mset (\<lambda>it. item_final w (item_ptr it) = None) (shard_elems s)"
    "other_shards sid fr' = other_shards sid fr" "dispatchable s \<longrightarrow> dispatchable s'"
    using processAllQueues_ok [OF sweep_step inv s refl] by (auto simp: sweepFinalizedItems_def)
  have "reg_elems fr = other_shards sid fr + shard_elems s" "reg_elems fr' = other_shards sid fr' + shard_elems s'"
    using reg_elems_split [OF _ s] reg_elems_split [OF _ R(3)] inv R(2) by (auto simp: plane_inv_def)
  moreover have "shard_elems s = shard_elems s' + filter_mset (\<lambda>it. FinalState w it \<noteq> None) (shard_elems s)"
    unfolding R(5) FinalState_def by (rule multiset_partition)
  ultimately have "reg_elems fr' + filter_mset (\<lambda>it. FinalState w it \<noteq> None) (shard_elems s) = reg_elems fr"
    unfolding R(6) by (metis add.assoc)
  then show ?thesis using R by (auto simp: FinalState_def)
qed

text \<open>
  C21: a sweep removes exactly the finalized items of its shard: afterwards the shard holds
  the items that are not final, each once, the items of the other shards and all final states
  are untouched, every statistic is exact again, and nothing panics.
\<close>

theorem sweep_exact:
  assumes inv: "plane_inv w fr" and s: "map_of (fr_shards fr) sid = Some s"
  shows "\<exists>w' fr' s'. sweepFinalizedItems sid (w, fr) = Some (w', fr') \<and> plane_inv w' fr' \<and>
    map_of (fr_shards fr') sid = Some s' \<and> shard_elems s' = filter_mset (\<lambda>it. FinalState w it = None) (shard_elems s) \<and>
    reg_elems fr' + filter_mset (\<lambda>it. FinalState w it \<noteq> None) (shard_elems s) = reg_elems fr \<and>
    item_final w' = item_final w"
  using sweep_ok [OF assms] by blast

subsection \<open>Shutdown\<close>

definition evicted_state :: final_state where
  "evicted_state = \<lparr>Outcome = QueueOutcomeEvictedOther, Err = Some errShutdown\<rparr>"

text \<open>What the final states become when the items \<open>M\<close> are finalized with \<open>st\<close>.\<close>

definition settle :: "nat set \<Rightarrow> final_state \<Rightarrow> (nat \<Rightarrow> final_state option) \<Rightarrow> nat \<Rightarrow> final_state option" where
  "settle ps st F p = (if p \<in> ps \<and> F p = None then Some st else F p)"

lemma item_final_finalize:
  "item_final (FinalizeWithOutcome oc err it w) = settle {item_ptr it} \<lparr>Outcome = oc, Err = err\<rparr> (item_final w)"
  by (auto simp: FinalizeWithOutcome_def onceFinalize_def finalizeInternal_def FinalState_def settle_def Let_def fun_eq_iff)

lemma settle_settle: "settle A st (settle B st F) = settle (B \<union> A) st F"
  by (auto simp: settle_def fun_eq_iff)

lemma item_final_fold:
  "item_final (fold (FinalizeWithOutcome oc err) its w) = settle (item_ptr ` set its) \<lparr>Outcome = oc, Err = err\<rparr> (item_final w)"
proof (induction its arbitrary: w)
  case Nil
  then show ?case by (simp add: settle_def fun_eq_iff)
next
  case (Cons it its)
  then show ?case by (simp add: item_final_finalize settle_settle)
qed

text \<open>While a shutdown runs, the items that left the shard are settled.\<close>

definition evicting :: "(nat \<Rightarrow> final_state option) \<Rightarrow> nat set \<Rightarrow> world \<Rightarrow> registryShard \<Rightarrow> bool" where
  "evicting F ps w s \<longleftrightarrow> (\<exists>gone. gone \<union> ptrs (shard_elems s) = ps \<and> item_final w = settle gone evicted_state F)"

lemma evict_step: "queue_step (evict_queue sid) sid (evicting F ps) (\<lambda>it. False)"
  unfolding queue_step_def
proof (intro allI impI)
  fix key mq w fr s
  assume inv: "plane_inv w fr" and at: "queue_at fr sid key s mq" and E: "evicting F ps w s"
  obtain rs fr' mq' where D: "registry_Drain sid key mq (w, fr) = Some (rs, fold invalidate_item rs w, fr')"
    "fr' = set_in_shard sid key mq' (- of_nat (length rs)) (- (\<Sum>it\<leftarrow>rs. item_size it)) s fr" "mset rs = mq_elems mq"
    "mq_elems mq' = {#}" "plane_inv (fold invalidate_item rs w) fr'" "mq_policy mq' = mq_policy mq"
    using registry_Drain_ok [OF inv at] by blast
  let ?w' = "fold (FinalizeWithOutcome QueueOutcomeEvictedOther (Some errShutdown)) rs (fold invalidate_item rs w)"
    and ?dl = "- of_nat (length rs)" and ?db = "- (\<Sum>it\<leftarrow>rs. item_size it)"
  have inv': "plane_inv ?w' fr'" using D(5) by (simp add: plane_inv_finalize_all)
  have s: "map_of (fr_shards fr) sid = Some s" and m: "ManagedQueue key s = Inr mq" using at by (simp_all add: queue_at_def)
  have ok: "shards_ok w fr" using inv by (simp add: plane_inv_def)
  have si: "shard_inv w s" by (rule shards_ok_shard [OF ok s])
  have "queue_at fr' sid key (set_queue key mq' ?dl ?db s) mq'" unfolding D(2) by (rule set_in_shard_at [OF ok s m])
  then have si': "shard_inv ?w' (set_queue key mq' ?dl ?db s)" using queue_at_inv [OF inv'] by blast
  have el: "shard_elems s = shard_elems (set_queue key mq' ?dl ?db s) + mset rs"
    using shard_elems_split [OF si m] set_queue_elems [OF si' m] D(3,4) by simp
  obtain gone where g: "gone \<union> ptrs (shard_elems s) = ps" "item_final w = settle gone evicted_state F"
    using E by (auto simp: evicting_def)
  have "item_final ?w' = settle (gone \<union> item_ptr ` set rs) evicted_state F"
    unfolding item_final_fold other_cells_invalidate_items g(2) evicted_state_def settle_settle by simp
  moreover have "(gone \<union> item_ptr ` set rs) \<union> ptrs (shard_elems (set_queue key mq' ?dl ?db s)) = ps"
    unfolding g(1) [symmetric] el by auto
  ultimately have "evicting F ps ?w' (set_queue key mq' ?dl ?db s)" unfolding evicting_def by blast
  then show "\<exists>w' mq' dl db. evict_queue sid key mq (w, fr) = Some (w', set_in_shard sid key mq' dl db s fr) \<and>
      plane_inv w' (set_in_shard sid key mq' dl db s fr) \<and> evicting F ps w' (set_queue key mq' dl db s) \<and>
      mq_elems mq' = filter_mset (\<lambda>it. False) (mq_elems mq) \<and> mq_policy mq' = mq_policy mq"
    using D inv' by (intro exI [of _ ?w'] exI [of _ mq'] exI [of _ ?dl] exI [of _ ?db]) (simp add: evict_queue_def)
qed

lemma evictAll_ok:
  assumes inv: "plane_inv w fr" and s: "map_of (fr_shards fr) sid = Some s"
  shows "\<exists>w' fr' s'. evictAll sid (w, fr) = Some (w', fr') \<and> plane_inv w' fr' \<and> map_of (fr_shards fr') sid = Some s' \<and>
    shard_elems s' = {#} \<and> other_shards sid fr' = other_shards sid fr \<and>
    item_final w' = settle (ptrs (shard_elems s)) evicted_state (item_final w) \<and> (dispatchable s \<longrightarrow> dispatchable s')"
proof -
  have "item_final w = settle {} evicted_state (item_final w)" by (simp add: settle_def fun_eq_iff)
  then have "evicting (item_final w) (ptrs (shard_elems s)) w s" unfolding evicting_def by (intro exI [of _ "{}"]) simp
  from processAllQueues_ok [OF evict_step inv s this] show ?thesis
    by (auto simp: evictAll_def evicting_def)
qed

definition pending :: "shardProcessor \<Rightarrow> queue_item list" where
  "pending sp = List.map_filter id (sp_enqueueChan sp)"

definition rejected_state :: final_state where
  "rejected_state = \<lparr>Outcome = QueueOutcomeRejectedOther, Err = Some (rejected (Sentinel ErrFlowControllerNotRunning))\<rparr>"

lemma drain_channel:
  "fold (\<lambda>item w. case item of None \<Rightarrow> w
      | Some it \<Rightarrow> FinalizeWithOutcome QueueOutcomeRejectedOther (Some (rejected (Sentinel ErrFlowControllerNotRunning))) it w) ch w =
   fold (FinalizeWithOutcome QueueOutcomeRejectedOther (Some (rejected (Sentinel ErrFlowControllerNotRunning))))
     (List.map_filter id ch) w"
  by (induction ch arbitrary: w) (auto simp: map_filter_def split: option.split)

lemma shutdown_ok:
  assumes inv: "plane_inv w fr" and s: "map_of (fr_shards fr) (sp_shard sp) = Some s" and run: "\<not> sp_isShuttingDown sp"
  shows "\<exists>sp' w' fr' s'. shutdown sp (w, fr) = Some (sp', w', fr') \<and> sp_isShuttingDown sp' \<and> sp_enqueueChan sp' = [] \<and>
    plane_inv w' fr' \<and> map_of (fr_shards fr') (sp_shard sp) = Some s' \<and> shard_elems s' = {#} \<and>
    reg_elems fr' + shard_elems s = reg_elems fr \<and>
    item_final w' = settle (ptrs (shard_elems s)) evicted_state
      (settle (item_ptr ` set (pending sp)) rejected_state (item_final w)) \<and>
    errors_Is (the (Err evicted_state)) ErrFlowControllerNotRunning \<and>
    errors_Is (the (Err rejected_state)) ErrFlowControllerNotRunning \<and> (dispatchable s \<longrightarrow> dispatchable s') \<and> sp_shard sp' = sp_shard sp"
proof -
  let ?w1 = "fold (FinalizeWithOutcome QueueOutcomeRejectedOther (Some (rejected (Sentinel ErrFlowControllerNotRunning)))) (pending sp) w"
  have inv1: "plane_inv ?w1 fr" using inv by (simp add: plane_inv_finalize_all)
  obtain w' fr' s' where E: "evictAll (sp_shard sp) (?w1, fr) = Some (w', fr')" "plane_inv w' fr'"
    "map_of (fr_shards fr') (sp_shard sp) = Some s'" "shard_elems s' = {#}"
    "other_shards (sp_shard sp) fr' = other_shards (sp_shard sp) fr"
    "item_final w' = settle (ptrs (shard_elems s)) evicted_state (item_final ?w1)" "dispatchable s \<longrightarrow> dispatchable s'"
    using evictAll_ok [OF inv1 s] by blast
  have "reg_elems fr = other_shards (sp_shard sp) fr + shard_elems s" "reg_elems fr' = other_shards (sp_shard sp) fr'"
    using reg_elems_split [OF _ s] reg_elems_split [OF _ E(3)] inv E(2,4) by (auto simp: plane_inv_def)
  moreover have "shutdown sp (w, fr) = Some (sp\<lparr>sp_isShuttingDown := True, sp_enqueueChan := []\<rparr>, w', fr')"
    using run E(1) by (simp add: shutdown_def Let_def drain_channel pending_def)
  ultimately show ?thesis
    using E by (simp add: item_final_fold rejected_state_def evicted_state_def errShutdown_def rejected_def)
qed

text \<open>
  C20: a shutdown leaves nothing behind: the channel and the queues of the shard are empty,
  every buffered item is final, rejected unless it was final before, every queued item is
  final, evicted unless it was final before, and no other final state changes. Both errors
  say that the controller is not running. Statistics stay exact and nothing panics.
\<close>

theorem shutdown_settles_all:
  assumes inv: "plane_inv w fr" and s: "map_of (fr_shards fr) (sp_shard sp) = Some s" and run: "\<not> sp_isShuttingDown sp"
  shows "\<exists>sp' w' fr' s'. shutdown sp (w, fr) = Some (sp', w', fr') \<and> sp_isShuttingDown sp' \<and> sp_enqueueChan sp' = [] \<and>
    plane_inv w' fr' \<and> map_of (fr_shards fr') (sp_shard sp) = Some s' \<and> shard_elems s' = {#} \<and>
    reg_elems fr' + shard_elems s = reg_elems fr \<and>
    item_final w' = settle (ptrs (shard_elems s)) evicted_state
      (settle (item_ptr ` set (pending sp)) rejected_state (item_final w)) \<and>
    errors_Is (the (Err evicted_state)) ErrFlowControllerNotRunning \<and>
    errors_Is (the (Err rejected_state)) ErrFlowControllerNotRunning"
  using shutdown_ok [OF assms] by blast

subsection \<open>Runs\<close>

text \<open>The items a processor is responsible for: those in its channel and those in queues.\<close>

definition tracked :: "shardProcessor \<Rightarrow> flowRegistry \<Rightarrow> queue_item multiset" where
  "tracked sp fr = mset (pending sp) + reg_elems fr"

definition proc_inv :: "shardProcessor \<Rightarrow> world \<Rightarrow> flowRegistry \<Rightarrow> bool" where
  "proc_inv sp w fr \<longleftrightarrow> plane_inv w fr \<and> (\<exists>s. map_of (fr_shards fr) (sp_shard sp) = Some s \<and> dispatchable s) \<and>
     unique_ptrs (tracked sp fr) \<and> size (tracked sp fr) < 2 ^ 63"

text \<open>From one state to the next no item is lost and none is made up.\<close>

definition no_loss :: "queue_item multiset \<Rightarrow> world \<Rightarrow> queue_item multiset \<Rightarrow> world \<Rightarrow> bool" where
  "no_loss M w M' w' \<longleftrightarrow> M' \<subseteq># M \<and> keeps_finals w w' \<and> (\<forall>it. it \<in># M \<longrightarrow> it \<in># M' \<or> FinalState w' it \<noteq> None)"

lemma no_loss_refl [simp]: "no_loss M w M w"
  by (simp add: no_loss_def)

lemma no_loss_trans: "no_loss M w M1 w1 \<Longrightarrow> no_loss M1 w1 M2 w2 \<Longrightarrow> no_loss M w M2 w2"
proof -
  assume a: "no_loss M w M1 w1" "no_loss M1 w1 M2 w2"
  have "it \<in># M2 \<or> FinalState w2 it \<noteq> None" if m: "it \<in># M" for it
  proof (cases "it \<in># M1")
    case True
    then show ?thesis using a(2) unfolding no_loss_def by blast
  next
    case False
    then obtain st where "FinalState w1 it = Some st" using a(1) m by (auto simp: no_loss_def)
    then have "FinalState w2 it = Some st" using a(2) by (simp add: no_loss_def keeps_finals_def FinalState_def)
    then show ?thesis by simp
  qed
  then show ?thesis using a keeps_finals_trans by (auto simp: no_loss_def)
qed

lemma no_loss_add: "no_loss M w M' w' \<Longrightarrow> no_loss (N + M) w (N + M') w'"
  by (auto simp: no_loss_def)

lemma dispatch_no_loss:
  assumes inv: "plane_inv w fr" and s: "map_of (fr_shards fr) sid = Some s" and d: "dispatchable s"
    and len: "\<And>ps. length (ComputeLimit sat ps) = length ps"
  shows "\<exists>b w' fr' s'. dispatchCycle ComputeLimit sat sid (w, fr) = Some (b, w', fr') \<and> plane_inv w' fr' \<and>
    map_of (fr_shards fr') sid = Some s' \<and> dispatchable s' \<and> no_loss (reg_elems fr) w (reg_elems fr') w'"
proof -
  let ?ps = "AllOrderedPriorityLevels s" and ?W = "\<lambda>p. waiting_in s p \<noteq> {#}"
  have si: "shard_inv w s" using inv shards_ok_shard [OF _ s] by (auto simp: plane_inv_def)
  note B = dispatch_bands_spec [where cs = "ComputeLimit sat ?ps" and sat = sat,
      OF inv s d levels_in_bands [OF si] len, folded dispatchCycle_bands [OF s]]
  show ?thesis
  proof (cases "dispatch_spec sat ?W ?ps (ComputeLimit sat ?ps)")
    case None
    then obtain fr' s' where R: "dispatchCycle ComputeLimit sat sid (w, fr) = Some (False, w, fr')" "plane_inv w fr'"
      "reg_elems fr' = reg_elems fr" "map_of (fr_shards fr') sid = Some s'" "dispatchable s'" using B by auto
    then have "no_loss (reg_elems fr) w (reg_elems fr') w" by simp
    then show ?thesis using R by blast
  next
    case (Some p)
    then obtain it w' fr' s' where R: "dispatchCycle ComputeLimit sat sid (w, fr) = Some (True, w', fr')" "plane_inv w' fr'"
      "w' = FinalizeWithOutcome QueueOutcomeDispatched None it (invalidate_item it w)"
      "reg_elems fr' = reg_elems fr - {#it#}" "map_of (fr_shards fr') sid = Some s'" "dispatchable s'" using B by auto
    have "touches {item_ptr it} w (invalidate_item it w)" by (rule touches_invalidate_item) simp
    then have "keeps_finals w (invalidate_item it w)" using touches_finals by blast
    then have k: "keeps_finals w w'" unfolding R(3) using FinalizeWithOutcome_ok(2) keeps_finals_trans by blast
    have f: "FinalState w' it \<noteq> None" unfolding R(3) by (simp add: FinalState_FinalizeWithOutcome split: option.split)
    have "x \<in># reg_elems fr' \<or> FinalState w' x \<noteq> None" if "x \<in># reg_elems fr" for x
    proof (cases "x = it")
      case False
      then have "x \<in># reg_elems fr'" using that unfolding R(4) by (simp add: in_diff_count not_in_iff count_greater_zero_iff)
      then show ?thesis ..
    qed (simp add: f)
    then have "no_loss (reg_elems fr) w (reg_elems fr') w'" using k by (simp add: no_loss_def R(4))
    then show ?thesis using R(1,2,5,6) by blast
  qed
qed

lemma enqueue_no_loss:
  assumes inv: "plane_inv w fr" and s: "map_of (fr_shards fr) sid = Some s" and d: "dispatchable s"
    and p: "item_ptr it \<notin> ptrs (reg_elems fr)" and room: "Suc (size (shard_elems s)) < 2 ^ 63"
  shows "\<exists>w' fr' s'. enqueue sid it (w, fr) = Some (w', fr') \<and> plane_inv w' fr' \<and>
    map_of (fr_shards fr') sid = Some s' \<and> dispatchable s' \<and> no_loss (add_mset it (reg_elems fr)) w (reg_elems fr') w'"
proof -
  obtain w' fr' s' where E: "enqueue sid it (w, fr) = Some (w', fr')" "plane_inv w' fr'"
    "FinalState w it \<noteq> None \<longrightarrow> w' = w \<and> fr' = fr" "keeps_finals w w'" "map_of (fr_shards fr') sid = Some s'" "dispatchable s'"
    "FinalState w it = None \<longrightarrow> reg_elems fr' = add_mset it (reg_elems fr) \<or> fr' = fr \<and> FinalState w' it \<noteq> None"
    using enqueue_ok [OF inv s p room] d by (cases "admission_of s it") auto
  have "no_loss (add_mset it (reg_elems fr)) w (reg_elems fr') w'"
    using E(3,4,7) by (cases "FinalState w it = None") (auto simp: no_loss_def)
  then show ?thesis using E by blast
qed

lemma proc_inv_step:
  assumes inv: "proc_inv sp w fr" and inv': "plane_inv w' fr'" and s': "map_of (fr_shards fr') (sp_shard sp') = Some s'" "dispatchable s'"
    and n: "no_loss (tracked sp fr) w (tracked sp' fr') w'"
  shows "proc_inv sp' w' fr'"
proof -
  have "tracked sp' fr' \<subseteq># tracked sp fr" using n by (simp add: no_loss_def)
  then have "unique_ptrs (tracked sp' fr')" "size (tracked sp' fr') \<le> size (tracked sp fr)"
    using unique_ptrs_mono size_mset_mono inv unfolding proc_inv_def by blast+
  then show ?thesis using inv inv' s' by (auto simp: proc_inv_def)
qed

lemma pending_simps [simp]:
  "sp_enqueueChan sp = None # rest \<Longrightarrow> pending sp = List.map_filter id rest"
  "sp_enqueueChan sp = Some it # rest \<Longrightarrow> pending sp = it # List.map_filter id rest"
  "pending (sp\<lparr>sp_enqueueChan := ch\<rparr>) = List.map_filter id ch" "pending (sp\<lparr>sp_ctxDone := b\<rparr>) = pending sp"
  by (simp_all add: pending_def map_filter_def)

lemma run_step_no_loss:
  assumes inv: "proc_inv sp w fr" and len: "\<And>sat ps. length (ComputeLimit sat ps) = length ps"
  shows "\<exists>sp' w' fr'. run_step ComputeLimit ev (sp, w, fr) = Some (sp', w', fr') \<and> proc_inv sp' w' fr' \<and>
    sp_shard sp' = sp_shard sp \<and> no_loss (tracked sp fr) w (tracked sp' fr') w'"
proof -
  have plane: "plane_inv w fr" and u: "unique_ptrs (tracked sp fr)" and sz: "size (tracked sp fr) < 2 ^ 63"
    using inv by (simp_all add: proc_inv_def)
  obtain s where s: "map_of (fr_shards fr) (sp_shard sp) = Some s" "dispatchable s" using inv by (auto simp: proc_inv_def)
  have split: "reg_elems fr = other_shards (sp_shard sp) fr + shard_elems s"
    using reg_elems_split [OF _ s(1)] plane by (auto simp: plane_inv_def)
  show ?thesis
  proof (cases ev)
    case (Arrival sat)
    show ?thesis
    proof (cases "sp_enqueueChan sp")
      case Nil
      then show ?thesis using inv Arrival by (simp add: run_step_def)
    next
      case (Cons x rest)
      let ?sp = "sp\<lparr>sp_enqueueChan := rest\<rparr>"
      show ?thesis
      proof (cases x)
        case None
        then have "tracked ?sp fr = tracked sp fr" using Cons by (simp add: tracked_def)
        then show ?thesis using inv Arrival Cons None by (simp add: run_step_def proc_inv_def)
      next
        case (Some it)
        have t: "tracked sp fr = mset (List.map_filter id rest) + add_mset it (reg_elems fr)"
          using Cons Some by (simp add: tracked_def)
        have p: "item_ptr it \<notin> ptrs (reg_elems fr)"
          using unique_ptrs_add [of "{#it#}" "reg_elems fr"] unique_ptrs_mono [OF _ u, of "{#it#} + reg_elems fr"] t by simp
        have room: "Suc (size (shard_elems s)) < 2 ^ 63" using sz by (simp add: t split)
        obtain w1 fr1 s1 where E: "enqueue (sp_shard sp) it (w, fr) = Some (w1, fr1)" "plane_inv w1 fr1"
          "map_of (fr_shards fr1) (sp_shard sp) = Some s1" "dispatchable s1"
          "no_loss (add_mset it (reg_elems fr)) w (reg_elems fr1) w1"
          using enqueue_no_loss [OF plane s p room] by blast
        obtain b w2 fr2 s2 where D: "dispatchCycle ComputeLimit sat (sp_shard sp) (w1, fr1) = Some (b, w2, fr2)" "plane_inv w2 fr2"
          "map_of (fr_shards fr2) (sp_shard sp) = Some s2" "dispatchable s2" "no_loss (reg_elems fr1) w1 (reg_elems fr2) w2"
          using dispatch_no_loss [where ComputeLimit = ComputeLimit and sat = sat, OF E(2-4) len] by blast
        have t2: "tracked ?sp fr2 = mset (List.map_filter id rest) + reg_elems fr2" by (simp add: tracked_def)
        have n: "no_loss (tracked sp fr) w (tracked ?sp fr2) w2"
          unfolding t t2 by (rule no_loss_add [OF no_loss_trans [OF E(5) D(5)]])
        have "run_step ComputeLimit ev (sp, w, fr) = Some (?sp, w2, fr2)"
          using Arrival Cons Some E(1) D(1) by (simp add: run_step_def)
        moreover have "proc_inv ?sp w2 fr2" by (rule proc_inv_step [OF inv D(2) _ D(4) n]) (simp add: D(3))
        ultimately show ?thesis using n by auto
      qed
    qed
  next
    case (DispatchTick sat)
    obtain b w2 fr2 s2 where D: "dispatchCycle ComputeLimit sat (sp_shard sp) (w, fr) = Some (b, w2, fr2)" "plane_inv w2 fr2"
      "map_of (fr_shards fr2) (sp_shard sp) = Some s2" "dispatchable s2" "no_loss (reg_elems fr) w (reg_elems fr2) w2"
      using dispatch_no_loss [where ComputeLimit = ComputeLimit and sat = sat, OF plane s len] by blast
    have n: "no_loss (tracked sp fr) w (tracked sp fr2) w2" unfolding tracked_def by (rule no_loss_add [OF D(5)])
    then show ?thesis using DispatchTick D(1) proc_inv_step [OF inv D(2-4) n] by (simp add: run_step_def)
  next
    case SweepTick
    obtain w' fr' s' where S: "sweepFinalizedItems (sp_shard sp) (w, fr) = Some (w', fr')" "plane_inv w' fr'"
      "map_of (fr_shards fr') (sp_shard sp) = Some s'" "dispatchable s'" "item_final w' = item_final w"
      "reg_elems fr' + filter_mset (\<lambda>it. FinalState w it \<noteq> None) (shard_elems s) = reg_elems fr"
      using sweep_ok [OF plane s(1)] s(2) by blast
    have "no_loss (reg_elems fr) w (reg_elems fr') w'"
      unfolding S(6) [symmetric] by (auto simp: no_loss_def keeps_finals_def S(5) FinalState_def)
    then have n: "no_loss (tracked sp fr) w (tracked sp fr') w'" unfolding tracked_def by (rule no_loss_add)
    then show ?thesis using SweepTick S(1) proc_inv_step [OF inv S(2-4) n] by (simp add: run_step_def)
  next
    case ContextDone
    let ?sp = "sp\<lparr>sp_ctxDone := True\<rparr>"
    show ?thesis
    proof (cases "sp_isShuttingDown sp")
      case True
      then show ?thesis using ContextDone inv by (simp add: run_step_def shutdown_def proc_inv_def tracked_def)
    next
      case False
      then obtain sp' w' fr' s' where S: "shutdown ?sp (w, fr) = Some (sp', w', fr')" "sp_enqueueChan sp' = []"
        "plane_inv w' fr'" "map_of (fr_shards fr') (sp_shard sp) = Some s'" "dispatchable s'" "sp_shard sp' = sp_shard sp"
        "reg_elems fr' + shard_elems s = reg_elems fr"
        "item_final w' = settle (ptrs (shard_elems s)) evicted_state
           (settle (item_ptr ` set (pending ?sp)) rejected_state (item_final w))"
        using shutdown_ok [OF plane, of ?sp s] s by auto
      have t: "tracked sp' fr' = reg_elems fr'" using S(2) by (simp add: tracked_def pending_def map_filter_def)
      have "FinalState w' it \<noteq> None" if "it \<in># mset (pending sp) + shard_elems s" for it
        using that by (auto simp: FinalState_def S(8) settle_def)
      then have n: "no_loss (tracked sp fr) w (tracked sp' fr') w'"
        unfolding t by (auto simp: no_loss_def tracked_def S(7) [symmetric] keeps_finals_def S(8) settle_def)
      have "map_of (fr_shards fr') (sp_shard sp') = Some s'" using S(4,6) by simp
      then show ?thesis
        using ContextDone S(1,6) proc_inv_step [OF inv S(3) _ S(5) n] n by (simp add: run_step_def)
    qed
  qed
qed

fun run_events ::
  "usage_limit_policy \<Rightarrow> run_event list \<Rightarrow> shardProcessor \<times> world \<times> flowRegistry \<Rightarrow>
   (shardProcessor \<times> world \<times> flowRegistry) option" where
  "run_events ComputeLimit [] st = Some st"
| "run_events ComputeLimit (ev # evs) st =
     (case run_step ComputeLimit ev st of None \<Rightarrow> None | Some st1 \<Rightarrow> run_events ComputeLimit evs st1)"

text \<open>
  C19: no item is lost: whatever arrivals, dispatch ticks, sweeps and shutdowns happen in
  whatever order, an item in the channel or in a queue of the processor stays there or is
  final, a final state never changes, no item is made up, and no run panics. The premise on
  the usage limit policy is its contract: one ceiling for each priority.
\<close>

theorem run_keeps_items:
  assumes inv: "proc_inv sp w fr" and len: "\<And>sat ps. length (ComputeLimit sat ps) = length ps"
  shows "\<exists>sp' w' fr'. run_events ComputeLimit evs (sp, w, fr) = Some (sp', w', fr') \<and> proc_inv sp' w' fr' \<and>
    tracked sp' fr' \<subseteq># tracked sp fr \<and> keeps_finals w w' \<and>
    (\<forall>it. it \<in># tracked sp fr \<longrightarrow> it \<in># tracked sp' fr' \<or> FinalState w' it \<noteq> None)"
proof -
  have "\<exists>sp' w' fr'. run_events ComputeLimit evs (sp, w, fr) = Some (sp', w', fr') \<and> proc_inv sp' w' fr' \<and>
    no_loss (tracked sp fr) w (tracked sp' fr') w'"
    using inv
  proof (induction evs arbitrary: sp w fr)
    case Nil
    then show ?case by simp
  next
    case (Cons ev evs)
    obtain sp1 w1 fr1 where 1: "run_step ComputeLimit ev (sp, w, fr) = Some (sp1, w1, fr1)" "proc_inv sp1 w1 fr1"
      "no_loss (tracked sp fr) w (tracked sp1 fr1) w1"
      using run_step_no_loss [where ComputeLimit = ComputeLimit and ev = ev, OF Cons.prems len] by blast
    obtain sp2 w2 fr2 where 2: "run_events ComputeLimit evs (sp1, w1, fr1) = Some (sp2, w2, fr2)" "proc_inv sp2 w2 fr2"
      "no_loss (tracked sp1 fr1) w1 (tracked sp2 fr2) w2" using Cons.IH [OF 1(2)] by blast
    have "no_loss (tracked sp fr) w (tracked sp2 fr2) w2" by (rule no_loss_trans [OF 1(3) 2(3)])
    moreover have "run_events ComputeLimit (ev # evs) (sp, w, fr) = Some (sp2, w2, fr2)" using 1(1) 2(1) by simp
    ultimately show ?case using 2(2) by blast
  qed
  then show ?thesis unfolding no_loss_def by (elim exE conjE) (intro exI conjI, assumption+)
qed

text \<open>
  The check of the shutdown flag and the hand-off are two steps: a submission that has
  passed the check before a shutdown can still put its item into the channel after the
  shutdown has drained it. It reports success, and the item is neither final nor looked at
  again, because a second shutdown does nothing.
\<close>

theorem submit_after_shutdown_lost:
  assumes "sp_isShuttingDown sp" "length (sp_enqueueChan sp) < sp_bufferSize sp"
  shows "\<exists>sp'. submit_select waiting True (Some it) sp = (None, sp') \<and> it \<in> set (pending sp') \<and>
    shutdown sp' (w, fr) = Some (sp', w, fr)"
proof -
  have "it \<in> set (pending (sp\<lparr>sp_enqueueChan := sp_enqueueChan sp @ [Some it]\<rparr>))"
    by (simp add: pending_def map_filter_def)
  then show ?thesis using assms by (simp add: submit_select_def can_send_def shutdown_def)
qed

definition idle_registry :: flowRegistry where
  "idle_registry = sample_registry (two_queue_band (newManagedQueue (ListQ (newListQueue 0)) fcfs key_a)
     (newManagedQueue (ListQ (newListQueue 1)) fcfs key_b) RoundRobin)"

theorem submit_after_shutdown_lost_witness:
  "\<exists>sp. submit_select False True (Some plain_item)
      ((NewShardProcessor ''shard-0000'' 100 False)\<lparr>sp_isShuttingDown := True\<rparr>) = (None, sp) \<and>
    plain_item \<in> set (pending sp) \<and>
    shutdown sp (init_world, idle_registry) = Some (sp, init_world, idle_registry)"
  using submit_after_shutdown_lost [of "(NewShardProcessor ''shard-0000'' 100 False)\<lparr>sp_isShuttingDown := True\<rparr>"
      False plain_item init_world idle_registry]
  by (simp add: NewShardProcessor_def)

subsection \<open>Examples\<close>

definition sample_processor :: shardProcessor where
  "sample_processor = (NewShardProcessor ''shard-0000'' 100 False)\<lparr>sp_enqueueChan := [Some (sample_flow_item 3 30 key_a)]\<rparr>"

theorem run_keeps_items_witness:
  "\<exists>w fr sp' w' fr'. size (tracked sample_processor fr) = 3 \<and>
     run_events DefaultPolicy [Arrival (1/2), DispatchTick (1/2), SweepTick, ContextDone] (sample_processor, w, fr) = Some (sp', w', fr') \<and>
     proc_inv sp' w' fr'"
proof -
  obtain w m1 m2 where d: "dispatchable (sample_shard (two_queue_band m1 m2 RoundRobin))"
    and t: "plane_inv w (sample_registry (two_queue_band m1 m2 RoundRobin))"
    "mq_elems m1 = {#sample_flow_item 1 20 key_a#}" "mq_elems m2 = {#sample_flow_item 2 10 key_b#}"
    using sample_two by blast
  let ?fr = "sample_registry (two_queue_band m1 m2 RoundRobin)"
  have p: "pending sample_processor = [sample_flow_item 3 30 key_a]" "sp_shard sample_processor = ''shard-0000''"
    by (simp_all add: sample_processor_def NewShardProcessor_def map_filter_def)
  note e = sample_two_elems(2) [OF t(2,3), where fp = RoundRobin]
  have "unique_ptrs (tracked sample_processor ?fr)"
    by (simp add: tracked_def p e unique_ptrs_def sample_flow_item_def)
  then have "proc_inv sample_processor w ?fr"
    using t(1) d sample_at by (auto simp: proc_inv_def p tracked_def e)
  moreover have "length (DefaultPolicy sat ps) = length ps" for sat ps by (simp add: DefaultPolicy_def NewConstPolicy_def)
  ultimately obtain sp' w' fr' where "run_events DefaultPolicy [Arrival (1/2), DispatchTick (1/2), SweepTick, ContextDone]
      (sample_processor, w, ?fr) = Some (sp', w', fr')" "proc_inv sp' w' fr'"
    using run_keeps_items [where ComputeLimit = DefaultPolicy] by blast
  moreover have "size (tracked sample_processor ?fr) = 3" by (simp add: tracked_def p e)
  ultimately show ?thesis by blast
qed

theorem sweep_exact_witness:
  "\<exists>w fr w' fr'. size (reg_elems fr) = 2 \<and> FinalState w (sample_flow_item 1 20 key_a) \<noteq> None \<and>
     sweepFinalizedItems ''shard-0000'' (w, fr) = Some (w', fr') \<and> reg_elems fr' = {#sample_flow_item 2 10 key_b#}"
proof -
  obtain w0 m1 m2 where f: "item_final w0 = Map.empty"
    and t: "plane_inv w0 (sample_registry (two_queue_band m1 m2 RoundRobin))"
    "mq_elems m1 = {#sample_flow_item 1 20 key_a#}" "mq_elems m2 = {#sample_flow_item 2 10 key_b#}"
    using sample_two by blast
  let ?fr = "sample_registry (two_queue_band m1 m2 RoundRobin)" and ?a = "sample_flow_item 1 20 key_a" and ?b = "sample_flow_item 2 10 key_b"
  define w where "w = FinalizeWithOutcome QueueOutcomeEvictedTTL None ?a w0"
  have inv: "plane_inv w ?fr" using t(1) by (simp add: w_def)
  have F: "FinalState w ?a \<noteq> None" "FinalState w ?b = None"
    by (simp_all add: w_def FinalState_def item_final_finalize settle_def f) (simp add: sample_flow_item_def)
  note e = sample_two_elems(1) [OF t(2,3), where fp = RoundRobin] sample_two_elems(2) [OF t(2,3), where fp = RoundRobin]
  obtain w' fr' where R: "sweepFinalizedItems ''shard-0000'' (w, ?fr) = Some (w', fr')"
    "reg_elems fr' + filter_mset (\<lambda>it. FinalState w it \<noteq> None) (shard_elems (sample_shard (two_queue_band m1 m2 RoundRobin))) = reg_elems ?fr"
    using sweep_exact [OF inv sample_at] by blast
  have "reg_elems fr' = {#?b#}" using R(2) F by (simp add: e)
  then show ?thesis using F(1) R(1) e(2) by (intro exI [of _ w] exI [of _ ?fr] exI [of _ w'] exI [of _ fr']) simp
qed

theorem shutdown_settles_all_witness:
  "\<exists>w fr sp' w' fr'. shutdown sample_processor (w, fr) = Some (sp', w', fr') \<and> size (reg_elems fr) = 2 \<and> reg_elems fr' = {#} \<and>
     FinalState w' (sample_flow_item 1 20 key_a) = Some evicted_state \<and> FinalState w' (sample_flow_item 3 30 key_a) = Some rejected_state"
proof -
  obtain w m1 m2 where f: "item_final w = Map.empty"
    and t: "plane_inv w (sample_registry (two_queue_band m1 m2 RoundRobin))"
    "mq_elems m1 = {#sample_flow_item 1 20 key_a#}" "mq_elems m2 = {#sample_flow_item 2 10 key_b#}"
    using sample_two by blast
  let ?fr = "sample_registry (two_queue_band m1 m2 RoundRobin)"
  have p: "pending sample_processor = [sample_flow_item 3 30 key_a]" "sp_shard sample_processor = ''shard-0000''" "\<not> sp_isShuttingDown sample_processor"
    by (simp_all add: sample_processor_def NewShardProcessor_def map_filter_def)
  have s: "map_of (fr_shards ?fr) (sp_shard sample_processor) = Some (sample_shard (two_queue_band m1 m2 RoundRobin))"
    by (simp add: p sample_at)
  note e = sample_two_elems(1) [OF t(2,3), where fp = RoundRobin] sample_two_elems(2) [OF t(2,3), where fp = RoundRobin]
  obtain sp' w' fr' where R: "shutdown sample_processor (w, ?fr) = Some (sp', w', fr')"
    "reg_elems fr' + shard_elems (sample_shard (two_queue_band m1 m2 RoundRobin)) = reg_elems ?fr"
    "item_final w' = settle (ptrs (shard_elems (sample_shard (two_queue_band m1 m2 RoundRobin)))) evicted_state
       (settle (item_ptr ` set (pending sample_processor)) rejected_state (item_final w))"
    using shutdown_settles_all [OF t(1) s p(3)] by (elim exE conjE) (rule that)
  have "reg_elems fr' = {#}" using R(2) by (simp add: e)
  moreover have "FinalState w' (sample_flow_item 1 20 key_a) = Some evicted_state" "FinalState w' (sample_flow_item 3 30 key_a) = Some rejected_state"
    by (simp_all add: FinalState_def R(3) e p f settle_def sample_flow_item_def)
  ultimately show ?thesis using R(1) e(2) by (intro exI [of _ w] exI [of _ ?fr] exI [of _ sp'] exI [of _ w'] exI [of _ fr']) simp
qed

end
