(* ===== verification/Controller.thy ===== *)
theory Controller
  imports Processor_Sweep
begin

text \<open>
  The flow controller (src/pkg/epp/flowcontrol/controller/controller.go, config.go): the
  pool of shard processors, the distribution of a request to a shard, and the blocking call
  \<open>EnqueueAndWait\<close>.

  \<open>fc_workers\<close> holds the processors by shard id, \<open>fc_stopped\<close> those whose worker was
  removed from the map after its context was cancelled. What other goroutines do while a call
  sleeps or waits is a function on the whole state, part of the script of the call's
  attempts; \<open>None\<close> is a panic or a call that has not returned when its script ends.
\<close>

subsection \<open>Configuration\<close>

record controller_config =
  cc_DefaultRequestTTL :: duration
  cc_ExpiryCleanupInterval :: duration
  cc_ProcessorReconciliationInterval :: duration
  cc_EnqueueChannelBufferSize :: int

definition defaultExpiryCleanupInterval :: duration where
  "defaultExpiryCleanupInterval = 10 ^ 9"

definition defaultProcessorReconciliationInterval :: duration where
  "defaultProcessorReconciliationInterval = 5 * 10 ^ 9"

definition defaultEnqueueChannelBufferSize :: int where
  "defaultEnqueueChannelBufferSize = 100"

type_synonym controller_option = "controller_config \<Rightarrow> controller_config"

definition WithDefaultRequestTTL :: "duration \<Rightarrow> controller_option" where
  "WithDefaultRequestTTL d c = c\<lparr>cc_DefaultRequestTTL := d\<rparr>"

definition WithExpiryCleanupInterval :: "duration \<Rightarrow> controller_option" where
  "WithExpiryCleanupInterval d c = c\<lparr>cc_ExpiryCleanupInterval := d\<rparr>"

definition WithProcessorReconciliationInterval :: "duration \<Rightarrow> controller_option" where
  "WithProcessorReconciliationInterval d c = c\<lparr>cc_ProcessorReconciliationInterval := d\<rparr>"

definition WithEnqueueChannelBufferSize :: "int \<Rightarrow> controller_option" where
  "WithEnqueueChannelBufferSize n c = c\<lparr>cc_EnqueueChannelBufferSize := n\<rparr>"

definition controller_validate :: "controller_config \<Rightarrow> gerror option" where
  "controller_validate c =
     (if cc_DefaultRequestTTL c < 0 then Some (Errorf ''DefaultRequestTTL cannot be negative'' [])
      else if cc_ExpiryCleanupInterval c \<le> 0 then Some (Errorf ''ExpiryCleanupInterval must be positive'' [])
      else if cc_ProcessorReconciliationInterval c \<le> 0
      then Some (Errorf ''ProcessorReconciliationInterval must be positive'' [])
      else if cc_EnqueueChannelBufferSize c < 0 then Some (Errorf ''EnqueueChannelBufferSize cannot be negative'' [])
      else None)"

definition controller_NewConfig :: "controller_option list \<Rightarrow> gerror + controller_config" where
  "controller_NewConfig opts =
     (let c = fold (\<lambda>opt c. opt c) opts
                \<lparr>cc_DefaultRequestTTL = 0, cc_ExpiryCleanupInterval = defaultExpiryCleanupInterval,
                 cc_ProcessorReconciliationInterval = defaultProcessorReconciliationInterval,
                 cc_EnqueueChannelBufferSize = defaultEnqueueChannelBufferSize\<rparr>
      in case controller_validate c of Some err \<Rightarrow> Inl err | None \<Rightarrow> Inr c)"

text \<open>The argument is the TTL of the API configuration, when there is one.\<close>

definition controller_NewConfigFromAPI :: "duration option \<Rightarrow> gerror + controller_config" where
  "controller_NewConfigFromAPI apiDefaultRequestTTL =
     controller_NewConfig (case apiDefaultRequestTTL of None \<Rightarrow> [] | Some d \<Rightarrow> [WithDefaultRequestTTL d])"

subsection \<open>Workers\<close>

record flowController =
  fc_config :: controller_config
  fc_parentDone :: bool
  fc_workers :: "(string \<times> shardProcessor) list"
  fc_stopped :: "shardProcessor list"

definition NewFlowController :: "controller_config \<Rightarrow> flowController" where
  "NewFlowController config = \<lparr>fc_config = config, fc_parentDone = False, fc_workers = [], fc_stopped = []\<rparr>"

definition getOrStartWorker :: "string \<Rightarrow> flowController \<Rightarrow> flowController" where
  "getOrStartWorker sid fc =
     (case map_of (fc_workers fc) sid of
        Some worker \<Rightarrow> fc
      | None \<Rightarrow>
          fc\<lparr>fc_workers := AList.update sid
               (NewShardProcessor sid (nat (cc_EnqueueChannelBufferSize (fc_config fc))) (fc_parentDone fc))
               (fc_workers fc)\<rparr>)"

definition cancel_worker :: "shardProcessor \<Rightarrow> shardProcessor" where
  "cancel_worker sp = sp\<lparr>sp_ctxDone := True\<rparr>"

definition reconcileProcessors :: "flowRegistry \<Rightarrow> flowController \<Rightarrow> flowController" where
  "reconcileProcessors fr fc =
     (let activeShards = set (List.map_filter (map_option ss_ID) (ShardStats fr))
      in fc\<lparr>fc_workers := filter (\<lambda>(shardID, _). shardID \<in> activeShards) (fc_workers fc),
            fc_stopped := fc_stopped fc @
              map (\<lambda>(_, worker). cancel_worker worker) (filter (\<lambda>(shardID, _). shardID \<notin> activeShards) (fc_workers fc))\<rparr>)"

text \<open>The parent context is done, so every worker's context is.\<close>

definition controller_shutdown :: "flowController \<Rightarrow> flowController" where
  "controller_shutdown fc =
     fc\<lparr>fc_parentDone := True, fc_workers := map (\<lambda>(shardID, worker). (shardID, cancel_worker worker)) (fc_workers fc)\<rparr>"

datatype controller_event = ReconcileTick | ParentDone

definition controller_run_step :: "controller_event \<Rightarrow> flowRegistry \<Rightarrow> flowController \<Rightarrow> flowController" where
  "controller_run_step ev fr fc =
     (case ev of ReconcileTick \<Rightarrow> reconcileProcessors fr fc | ParentDone \<Rightarrow> controller_shutdown fc)"

subsection \<open>Request contexts\<close>

text \<open>
  A context as the controller sees it: its deadline with the cause it then reports. A context
  that ended was cancelled, with some cause, or hit its deadline.
\<close>

record req_context =
  ctx_deadline :: "gotime option"
  ctx_deadlineCause :: gerror

datatype ctx_end = CtxCanceled gerror | CtxDeadline

primrec ctx_Err :: "ctx_end \<Rightarrow> gerror" where
  "ctx_Err (CtxCanceled cause) = Sentinel ContextCanceled"
| "ctx_Err CtxDeadline = Sentinel ContextDeadlineExceeded"

definition ctx_Cause :: "req_context \<Rightarrow> ctx_end \<Rightarrow> gerror" where
  "ctx_Cause ctx e = (case e of CtxCanceled cause \<Rightarrow> cause | CtxDeadline \<Rightarrow> ctx_deadlineCause ctx)"

text \<open>\<open>context.WithDeadlineCause\<close>: an earlier deadline of the parent stays in force, with its cause.\<close>

definition WithDeadlineCause :: "req_context \<Rightarrow> gotime \<Rightarrow> gerror \<Rightarrow> req_context" where
  "WithDeadlineCause par d cause =
     (case ctx_deadline par of
        Some cur \<Rightarrow> if cur < d then par else \<lparr>ctx_deadline = Some d, ctx_deadlineCause = cause\<rparr>
      | None \<Rightarrow> \<lparr>ctx_deadline = Some d, ctx_deadlineCause = cause\<rparr>)"

definition createRequestContext :: "controller_config \<Rightarrow> req_context \<Rightarrow> flow_request \<Rightarrow> gotime \<Rightarrow> req_context \<times> gotime" where
  "createRequestContext cfg ctx req now =
     (let enqTime = now;
          ttl = (if initialEffectiveTTL req \<le> 0 then cc_DefaultRequestTTL cfg else initialEffectiveTTL req)
      in if ttl > 0
         then (WithDeadlineCause ctx (enqTime + ttl) (Sentinel ErrTTLExpired), enqTime)
         else (ctx, enqTime))"

subsection \<open>Distribution\<close>

record candidate =
  cd_shardID :: string
  cd_byteSize :: uint64

definition cmp_byteSize :: "candidate \<Rightarrow> candidate \<Rightarrow> int" where
  "cmp_byteSize a b =
     (if cd_byteSize a < cd_byteSize b then -1 else if cd_byteSize b < cd_byteSize a then 1 else 0)"

fun collect_candidates ::
  "flow_key \<Rightarrow> flowRegistry \<Rightarrow> string list \<Rightarrow> flowController \<Rightarrow> (candidate list \<times> flowController) option" where
  "collect_candidates key fr [] fc = Some ([], fc)"
| "collect_candidates key fr (sid # sids) fc =
     (case map_of (fr_shards fr) sid of
        None \<Rightarrow> None
      | Some shard \<Rightarrow>
          let fc1 = getOrStartWorker sid fc
          in (case collect_candidates key fr sids fc1 of
                None \<Rightarrow> None
              | Some (cs, fc2) \<Rightarrow>
                  (case ManagedQueue key shard of
                     Inl err \<Rightarrow> Some (cs, fc2)
                   | Inr mq \<Rightarrow> Some (\<lparr>cd_shardID = sid, cd_byteSize = mq_ByteSize mq\<rparr> # cs, fc2))))"

definition selectDistributionCandidates ::
  "flow_key \<Rightarrow> flowRegistry \<Rightarrow> flowController \<Rightarrow> ((gerror + candidate list) \<times> flowController) option" where
  "selectDistributionCandidates key fr fc =
     (let shards = ActiveShards fr; noShards = Errorf ''no viable active shards available for flow'' [Sentinel ErrNoShards]
      in if shards = [] then Some (Inl noShards, fc)
         else case collect_candidates key fr shards fc of
           None \<Rightarrow> None
         | Some (candidates, fc1) \<Rightarrow>
             if candidates = [] then Some (Inl noShards, fc1)
             else Some (Inr (SortFunc cmp_byteSize candidates), fc1))"

text \<open>
  The script of one attempt: which processors wait at their \<open>select\<close>, which ready case a
  submission takes, how a blocking submission ends, what the other goroutines do until the
  call goes on, and how the wait ends: the context, or the item's channel.
\<close>

type_synonym system = "world \<times> flowRegistry \<times> flowController"

datatype submit_end = Room | ContextEnds ctx_end | ProcessorStops

record attempt =
  at_before :: "system \<Rightarrow> system"
  at_waiting :: "string \<Rightarrow> bool"
  at_choice :: "string \<Rightarrow> bool"
  at_block :: submit_end
  at_meanwhile :: "system \<Rightarrow> system"
  at_end :: "ctx_end option"

primrec blocked_by :: "submit_end \<Rightarrow> block_end" where
  "blocked_by Room = SendReady"
| "blocked_by (ContextEnds e) = CallerDone (ctx_Err e)"
| "blocked_by ProcessorStops = ProcessorDone"

definition on_worker ::
  "(shardProcessor \<Rightarrow> gerror option \<times> shardProcessor) \<Rightarrow> string \<Rightarrow> flowController \<Rightarrow> (gerror option \<times> flowController) option" where
  "on_worker f sid fc =
     (case map_of (fc_workers fc) sid of
        None \<Rightarrow> None
      | Some sp \<Rightarrow> (case f sp of (err, sp1) \<Rightarrow> Some (err, fc\<lparr>fc_workers := AList.update sid sp1 (fc_workers fc)\<rparr>)))"

fun submit_first ::
  "attempt \<Rightarrow> queue_item \<Rightarrow> candidate list \<Rightarrow> flowController \<Rightarrow> (bool \<times> flowController) option" where
  "submit_first a it [] fc = Some (False, fc)"
| "submit_first a it (c # cs) fc =
     (case on_worker (Submit (at_waiting a (cd_shardID c)) (at_choice a (cd_shardID c)) (Some it)) (cd_shardID c) fc of
        None \<Rightarrow> None
      | Some (None, fc1) \<Rightarrow> Some (True, fc1)
      | Some (Some err, fc1) \<Rightarrow> submit_first a it cs fc1)"

definition distributeRequest ::
  "attempt \<Rightarrow> queue_item \<Rightarrow> candidate list \<Rightarrow> flowController \<Rightarrow> (queue_outcome \<times> gerror option \<times> flowController) option" where
  "distributeRequest a it candidates fc =
     (case submit_first a it candidates fc of
        None \<Rightarrow> None
      | Some (True, fc1) \<Rightarrow> Some (QueueOutcomeNotYetFinalized, None, fc1)
      | Some (False, fc1) \<Rightarrow>
          (case candidates of
             [] \<Rightarrow> None
           | bestCandidate # _ \<Rightarrow>
               (case on_worker (SubmitOrBlock (blocked_by (at_block a)) (Some it)) (cd_shardID bestCandidate) fc1 of
                  None \<Rightarrow> None
                | Some (Some err, fc2) \<Rightarrow>
                    Some (QueueOutcomeRejectedOther,
                      Some (Errorf ''request not accepted'' [Sentinel ErrRejected, err]), fc2)
                | Some (None, fc2) \<Rightarrow> Some (QueueOutcomeNotYetFinalized, None, fc2))))"

definition block_cause :: "req_context \<Rightarrow> submit_end \<Rightarrow> gerror" where
  "block_cause ctx b = (case b of ContextEnds e \<Rightarrow> ctx_Cause ctx e | _ \<Rightarrow> Sentinel ContextCanceled)"

text \<open>A fresh item at the next free address.\<close>

definition alloc_item :: "flow_request \<Rightarrow> duration \<Rightarrow> gotime \<Rightarrow> world \<Rightarrow> queue_item \<times> world" where
  "alloc_item req ttl t w = (NewItem req ttl t (next_addr w), w\<lparr>next_addr := Suc (next_addr w)\<rparr>)"

definition tryDistribution ::
  "attempt \<Rightarrow> req_context \<Rightarrow> flow_request \<Rightarrow> gotime \<Rightarrow> flow_key \<Rightarrow> system \<Rightarrow>
   ((queue_item \<times> gerror option) \<times> system) option" where
  "tryDistribution a reqCtx req enqTime key = (\<lambda>(w, fr, fc).
     let ttl = (case ctx_deadline reqCtx of
             Some deadline \<Rightarrow> if deadline - enqTime > 0 then deadline - enqTime
                             else cc_DefaultRequestTTL (fc_config fc)
           | None \<Rightarrow> cc_DefaultRequestTTL (fc_config fc))
     in case alloc_item req ttl enqTime w of
          (it, w1) \<Rightarrow>
            (case selectDistributionCandidates key fr fc of
               None \<Rightarrow> None
             | Some (Inl err, fc1) \<Rightarrow>
                 let outcome = (if errors_Is err ErrNoShards then QueueOutcomeRejectedCapacity else QueueOutcomeRejectedOther);
                     finalErr = Errorf ''request not accepted'' [Sentinel ErrRejected, err]
                 in Some ((it, Some finalErr), FinalizeWithOutcome outcome (Some finalErr) it w1, fr, fc1)
             | Some (Inr candidates, fc1) \<Rightarrow>
                 (case distributeRequest a it candidates fc1 of
                    None \<Rightarrow> None
                  | Some (outcome, None, fc2) \<Rightarrow> Some ((it, None), w1, fr, fc2)
                  | Some (outcome, Some err, fc2) \<Rightarrow>
                      if errors_Is err ContextCanceled \<or> errors_Is err ContextDeadlineExceeded
                      then Some ((it, Some err), Finalize (block_cause reqCtx (at_block a)) it w1, fr, fc2)
                      else let finalErr = Errorf ''request not accepted'' [Sentinel ErrRejected, err]
                           in Some ((it, Some finalErr), FinalizeWithOutcome outcome (Some finalErr) it w1, fr, fc2))))"

subsection \<open>Waiting\<close>

definition awaitFinalization ::
  "attempt \<Rightarrow> req_context \<Rightarrow> queue_item \<Rightarrow> world \<Rightarrow> ((queue_outcome \<times> gerror option) \<times> world) option" where
  "awaitFinalization a reqCtx it w =
     (case at_end a of
        Some e \<Rightarrow>
          let w1 = Finalize (ctx_Cause reqCtx e) it w
          in map_option (\<lambda>finalState. ((Outcome finalState, Err finalState), w1)) (FinalState w1 it)
      | None \<Rightarrow>
          (case item_done w (item_ptr it) of
             [] \<Rightarrow> None
           | finalState # _ \<Rightarrow> Some ((Outcome finalState, Err finalState), w)))"

fun distribution_loop ::
  "attempt list \<Rightarrow> req_context \<Rightarrow> flow_request \<Rightarrow> gotime \<Rightarrow> flow_key \<Rightarrow> system \<Rightarrow>
   ((queue_outcome \<times> gerror option) \<times> system) option" where
  "distribution_loop [] reqCtx req enqTime key st = None"
| "distribution_loop (a # as) reqCtx req enqTime key st0 =
     (case at_before a st0 of
        (w, fr, fc) \<Rightarrow>
          if fc_parentDone fc
          then Some ((QueueOutcomeRejectedOther,
                  Some (Errorf ''rejected'' [Sentinel ErrRejected, Sentinel ErrFlowControllerNotRunning])), w, fr, fc)
          else (case tryDistribution a reqCtx req enqTime key (w, fr, fc) of
                  None \<Rightarrow> None
                | Some ((it, Some err), w1, fr1, fc1) \<Rightarrow>
                    map_option (\<lambda>finalState. ((Outcome finalState, Err finalState), w1, fr1, fc1)) (FinalState w1 it)
                | Some ((it, None), st1) \<Rightarrow>
                    (case at_meanwhile a st1 of
                       (w2, fr2, fc2) \<Rightarrow>
                         (case awaitFinalization a reqCtx it w2 of
                            None \<Rightarrow> None
                          | Some ((outcome, err), w3) \<Rightarrow>
                              if (case err of None \<Rightarrow> False | Some e \<Rightarrow> errors_Is e ErrShardDraining)
                              then distribution_loop as reqCtx req enqTime key (w3, fr2, fc2)
                              else Some ((outcome, err), w3, fr2, fc2)))))"

definition EnqueueAndWait ::
  "attempt list \<Rightarrow> req_context \<Rightarrow> flow_request \<Rightarrow> system \<Rightarrow> ((queue_outcome \<times> gerror option) \<times> system) option" where
  "EnqueueAndWait attempts ctx req = (\<lambda>(w, fr, fc).
     let flowKey = req_flowKey req;
         (reqCtx, enqTime) = createRequestContext (fc_config fc) ctx req (fr_now fr)
     in case WithConnection flowKey
               (\<lambda>conn (w1, fr1, fc1, _).
                  map_option (\<lambda>((outcome, err), w2, fr2, fc2). (err, w2, fr2, fc2, outcome))
                    (distribution_loop attempts reqCtx req enqTime (connection_FlowKey conn) (w1, fr1, fc1)))
               (w, fr, fc, QueueOutcomeNotYetFinalized) of
          None \<Rightarrow> None
        | Some (Some err, w', fr', fc', finalOutcome) \<Rightarrow>
            if finalOutcome = QueueOutcomeNotYetFinalized
            then Some ((QueueOutcomeRejectedOther, Some (Errorf ''rejected'' [Sentinel ErrRejected, err])), w', fr', fc')
            else Some ((finalOutcome, Some err), w', fr', fc')
        | Some (None, w', fr', fc', finalOutcome) \<Rightarrow> Some ((finalOutcome, None), w', fr', fc'))"

end
