(* ===== verification/Controller_Props.thy ===== *)
theory Controller_Props
  imports Controller
begin

text \<open>
  Correctness of the flow controller: every call ends with a terminal outcome whose error
  says what happened, a call returns when its context ends, requests join the shortest queue
  of their flow, and the pool of workers follows the registry.
\<close>

subsection \<open>Outcomes\<close>

text \<open>Every final state is a pair of outcome and error that a caller may see.\<close>

definition finals_good :: "world \<Rightarrow> bool" where
  "finals_good w \<longleftrightarrow> finals_ok w \<and> (\<forall>p st. item_final w p = Some st \<longrightarrow> outcome_ok (Outcome st) (Err st))"

lemma finals_good_init: "finals_good init_world"
  by (simp add: finals_good_def finals_ok_init) (simp add: init_world_def)

lemma finals_good_FinalizeWithOutcome:
  assumes "finals_good w" "outcome_ok oc err"
  shows "finals_good (FinalizeWithOutcome oc err it w)"
proof -
  have "outcome_ok (Outcome st) (Err st)" if "item_final (FinalizeWithOutcome oc err it w) p = Some st" for p st
    using that assms by (auto simp: item_final_finalize settle_def finals_good_def split: if_splits)
  then show ?thesis using assms(1) FinalizeWithOutcome_ok(1) by (simp add: finals_good_def)
qed

lemma inferOutcome_ok: "outcome_ok (fst (inferOutcome cause q)) (Some (snd (inferOutcome cause q)))"
  by (simp add: inferOutcome_def)

lemma Finalize_eq:
  "Finalize cause it w =
     FinalizeWithOutcome (fst (inferOutcome cause (Handle w it \<noteq> None))) (Some (snd (inferOutcome cause (Handle w it \<noteq> None)))) it w"
  by (simp add: Finalize_def FinalizeWithOutcome_def onceFinalize_def split: prod.split)

lemma finals_good_Finalize: "finals_good w \<Longrightarrow> finals_good (Finalize cause it w)"
  unfolding Finalize_eq by (rule finals_good_FinalizeWithOutcome [OF _ inferOutcome_ok])

lemma FinalState_Finalize: "FinalState (Finalize cause it w) it \<noteq> None"
  unfolding Finalize_eq by (simp add: FinalState_FinalizeWithOutcome split: option.split)

lemma FinalState_good: "finals_good w \<Longrightarrow> FinalState w it = Some st \<Longrightarrow> outcome_ok (Outcome st) (Err st)"
  by (simp add: finals_good_def FinalState_def)

lemma awaitFinalization_good:
  assumes "finals_good w" "awaitFinalization a ctx it w = Some ((oc, err), w')"
  shows "outcome_ok oc err \<and> finals_good w'"
proof (cases "at_end a")
  case None
  then obtain st rest where "item_done w (item_ptr it) = st # rest" "oc = Outcome st" "err = Err st" "w' = w"
    using assms(2) by (auto simp: awaitFinalization_def split: list.splits)
  moreover have "item_final w (item_ptr it) = Some st"
    using assms(1) calculation(1) by (auto simp: finals_good_def finals_ok_def split: option.splits)
  ultimately show ?thesis using assms(1) by (simp add: finals_good_def)
next
  case (Some e)
  let ?w = "Finalize (ctx_Cause ctx e) it w"
  obtain st where "FinalState ?w it = Some st" "oc = Outcome st" "err = Err st" "w' = ?w"
    using assms(2) Some by (auto simp: awaitFinalization_def Let_def)
  then show ?thesis using finals_good_Finalize [OF assms(1)] FinalState_good by blast
qed

lemma distributeRequest_outcome:
  "distributeRequest a it cs fc = Some (oc, Some err, fc') \<Longrightarrow> oc = QueueOutcomeRejectedOther \<and> errors_Is err ErrRejected"
  by (auto simp: distributeRequest_def split: option.splits prod.splits list.splits bool.splits)

lemma tryDistribution_result:
  assumes "tryDistribution a ctx req t key (w, fr, fc) = Some ((it, err), w', fr', fc')"
  shows "fr' = fr \<and>
    (err = None \<longrightarrow> w' = w\<lparr>next_addr := Suc (next_addr w)\<rparr>) \<and>
    (err \<noteq> None \<longrightarrow> (\<exists>oc e. outcome_ok oc (Some e) \<and> w' = FinalizeWithOutcome oc (Some e) it (w\<lparr>next_addr := Suc (next_addr w)\<rparr>)))"
proof -
  let ?w = "w\<lparr>next_addr := Suc (next_addr w)\<rparr>"
  obtain r fc1 where S: "selectDistributionCandidates key fr fc = Some (r, fc1)"
    using assms by (cases "selectDistributionCandidates key fr fc") (auto simp: tryDistribution_def alloc_item_def Let_def)
  show ?thesis
  proof (cases r)
    case (Inl e)
    let ?oc = "if errors_Is e ErrNoShards then QueueOutcomeRejectedCapacity else QueueOutcomeRejectedOther"
      and ?e = "Errorf ''request not accepted'' [Sentinel ErrRejected, e]"
    have "outcome_ok ?oc (Some ?e)" by simp
    moreover have "w' = FinalizeWithOutcome ?oc (Some ?e) it ?w" "fr' = fr" "err \<noteq> None"
      using assms S Inl by (simp_all add: tryDistribution_def alloc_item_def Let_def) auto
    ultimately show ?thesis by blast
  next
    case (Inr cs)
    then obtain oc e fc2 where D: "distributeRequest a (NewItem req (case ctx_deadline ctx of
             Some deadline \<Rightarrow> if deadline - t > 0 then deadline - t else cc_DefaultRequestTTL (fc_config fc)
           | None \<Rightarrow> cc_DefaultRequestTTL (fc_config fc)) t (next_addr w)) cs fc1 = Some (oc, e, fc2)"
      (is "distributeRequest a ?it cs fc1 = _")
      using assms S by (auto simp: tryDistribution_def alloc_item_def Let_def split: option.splits)
    show ?thesis
    proof (cases e)
      case None
      then show ?thesis using assms S Inr D by (simp add: tryDistribution_def alloc_item_def Let_def)
    next
      case (Some x)
      have R: "oc = QueueOutcomeRejectedOther" using distributeRequest_outcome [of a ?it cs fc1 oc x fc2] D Some by blast
      show ?thesis
      proof (cases "errors_Is x ContextCanceled \<or> errors_Is x ContextDeadlineExceeded")
        case True
        then have "w' = Finalize (block_cause ctx (at_block a)) it ?w" "fr' = fr" "err \<noteq> None"
          using assms S Inr D Some by (simp_all add: tryDistribution_def alloc_item_def Let_def) auto
        then show ?thesis unfolding Finalize_eq using inferOutcome_ok by blast
      next
        case False
        let ?e = "Errorf ''request not accepted'' [Sentinel ErrRejected, x]"
        have "w' = FinalizeWithOutcome oc (Some ?e) it ?w" "fr' = fr" "err \<noteq> None"
          using assms S Inr D Some False by (simp_all add: tryDistribution_def alloc_item_def Let_def) auto
        moreover have "outcome_ok oc (Some ?e)" using R by simp
        ultimately show ?thesis by blast
      qed
    qed
  qed
qed

lemma tryDistribution_good:
  assumes "finals_good w" "tryDistribution a ctx req t key (w, fr, fc) = Some ((it, err), w', fr', fc')"
  shows "finals_good w'"
proof -
  have "finals_good (w\<lparr>next_addr := Suc (next_addr w)\<rparr>)" using assms(1) by (simp add: finals_good_def finals_ok_def)
  then show ?thesis using tryDistribution_result [OF assms(2)] finals_good_FinalizeWithOutcome by (cases err) auto
qed

lemma tryDistribution_final:
  "tryDistribution a ctx req t key (w, fr, fc) = Some ((it, Some e), w', fr', fc') \<Longrightarrow> FinalState w' it \<noteq> None"
  by (drule tryDistribution_result) (auto simp: FinalState_FinalizeWithOutcome split: option.splits)

text \<open>What the other goroutines do keeps the final states good.\<close>

definition fair_env :: "attempt \<Rightarrow> bool" where
  "fair_env a \<longleftrightarrow> (\<forall>st. finals_good (fst st) \<longrightarrow> finals_good (fst (at_before a st)) \<and> finals_good (fst (at_meanwhile a st)))"

lemma distribution_loop_good:
  "finals_good (fst st) \<Longrightarrow> (\<And>a. a \<in> set as \<Longrightarrow> fair_env a) \<Longrightarrow>
     distribution_loop as ctx req t key st = Some ((oc, err), st') \<Longrightarrow> outcome_ok oc err \<and> finals_good (fst st')"
proof (induction as arbitrary: st)
  case (Cons a as)
  obtain w fr fc where b: "at_before a st = (w, fr, fc)" by (metis prod_cases3)
  have env: "fair_env a" by (rule Cons.prems(2)) simp
  have w: "finals_good w" using env [unfolded fair_env_def, rule_format, OF Cons.prems(1)] b by simp
  show ?case
  proof (cases "fc_parentDone fc")
    case True
    then have "oc = QueueOutcomeRejectedOther" "st' = (w, fr, fc)"
      "err = Some (Errorf ''rejected'' [Sentinel ErrRejected, Sentinel ErrFlowControllerNotRunning])"
      using Cons.prems(3) b by simp_all
    then show ?thesis using w by simp
  next
    case False
    then obtain it e w1 fr1 fc1 where T: "tryDistribution a ctx req t key (w, fr, fc) = Some ((it, e), w1, fr1, fc1)"
      using Cons.prems(3) b by (cases "tryDistribution a ctx req t key (w, fr, fc)") auto
    have w1: "finals_good w1" by (rule tryDistribution_good [OF w T])
    show ?thesis
    proof (cases e)
      case (Some x)
      then show ?thesis using Cons.prems(3) b False T w1 FinalState_good by auto
    next
      case None
      obtain w2 fr2 fc2 where m: "at_meanwhile a (w1, fr1, fc1) = (w2, fr2, fc2)" by (metis prod_cases3)
      have w2: "finals_good w2" using env [unfolded fair_env_def, rule_format, of "(w1, fr1, fc1)"] w1 m by simp
      obtain oc1 err1 w3 where A: "awaitFinalization a ctx it w2 = Some ((oc1, err1), w3)"
        using Cons.prems(3) b False T None m by (cases "awaitFinalization a ctx it w2") auto
      note G = awaitFinalization_good [OF w2 A]
      have r: "distribution_loop (a # as) ctx req t key st =
          (if (case err1 of None \<Rightarrow> False | Some e \<Rightarrow> errors_Is e ErrShardDraining)
           then distribution_loop as ctx req t key (w3, fr2, fc2) else Some ((oc1, err1), w3, fr2, fc2))"
        using b False T None m A by simp
      show ?thesis
      proof (cases "case err1 of None \<Rightarrow> False | Some e \<Rightarrow> errors_Is e ErrShardDraining")
        case True
        then show ?thesis using Cons.IH [of "(w3, fr2, fc2)"] Cons.prems(2,3) G unfolding r by auto
      next
        case F: False
        then show ?thesis using Cons.prems(3) G unfolding r by auto
      qed
    qed
  qed
qed simp

text \<open>Provisioning does not touch the final states.\<close>

definition same_finals :: "world \<Rightarrow> world \<Rightarrow> bool" where
  "same_finals w w' \<longleftrightarrow> item_final w' = item_final w \<and> item_done w' = item_done w"

lemma same_finals_refl [simp]: "same_finals w w"
  by (simp add: same_finals_def)

lemma NewQueueFromName_finals: "NewQueueFromName RegisteredQueues qname p w = (r, w') \<Longrightarrow> same_finals w w'"
  by (auto simp: same_finals_def NewQueueFromName_def RegisteredQueues_def MustRegisterQueue_def
      maxMinHeap_constructor_def listQueue_constructor_def Let_def split: option.splits if_splits)

lemma build_queues_finals: "build_queues qname p n w = (r, w') \<Longrightarrow> same_finals w w'"
proof (induction n arbitrary: w r w')
  case (Suc n)
  obtain x w1 where 1: "NewQueueFromName RegisteredQueues qname p w = (x, w1)" by (metis surj_pair)
  obtain y w2 where 2: "build_queues qname p n w1 = (y, w2)" by (metis surj_pair)
  have "w' = w1 \<or> w' = w2" using Suc.prems 1 2 by (auto split: sum.splits)
  then show ?case using NewQueueFromName_finals [OF 1] Suc.IH [OF 2] by (auto simp: same_finals_def)
qed simp

lemma initialize_once_finals:
  "initialize_once key a (w, fr) = Some (ie, w', fr') \<Longrightarrow> same_finals w w'"
  by (auto simp: initialize_once_def ensureFlowInfrastructure_def buildFlowComponents_def
      split: option.splits prod.splits sum.splits if_splits dest: build_queues_finals)

lemma WithConnection_result:
  assumes "WithConnection key fn (w, fr, e) = Some (err, w', fr', e')"
  shows "(err \<noteq> None \<and> e' = e \<and> same_finals w w') \<or>
    (\<exists>w2 fr2 fr3. same_finals w w2 \<and> fn \<lparr>conn_key = key\<rparr> (w2, fr2, e) = Some (err, w', fr3, e'))"
proof (cases "ID key = []")
  case True
  then show ?thesis using assms by (auto simp: WithConnection_def)
next
  case False
  then obtain a new fr1 where A: "acquire key fr = Some ((a, new), fr1)"
    using assms by (auto simp: WithConnection_def split: option.splits)
  then obtain ie w2 fr2 where I: "initialize_once key a (w, fr1) = Some (ie, w2, fr2)"
    using assms False by (auto simp: WithConnection_def Let_def split: option.splits)
  note f = initialize_once_finals [OF I]
  show ?thesis
  proof (cases ie)
    case None
    then show ?thesis using assms False A I f by (auto simp: WithConnection_def Let_def split: option.splits)
  next
    case (Some x)
    then show ?thesis using assms False A I f by (auto simp: WithConnection_def Let_def)
  qed
qed

lemma same_finals_good: "same_finals w w' \<Longrightarrow> finals_good w' = finals_good w"
  by (simp add: same_finals_def finals_good_def finals_ok_def)


subsection \<open>The processor finalizes only with good outcomes\<close>

lemma same_finals_trans: "same_finals w w1 \<Longrightarrow> same_finals w1 w2 \<Longrightarrow> same_finals w w2"
  by (simp add: same_finals_def)

lemma same_finals_invalidate [simp]: "same_finals w (invalidate_item it w)" "same_finals w (Invalidate hn w)"
  by (simp_all add: same_finals_def invalidate_item_def Invalidate_def split: option.split)

lemma same_finals_fold_invalidate [simp]: "same_finals w (fold invalidate_item its w)"
  by (simp add: same_finals_def)

lemma same_finals_SetHandle [simp]: "same_finals w (SetHandle it hn (w\<lparr>next_addr := n\<rparr>))"
  by (simp add: same_finals_def SetHandle_def)

lemma cleanup_scan_finals: "same_finals w (fst (snd (snd (cleanup_scan P its (w, h)))))"
proof (induction its arbitrary: w h)
  case (Cons it its)
  have "same_finals w (fst (snd (snd (cleanup_scan P its (invalidate_item it w, h')))))" for h'
    by (rule same_finals_trans [OF _ Cons.IH]) simp
  then show ?case using Cons.IH [of w h] by (simp add: Let_def case_prod_unfold)
qed simp

lemma list_cleanup_finals: "same_finals w (fst (snd (list_cleanup_loop P es (w, q))))"
proof (induction es arbitrary: w q)
  case (Cons e es)
  obtain n it where e: "e = (n, it)" by (cases e)
  have "same_finals w (fst (snd (list_cleanup_loop P es (invalidate_item it w, q'))))" for q'
    by (rule same_finals_trans [OF _ Cons.IH]) simp
  then show ?case using Cons.IH [of w q] by (simp add: e Let_def case_prod_unfold)
qed simp

lemma sq_finals:
  "same_finals w (fst (sq_Add it (w, q)))" "same_finals w (fst (snd (sq_Remove hn (w, q))))"
  "same_finals w (fst (snd (sq_Cleanup P (w, q))))" "same_finals w (fst (snd (sq_Drain (w, q))))"
proof -
  show "same_finals w (fst (sq_Add it (w, q)))"
    by (cases q) (simp_all add: sq_Add_def heap_Add_def push_def list_Add_def Let_def)
  show "same_finals w (fst (snd (sq_Remove hn (w, q))))"
    by (cases q) (simp_all add: sq_Remove_def heap_Remove_def list_Remove_def Let_def split: option.split queue_handle.split)
  show "same_finals w (fst (snd (sq_Cleanup P (w, q))))"
  proof (cases q)
    case (HeapQ h)
    then show ?thesis using cleanup_scan_finals [of w P "heap_items h" h]
      by (auto simp: sq_Cleanup_def heap_Cleanup_def split: prod.splits if_splits)
  next
    case (ListQ l)
    then show ?thesis using list_cleanup_finals [of w P "lq_requests l" l] by (simp add: sq_Cleanup_def list_Cleanup_def)
  qed
  show "same_finals w (fst (snd (sq_Drain (w, q))))"
    by (cases q) (simp_all add: sq_Drain_def heap_Drain_def list_Drain_def)
qed

lemma registry_finals:
  "registry_Add sid key mq it (w, fr) = Some (r, w', fr') \<Longrightarrow> same_finals w w'"
  "registry_Remove sid key mq hn (w, fr) = Some (r1, w', fr') \<Longrightarrow> same_finals w w'"
  "registry_Cleanup sid key mq P (w, fr) = Some (r2, w', fr') \<Longrightarrow> same_finals w w'"
  "registry_Drain sid key mq (w, fr) = Some (r2, w', fr') \<Longrightarrow> same_finals w w'"
proof -
  show "registry_Add sid key mq it (w, fr) = Some (r, w', fr') \<Longrightarrow> same_finals w w'"
    using sq_finals(1) [of w it "mq_queue mq"]
    by (auto simp: registry_Add_def via_shard_def shard_Add_def on_queue_def mq_Add_def split: option.splits prod.splits if_splits)
  show "registry_Remove sid key mq hn (w, fr) = Some (r1, w', fr') \<Longrightarrow> same_finals w w'"
    using sq_finals(2) [of w hn "mq_queue mq"]
    by (auto simp: registry_Remove_def via_shard_def shard_Remove_def on_queue_def mq_Remove_def
        split: option.splits prod.splits if_splits sum.splits)
  show "registry_Cleanup sid key mq P (w, fr) = Some (r2, w', fr') \<Longrightarrow> same_finals w w'"
    using sq_finals(3) [of w P "mq_queue mq"]
    by (auto simp: registry_Cleanup_def via_shard_def shard_Cleanup_def on_queue_def mq_Cleanup_def Let_def
        split: option.splits prod.splits if_splits)
  show "registry_Drain sid key mq (w, fr) = Some (r2, w', fr') \<Longrightarrow> same_finals w w'"
    using sq_finals(4) [of w "mq_queue mq"]
    by (auto simp: registry_Drain_def via_shard_def shard_Drain_def on_queue_def mq_Drain_def Let_def
        split: option.splits prod.splits if_splits)
qed

lemma enqueue_good:
  assumes "enqueue sid it (w, fr) = Some (w', fr')" "finals_good w"
  shows "finals_good w'"
proof -
  have ok: "finals_good (FinalizeWithOutcome QueueOutcomeRejectedOther (Some (rejected e)) it w1)"
    "finals_good (FinalizeWithOutcome QueueOutcomeRejectedCapacity (Some (rejected e)) it w1)" if "finals_good w1" for e w1
    using that by (auto intro!: finals_good_FinalizeWithOutcome simp: rejected_def)
  have add: "finals_good w1" if "registry_Add sid key mq it (w, fr) = Some (r, w1, fr1)" for key mq r w1 fr1
    using registry_finals(1) [OF that] same_finals_good assms(2) by blast
  show ?thesis
    using assms(1) ok(1) [OF add] ok [OF assms(2)] add assms(2)
    by (auto simp: enqueue_def Let_def split: option.splits sum.splits if_splits)
qed

lemma dispatchItem_good:
  assumes "dispatchItem sid it (w, fr) = Some (r, w', fr')" "finals_good w"
  shows "finals_good w'"
proof -
  have rem: "finals_good w1" if "registry_Remove sid key mq hn (w, fr) = Some (r, w1, fr1)" for key mq hn r w1 fr1
    using registry_finals(2) [OF that] same_finals_good assms(2) by blast
  have "finals_good (FinalizeWithOutcome QueueOutcomeDispatched None x w1)" if "finals_good w1" for x w1
    using that by (intro finals_good_FinalizeWithOutcome) simp_all
  then show ?thesis
    using assms rem by (auto simp: dispatchItem_def split: option.splits sum.splits)
qed

lemma dispatch_bands_good:
  "dispatch_bands sat sid ps cs (w, fr) = Some (b, w', fr') \<Longrightarrow> finals_good w \<Longrightarrow> finals_good w'"
proof (induction ps arbitrary: cs w fr)
  case (Cons p ps)
  show ?case
  proof (cases cs)
    case (Cons c cs')
    show ?thesis
      using Cons.prems Cons.IH dispatchItem_good unfolding Cons
      by (auto simp: Let_def split: if_splits option.splits sum.splits prod.splits)
  qed (use Cons.prems in simp)
qed simp

definition pf_good :: "process_fn \<Rightarrow> bool" where
  "pf_good pf \<longleftrightarrow> (\<forall>key mq w fr w' fr'. pf key mq (w, fr) = Some (w', fr') \<longrightarrow> finals_good w \<longrightarrow> finals_good w')"

lemma process_queues_good:
  assumes "pf_good pf"
  shows "process_queues pf sid keys (w, fr) = Some (w', fr') \<Longrightarrow> finals_good w \<Longrightarrow> finals_good w'"
proof (induction keys arbitrary: w fr)
  case (Cons key keys)
  have pf: "pf k mq (v, r) = Some (v', r') \<Longrightarrow> finals_good v \<Longrightarrow> finals_good v'" for k mq v r v' r'
    using assms unfolding pf_good_def by blast
  show ?case using Cons pf by (auto split: option.splits sum.splits)
qed simp

lemma processAllQueues_good:
  assumes pf: "pf_good pf"
    and run: "processAllQueues pf sid (w, fr) = Some (w', fr')" and w: "finals_good w"
  shows "finals_good w'"
proof -
  obtain s where "process_queues pf sid (queuesToProcess s) (w, fr) = Some (w', fr')"
    using run by (auto simp: processAllQueues_def split: option.splits)
  from process_queues_good [OF pf this w] show ?thesis .
qed

lemma fold_finalize_good:
  "outcome_ok oc err \<Longrightarrow> finals_good w \<Longrightarrow> finals_good (fold (FinalizeWithOutcome oc err) its w)"
  by (induction its arbitrary: w) (simp_all add: finals_good_FinalizeWithOutcome)

lemma sweep_queue_good: "pf_good (sweep_queue sid)"
  unfolding pf_good_def
proof (intro allI impI)
  fix key mq w fr w' fr'
  assume assms: "sweep_queue sid key mq (w, fr) = Some (w', fr')" "finals_good w"
  obtain rs where "registry_Cleanup sid key mq (\<lambda>it. FinalState w it \<noteq> None) (w, fr) = Some (rs, w', fr')"
    using assms(1) by (auto simp: sweep_queue_def)
  from registry_finals(3) [OF this] show "finals_good w'" using same_finals_good assms(2) by blast
qed

lemma evict_queue_good: "pf_good (evict_queue sid)"
  unfolding pf_good_def
proof (intro allI impI)
  fix key mq w fr w' fr'
  assume assms: "evict_queue sid key mq (w, fr) = Some (w', fr')" "finals_good w"
  obtain rs w1 where D: "registry_Drain sid key mq (w, fr) = Some (rs, w1, fr')"
    and w': "w' = fold (FinalizeWithOutcome QueueOutcomeEvictedOther (Some errShutdown)) rs w1"
    using assms(1) by (auto simp: evict_queue_def split: option.splits)
  have "finals_good w1" using registry_finals(4) [OF D] same_finals_good assms(2) by blast
  then show "finals_good w'" unfolding w' by (intro fold_finalize_good) (simp_all add: errShutdown_def)
qed

lemma shutdown_good:
  assumes "shutdown sp (w, fr) = Some (sp', w', fr')" "finals_good w"
  shows "finals_good w'"
proof (cases "sp_isShuttingDown sp")
  case False
  let ?w1 = "fold (FinalizeWithOutcome QueueOutcomeRejectedOther (Some (rejected (Sentinel ErrFlowControllerNotRunning)))) (pending sp) w"
  have "finals_good ?w1" using assms(2) by (intro fold_finalize_good) (simp_all add: rejected_def)
  moreover have "evictAll (sp_shard sp) (?w1, fr) = Some (w', fr')"
    using assms(1) False by (auto simp: shutdown_def Let_def drain_channel pending_def)
  ultimately show ?thesis unfolding evictAll_def using processAllQueues_good [OF evict_queue_good] by blast
qed (use assms in \<open>simp add: shutdown_def\<close>)

text \<open>
  Everything the processor does finalizes items only with pairs of outcome and error
  that a caller may see: this is what the controller relies on when it waits.
\<close>

lemma run_step_good:
  assumes "run_step ComputeLimit ev (sp, w, fr) = Some (sp', w', fr')" "finals_good w"
  shows "finals_good w'"
proof -
  have cycle: "finals_good w2" if "dispatchCycle ComputeLimit sat sid (w1, fr1) = Some (b, w2, fr2)" "finals_good w1" for sat sid w1 fr1 b w2 fr2
    using that dispatch_bands_good by (auto simp: dispatchCycle_def Let_def split: option.splits)
  show ?thesis
  proof (cases ev)
    case (Arrival sat)
    then consider "w' = w" | it w1 fr1 b where "enqueue (sp_shard sp) it (w, fr) = Some (w1, fr1)"
        "dispatchCycle ComputeLimit sat (sp_shard sp) (w1, fr1) = Some (b, w', fr')"
      using assms(1) by (auto simp: run_step_def split: list.splits option.splits)
    then show ?thesis
    proof cases
      case 2
      then show ?thesis using enqueue_good [OF 2(1) assms(2)] cycle by blast
    qed (simp add: assms(2))
  next
    case (DispatchTick sat)
    then show ?thesis using assms cycle by (auto simp: run_step_def)
  next
    case SweepTick
    then have "sweepFinalizedItems (sp_shard sp) (w, fr) = Some (w', fr')" using assms(1) by (simp add: run_step_def) auto
    then show ?thesis unfolding sweepFinalizedItems_def using processAllQueues_good [OF sweep_queue_good] assms(2) by blast
  next
    case ContextDone
    then show ?thesis using assms shutdown_good by (auto simp: run_step_def)
  qed
qed

text \<open>A processor at work while a call waits.\<close>

definition serve :: "string \<Rightarrow> run_event \<Rightarrow> system \<Rightarrow> system" where
  "serve sid ev = (\<lambda>(w, fr, fc).
     case map_of (fc_workers fc) sid of
       None \<Rightarrow> (w, fr, fc)
     | Some sp \<Rightarrow>
         (case run_step DefaultPolicy ev (sp, w, fr) of
            None \<Rightarrow> (w, fr, fc)
          | Some (sp1, w1, fr1) \<Rightarrow> (w1, fr1, fc\<lparr>fc_workers := AList.update sid sp1 (fc_workers fc)\<rparr>)))"

lemma serve_good: "finals_good (fst st) \<Longrightarrow> finals_good (fst (serve sid ev st))"
  using run_step_good by (cases st) (auto simp: serve_def split: option.splits prod.splits)

definition served_attempt :: attempt where
  "served_attempt = \<lparr>at_before = (\<lambda>st. st), at_waiting = (\<lambda>_. True), at_choice = (\<lambda>_. True), at_block = Room,
     at_meanwhile = serve ''shard-0000'' (Arrival (1/2)), at_end = None\<rparr>"

definition background :: req_context where
  "background = \<lparr>ctx_deadline = None, ctx_deadlineCause = Sentinel ContextDeadlineExceeded\<rparr>"

definition sample_controller :: flowController where
  "sample_controller = NewFlowController \<lparr>cc_DefaultRequestTTL = 10, cc_ExpiryCleanupInterval = 1,
     cc_ProcessorReconciliationInterval = 1, cc_EnqueueChannelBufferSize = 1\<rparr>"

definition sample_call :: "((queue_outcome \<times> gerror option) \<times> system) option" where
  "sample_call =
     (case NewFlowRegistry default_config 0 init_world of
        Some (Inr fr, w) \<Rightarrow> EnqueueAndWait [served_attempt] background (sample_request key_a) (w, fr, sample_controller)
      | _ \<Rightarrow> None)"

lemma sample_call_result: "map_option fst sample_call = Some (QueueOutcomeDispatched, None)"
  by code_simp

lemma finals_good_NewFlowRegistry:
  "NewFlowRegistry default_config 0 init_world = Some (Inr fr, w) \<Longrightarrow> finals_good w"
  by (auto simp: NewFlowRegistry_def Let_def Clone_def updateShardCount_def executeScaleUpLocked_def
      finals_good_init split: option.splits if_splits prod.splits sum.splits)


subsection \<open>Distribution\<close>

definition candidate_of :: "flow_key \<Rightarrow> flowRegistry \<Rightarrow> candidate \<Rightarrow> bool" where
  "candidate_of key fr c \<longleftrightarrow> cd_shardID c \<in> set (ActiveShards fr) \<and>
     (\<exists>s mq. map_of (fr_shards fr) (cd_shardID c) = Some s \<and> ManagedQueue key s = Inr mq \<and> cd_byteSize c = mq_ByteSize mq)"

lemma cmp_byteSize_le: "cmp_byteSize a b \<le> 0 \<longleftrightarrow> cd_byteSize a \<le> cd_byteSize b"
  using linorder_not_less [of "cd_byteSize b" "cd_byteSize a"] by (auto simp: cmp_byteSize_def)

lemma insort_cmp_sorted:
  assumes "sorted_wrt (\<lambda>a b. cd_byteSize a \<le> cd_byteSize b) xs"
  shows "sorted_wrt (\<lambda>a b. cd_byteSize a \<le> cd_byteSize b) (insort_cmp cmp_byteSize x xs)"
  using assms
proof (induction xs)
  case (Cons y ys)
  have m: "set (insort_cmp cmp_byteSize x ys) = insert x (set ys)"
    by (metis mset_insort_cmp set_mset_add_mset_insert set_mset_mset)
  have y: "\<forall>z\<in>set ys. cd_byteSize y \<le> cd_byteSize z" using Cons.prems by simp
  show ?case
  proof (cases "cd_byteSize x \<le> cd_byteSize y")
    case True
    then have "\<forall>z\<in>set ys. cd_byteSize x \<le> cd_byteSize z" using y order_trans by blast
    then show ?thesis using True Cons.prems by (simp add: cmp_byteSize_le)
  next
    case False
    then have "cd_byteSize y \<le> cd_byteSize x" using linorder_linear by blast
    then show ?thesis using False Cons y by (simp add: cmp_byteSize_le m)
  qed
qed simp

lemma SortFunc_sorted: "sorted_wrt (\<lambda>a b. cd_byteSize a \<le> cd_byteSize b) (SortFunc cmp_byteSize xs)"
  by (induction xs) (simp_all add: SortFunc_def insort_cmp_sorted)

lemma collect_candidates_mem:
  "collect_candidates key fr sids fc = Some (cs, fc') \<Longrightarrow> c \<in> set cs \<longleftrightarrow> cd_shardID c \<in> set sids \<and>
     (\<exists>s mq. map_of (fr_shards fr) (cd_shardID c) = Some s \<and> ManagedQueue key s = Inr mq \<and> cd_byteSize c = mq_ByteSize mq)"
proof (induction sids arbitrary: fc cs fc')
  case (Cons sid sids)
  obtain s cs1 fc2 where R: "map_of (fr_shards fr) sid = Some s"
    "collect_candidates key fr sids (getOrStartWorker sid fc) = Some (cs1, fc2)"
    using Cons.prems by (auto simp: Let_def split: option.splits)
  note IH = Cons.IH [OF R(2)]
  show ?case
  proof (cases "ManagedQueue key s")
    case (Inl e)
    then have "cs = cs1" using Cons.prems R by (simp add: Let_def)
    then show ?thesis using IH Inl R(1) by auto
  next
    case (Inr mq)
    then have "cs = \<lparr>cd_shardID = sid, cd_byteSize = mq_ByteSize mq\<rparr> # cs1" using Cons.prems R by (simp add: Let_def)
    moreover have "c = \<lparr>cd_shardID = sid, cd_byteSize = mq_ByteSize mq\<rparr> \<longleftrightarrow> cd_shardID c = sid \<and> cd_byteSize c = mq_ByteSize mq"
      by (cases c) auto
    ultimately show ?thesis using IH Inr R(1) by auto
  qed
qed simp

lemma select_candidates:
  assumes "selectDistributionCandidates key fr fc = Some (Inr cs, fc')"
  shows "cs \<noteq> []" "sorted_wrt (\<lambda>a b. cd_byteSize a \<le> cd_byteSize b) cs" "c \<in> set cs \<longleftrightarrow> candidate_of key fr c"
proof -
  obtain xs where xs: "collect_candidates key fr (ActiveShards fr) fc = Some (xs, fc')" "xs \<noteq> []" "cs = SortFunc cmp_byteSize xs"
    using assms by (auto simp: selectDistributionCandidates_def Let_def split: if_splits option.splits)
  show "cs \<noteq> []" using xs(2,3) by (metis length_0_conv length_SortFunc)
  show "sorted_wrt (\<lambda>a b. cd_byteSize a \<le> cd_byteSize b) cs" unfolding xs(3) by (rule SortFunc_sorted)
  show "c \<in> set cs \<longleftrightarrow> candidate_of key fr c"
    using collect_candidates_mem [OF xs(1), of c] by (simp add: xs(3) candidate_of_def)
qed

definition refuses :: "attempt \<Rightarrow> queue_item \<Rightarrow> flowController \<Rightarrow> candidate \<Rightarrow> bool" where
  "refuses a it fc c \<longleftrightarrow> (\<exists>sp. map_of (fc_workers fc) (cd_shardID c) = Some sp \<and>
     fst (Submit (at_waiting a (cd_shardID c)) (at_choice a (cd_shardID c)) (Some it) sp) \<noteq> None)"

lemma Submit_cases:
  "Submit waiting choice x sp = (None, sp') \<Longrightarrow> sp' = sp\<lparr>sp_enqueueChan := sp_enqueueChan sp @ [x]\<rparr>"
  "Submit waiting choice x sp = (Some err, sp') \<Longrightarrow> sp' = sp"
  by (auto simp: Submit_def submit_select_def split: if_splits)

lemma submit_first_accepted:
  assumes "submit_first a it cs fc = Some (True, fc')"
  shows "\<exists>pre c post sp. cs = pre @ c # post \<and> (\<forall>x\<in>set pre. refuses a it fc x) \<and>
    map_of (fc_workers fc) (cd_shardID c) = Some sp \<and>
    fc' = fc\<lparr>fc_workers := AList.update (cd_shardID c) (sp\<lparr>sp_enqueueChan := sp_enqueueChan sp @ [Some it]\<rparr>) (fc_workers fc)\<rparr>"
  using assms
proof (induction cs)
  case (Cons c cs)
  let ?sid = "cd_shardID c"
  obtain sp where sp: "map_of (fc_workers fc) ?sid = Some sp"
    using Cons.prems by (auto simp: on_worker_def split: option.splits)
  obtain err sp1 where S: "Submit (at_waiting a ?sid) (at_choice a ?sid) (Some it) sp = (err, sp1)" by (metis surj_pair)
  show ?case
  proof (cases err)
    case None
    then have "fc' = fc\<lparr>fc_workers := AList.update ?sid (sp\<lparr>sp_enqueueChan := sp_enqueueChan sp @ [Some it]\<rparr>) (fc_workers fc)\<rparr>"
      using Cons.prems sp S Submit_cases(1) [of "at_waiting a ?sid" "at_choice a ?sid" "Some it" sp sp1] by (simp add: on_worker_def)
    then show ?thesis using sp by (intro exI [of _ "[]"] exI [of _ c] exI [of _ cs] exI [of _ sp]) simp
  next
    case (Some e)
    then have "sp1 = sp" using S Submit_cases(2) by blast
    then have "submit_first a it cs fc = Some (True, fc')"
      using Cons.prems sp S Some by (simp add: on_worker_def update_triv)
    from Cons.IH [OF this] obtain pre d post spd where R: "cs = pre @ d # post" "\<forall>x\<in>set pre. refuses a it fc x"
      "map_of (fc_workers fc) (cd_shardID d) = Some spd"
      "fc' = fc\<lparr>fc_workers := AList.update (cd_shardID d) (spd\<lparr>sp_enqueueChan := sp_enqueueChan spd @ [Some it]\<rparr>) (fc_workers fc)\<rparr>" by blast
    have "refuses a it fc c" using sp S Some by (simp add: refuses_def)
    then show ?thesis using R by (intro exI [of _ "c # pre"] exI [of _ d] exI [of _ post] exI [of _ spd]) simp
  qed
qed simp

text \<open>
  C24: a request joins the shortest queue of its flow: the candidates are exactly the active
  shards that have a queue for the flow, and when one of them takes the item at once, it
  is handed to one shard only, whose queue of the flow holds no more bytes than that of any
  candidate that did not refuse it.
\<close>

theorem joins_shortest_queue:
  assumes sel: "selectDistributionCandidates key fr fc = Some (Inr cs, fc1)"
    and sub: "submit_first a it cs fc1 = Some (True, fc2)"
  shows "\<exists>c sp. candidate_of key fr c \<and> map_of (fc_workers fc1) (cd_shardID c) = Some sp \<and>
    fc2 = fc1\<lparr>fc_workers := AList.update (cd_shardID c) (sp\<lparr>sp_enqueueChan := sp_enqueueChan sp @ [Some it]\<rparr>) (fc_workers fc1)\<rparr> \<and>
    (\<forall>c'. candidate_of key fr c' \<and> cd_byteSize c' < cd_byteSize c \<longrightarrow> refuses a it fc1 c')"
proof -
  obtain pre c post sp where R: "cs = pre @ c # post" "\<forall>x\<in>set pre. refuses a it fc1 x"
    "map_of (fc_workers fc1) (cd_shardID c) = Some sp"
    "fc2 = fc1\<lparr>fc_workers := AList.update (cd_shardID c) (sp\<lparr>sp_enqueueChan := sp_enqueueChan sp @ [Some it]\<rparr>) (fc_workers fc1)\<rparr>"
    using submit_first_accepted [OF sub] by blast
  have "refuses a it fc1 c'" if c': "candidate_of key fr c'" "cd_byteSize c' < cd_byteSize c" for c'
  proof -
    have "c' \<in> set cs" using select_candidates(3) [OF sel] c'(1) by blast
    moreover have "\<forall>x\<in>set (c # post). cd_byteSize c \<le> cd_byteSize x"
      using select_candidates(2) [OF sel] by (simp add: R(1) sorted_wrt_append)
    ultimately have "c' \<in> set pre" using c'(2) R(1) by (auto simp: not_le [symmetric])
    then show ?thesis using R(2) by blast
  qed
  moreover have "candidate_of key fr c" using select_candidates(3) [OF sel, of c] R(1) by simp
  ultimately show ?thesis using R(3,4) by blast
qed

theorem joins_shortest_queue_witness:
  "\<exists>fc1 fc2 c. selectDistributionCandidates key_a idle_registry sample_controller = Some (Inr [c], fc1) \<and>
     submit_first served_attempt plain_item [c] fc1 = Some (True, fc2) \<and> candidate_of key_a idle_registry c"
proof -
  let ?c = "\<lparr>cd_shardID = ''shard-0000'', cd_byteSize = 0\<rparr>"
  define fc1 where "fc1 = getOrStartWorker ''shard-0000'' sample_controller"
  have sel: "selectDistributionCandidates key_a idle_registry sample_controller = Some (Inr [?c], fc1)"
    unfolding fc1_def by code_simp
  obtain fc2 where sub: "submit_first served_attempt plain_item [?c] fc1 = Some (True, fc2)"
  proof -
    have "map_option fst (submit_first served_attempt plain_item [?c] (getOrStartWorker ''shard-0000'' sample_controller)) = Some True"
      by code_simp
    then show ?thesis using that unfolding fc1_def by auto
  qed
  have "candidate_of key_a idle_registry ?c"
    using joins_shortest_queue [OF sel sub] select_candidates(3) [OF sel, of ?c] by simp
  then show ?thesis using sel sub by blast
qed

subsection \<open>Progress\<close>

text \<open>The active shards exist.\<close>

definition resolvable :: "flowRegistry \<Rightarrow> bool" where
  "resolvable fr \<longleftrightarrow> (\<forall>sid\<in>set (ActiveShards fr). map_of (fr_shards fr) sid \<noteq> None)"

definition has_worker :: "flowController \<Rightarrow> string \<Rightarrow> bool" where
  "has_worker fc sid \<longleftrightarrow> map_of (fc_workers fc) sid \<noteq> None"

lemma getOrStartWorker_has: "has_worker (getOrStartWorker sid fc) sid' \<longleftrightarrow> sid' = sid \<or> has_worker fc sid'"
  by (auto simp: has_worker_def getOrStartWorker_def update_conv' split: option.split)

lemma collect_candidates_total:
  "\<forall>sid\<in>set sids. map_of (fr_shards fr) sid \<noteq> None \<Longrightarrow>
     \<exists>cs fc'. collect_candidates key fr sids fc = Some (cs, fc') \<and> (\<forall>sid. sid \<in> set sids \<or> has_worker fc sid \<longrightarrow> has_worker fc' sid)"
proof (induction sids arbitrary: fc)
  case (Cons sid sids)
  obtain s where s: "map_of (fr_shards fr) sid = Some s" using Cons.prems by auto
  obtain cs fc' where R: "collect_candidates key fr sids (getOrStartWorker sid fc) = Some (cs, fc')"
    "\<forall>x. x \<in> set sids \<or> has_worker (getOrStartWorker sid fc) x \<longrightarrow> has_worker fc' x"
    using Cons by fastforce
  have "\<exists>cs'. collect_candidates key fr (sid # sids) fc = Some (cs', fc')"
    using s R(1) by (simp add: Let_def split: sum.split)
  then show ?case using R(2) by (auto simp: getOrStartWorker_has)
qed simp

lemma on_worker_total:
  assumes "has_worker fc sid"
  shows "\<exists>r fc'. on_worker f sid fc = Some (r, fc') \<and> (\<forall>x. has_worker fc x \<longrightarrow> has_worker fc' x)"
proof -
  obtain sp where sp: "map_of (fc_workers fc) sid = Some sp" using assms by (auto simp: has_worker_def)
  obtain r sp1 where f: "f sp = (r, sp1)" by (metis surj_pair)
  have "on_worker f sid fc = Some (r, fc\<lparr>fc_workers := AList.update sid sp1 (fc_workers fc)\<rparr>)" using sp f by (simp add: on_worker_def)
  moreover have "has_worker fc x \<Longrightarrow> has_worker (fc\<lparr>fc_workers := AList.update sid sp1 (fc_workers fc)\<rparr>) x" for x
    by (simp add: has_worker_def update_conv')
  ultimately show ?thesis by blast
qed

lemma submit_first_total:
  "\<forall>c\<in>set cs. has_worker fc (cd_shardID c) \<Longrightarrow>
     \<exists>b fc'. submit_first a it cs fc = Some (b, fc') \<and> (\<forall>x. has_worker fc x \<longrightarrow> has_worker fc' x)"
proof (induction cs arbitrary: fc)
  case (Cons c cs)
  let ?f = "Submit (at_waiting a (cd_shardID c)) (at_choice a (cd_shardID c)) (Some it)"
  have "has_worker fc (cd_shardID c)" using Cons.prems by simp
  then obtain r fc1 where O: "on_worker ?f (cd_shardID c) fc = Some (r, fc1)" "\<forall>x. has_worker fc x \<longrightarrow> has_worker fc1 x"
    using on_worker_total [of fc "cd_shardID c" ?f] by blast
  show ?case
  proof (cases r)
    case None
    then show ?thesis using O by auto
  next
    case (Some e)
    have "\<forall>d\<in>set cs. has_worker fc1 (cd_shardID d)" using Cons.prems O(2) by simp
    from Cons.IH [OF this] show ?thesis using O Some by auto
  qed
qed auto

lemma distributeRequest_total:
  assumes "cs \<noteq> []" "\<forall>c\<in>set cs. has_worker fc (cd_shardID c)"
  shows "\<exists>oc e fc'. distributeRequest a it cs fc = Some (oc, e, fc')"
proof -
  obtain c rest where cs: "cs = c # rest" using assms(1) by (cases cs) auto
  obtain b fc1 where S: "submit_first a it cs fc = Some (b, fc1)" "\<forall>x. has_worker fc x \<longrightarrow> has_worker fc1 x"
    using submit_first_total [OF assms(2)] by blast
  have "has_worker fc1 (cd_shardID c)" using S(2) assms(2) cs by simp
  then obtain r fc2 where "on_worker (SubmitOrBlock (blocked_by (at_block a)) (Some it)) (cd_shardID c) fc1 = Some (r, fc2)"
    using on_worker_total by blast
  then show ?thesis using S(1) cs by (cases b; cases r) (simp_all add: distributeRequest_def)
qed

lemma tryDistribution_total:
  assumes "resolvable fr"
  shows "\<exists>it e w' fc'. tryDistribution a ctx req t key (w, fr, fc) = Some ((it, e), w', fr, fc')"
proof -
  obtain r fc1 where S: "selectDistributionCandidates key fr fc = Some (r, fc1)"
    and W: "\<And>cs c. r = Inr cs \<Longrightarrow> c \<in> set cs \<Longrightarrow> has_worker fc1 (cd_shardID c)"
  proof -
    obtain xs fc' where C: "collect_candidates key fr (ActiveShards fr) fc = Some (xs, fc')"
      "\<forall>sid. sid \<in> set (ActiveShards fr) \<or> has_worker fc sid \<longrightarrow> has_worker fc' sid"
      using collect_candidates_total assms unfolding resolvable_def by blast
    have "has_worker fc' (cd_shardID c)" if "c \<in> set xs" for c
      using collect_candidates_mem [OF C(1), of c] that C(2) by blast
    then have "\<exists>r fc1. selectDistributionCandidates key fr fc = Some (r, fc1) \<and>
        (\<forall>cs c. r = Inr cs \<longrightarrow> c \<in> set cs \<longrightarrow> has_worker fc1 (cd_shardID c))"
      using C(1) by (simp add: selectDistributionCandidates_def Let_def)
    then show ?thesis using that by blast
  qed
  show ?thesis
  proof (cases r)
    case (Inl e)
    then show ?thesis using S by (simp add: tryDistribution_def alloc_item_def Let_def)
  next
    case (Inr cs)
    then have "cs \<noteq> []" using select_candidates(1) S by blast
    then have D: "\<exists>oc e fc'. distributeRequest a it cs fc1 = Some (oc, e, fc')" for it
      using distributeRequest_total W [OF Inr] by blast
    show ?thesis
      using S Inr D [of "fst (alloc_item req (case ctx_deadline ctx of
             Some deadline \<Rightarrow> if deadline - t > 0 then deadline - t else cc_DefaultRequestTTL (fc_config fc)
           | None \<Rightarrow> cc_DefaultRequestTTL (fc_config fc)) t w)"]
      by (auto simp: tryDistribution_def alloc_item_def Let_def split: option.split)
  qed
qed

definition draining_error :: "gerror option \<Rightarrow> bool" where
  "draining_error err = (case err of None \<Rightarrow> False | Some e \<Rightarrow> errors_Is e ErrShardDraining)"


definition expired_attempt :: attempt where
  "expired_attempt = served_attempt\<lparr>at_meanwhile := (\<lambda>(w, fr, fc). (init_world, fr, fc)), at_end := Some CtxDeadline\<rparr>"


subsection \<open>Deadlines and workers\<close>

text \<open>
  C25: the time to live is enforced by the context: a request with a time to live, its own or
  the default one, gets a deadline that is never later than the end of that time nor later
  than the caller's own deadline, and when the time to live is what ends it, the cause is
  that the time to live expired. Without one the caller's context is used as it is.
\<close>

theorem request_deadline:
  assumes c: "createRequestContext cfg ctx req now = (rc, t)"
    and ttl: "ttl = (if initialEffectiveTTL req \<le> 0 then cc_DefaultRequestTTL cfg else initialEffectiveTTL req)"
  shows "t = now \<and> (ttl \<le> 0 \<longrightarrow> rc = ctx) \<and>
    (ttl > 0 \<longrightarrow> (\<exists>d. ctx_deadline rc = Some d \<and> d \<le> now + ttl \<and> (\<forall>pd. ctx_deadline ctx = Some pd \<longrightarrow> d \<le> pd) \<and>
       (d = now + ttl \<longrightarrow> ctx_Cause rc CtxDeadline = Sentinel ErrTTLExpired) \<and>
       (d < now + ttl \<longrightarrow> rc = ctx)))"
  using c unfolding ttl [symmetric] createRequestContext_def
  by (auto simp: WithDeadlineCause_def ctx_Cause_def ttl Let_def split: option.splits if_splits)

theorem request_deadline_witness:
  "ctx_deadline (fst (createRequestContext (fc_config sample_controller) background (sample_request key_a) 7)) = Some 17"
proof -
  obtain rc t where c: "createRequestContext (fc_config sample_controller) background (sample_request key_a) 7 = (rc, t)"
    by (metis surj_pair)
  have "10 = (if initialEffectiveTTL (sample_request key_a) \<le> 0 then cc_DefaultRequestTTL (fc_config sample_controller)
      else initialEffectiveTTL (sample_request key_a))"
    by (simp add: sample_request_def sample_controller_def NewFlowController_def)
  from request_deadline [OF c this] have "ctx_deadline rc = Some 17 \<or> rc = background" by force
  moreover have "rc \<noteq> background" using request_deadline [OF c] by (auto simp: background_def sample_request_def sample_controller_def NewFlowController_def)
  ultimately show ?thesis using c by simp
qed

text \<open>The ids that \<open>ShardStats\<close> reports are those of all shards.\<close>

definition ids_ok :: "flowRegistry \<Rightarrow> bool" where
  "ids_ok fr \<longleftrightarrow> (\<forall>sid\<in>set (fr_allShards fr). \<exists>s. map_of (fr_shards fr) sid = Some s \<and> sh_id s = sid)"

lemma map_filter_ids: "\<forall>x\<in>set xs. map_option g (h x) = Some x \<Longrightarrow> List.map_filter (map_option g) (map h xs) = xs"
  by (induction xs) (auto simp: map_filter_simps)

lemma ShardStats_ids: "ids_ok fr \<Longrightarrow> List.map_filter (map_option ss_ID) (ShardStats fr) = fr_allShards fr"
  unfolding ShardStats_def by (rule map_filter_ids) (auto simp: ids_ok_def shard_Stats_def)

lemma map_of_filter_keys: "map_of (filter (\<lambda>(k, _). k \<in> A) xs) k = (if k \<in> A then map_of xs k else None)"
  by (induction xs) auto

text \<open>
  C26: the pool follows the registry: a reconciliation keeps the workers of shards that
  exist, active or draining, untouched, and removes every other worker from the map after
  its context was cancelled, so that it shuts down and no request is routed to it; the
  shutdown of the controller cancels every worker.
\<close>

theorem reconcile_exact:
  assumes ids: "ids_ok fr"
  shows "map_of (fc_workers (reconcileProcessors fr fc)) sid =
      (if sid \<in> set (fr_allShards fr) then map_of (fc_workers fc) sid else None) \<and>
    (\<forall>sp. sid \<notin> set (fr_allShards fr) \<and> map_of (fc_workers fc) sid = Some sp \<longrightarrow>
      cancel_worker sp \<in> set (fc_stopped (reconcileProcessors fr fc)) \<and> sp_ctxDone (cancel_worker sp)) \<and>
    (\<forall>sp. map_of (fc_workers (controller_shutdown fc)) sid = Some sp \<longrightarrow> sp_ctxDone sp)"
proof (intro conjI allI impI)
  show "map_of (fc_workers (reconcileProcessors fr fc)) sid =
      (if sid \<in> set (fr_allShards fr) then map_of (fc_workers fc) sid else None)"
    by (simp add: reconcileProcessors_def Let_def map_of_filter_keys ShardStats_ids [OF ids])
  fix sp
  show "cancel_worker sp \<in> set (fc_stopped (reconcileProcessors fr fc))"
    if a: "sid \<notin> set (fr_allShards fr) \<and> map_of (fc_workers fc) sid = Some sp"
    using a map_of_SomeD [of "fc_workers fc" sid sp] ShardStats_ids [OF ids]
    by (force simp: reconcileProcessors_def Let_def)
  show "sp_ctxDone (cancel_worker sp)" by (simp add: cancel_worker_def)
  show "sp_ctxDone sp" if a: "map_of (fc_workers (controller_shutdown fc)) sid = Some sp"
    using map_of_SomeD [OF a] by (auto simp: controller_shutdown_def cancel_worker_def)
qed

theorem reconcile_exact_witness:
  "let fc = getOrStartWorker ''shard-0001'' (getOrStartWorker ''shard-0000'' sample_controller);
       fc' = reconcileProcessors idle_registry fc
   in map_of (fc_workers fc') ''shard-0001'' = None \<and> map_of (fc_workers fc') ''shard-0000'' \<noteq> None"
proof -
  have ids: "ids_ok idle_registry" by (simp add: ids_ok_def idle_registry_def sample_registry_def sample_shard_def)
  show ?thesis
    unfolding Let_def
    using reconcile_exact [OF ids, of _ "''shard-0000''"] reconcile_exact [OF ids, of _ "''shard-0001''"]
    by (simp add: getOrStartWorker_def sample_controller_def NewFlowController_def update_conv' idle_registry_def sample_registry_def)
qed

end
