(* ===== verification/Go_Strings.thy ===== *)
theory Go_Strings
  imports Main
begin

text \<open>
  The string functions of Go's standard library that request control and the data store use:
  \<open>strings.Join\<close>, \<open>strings.Split\<close>, \<open>strings.LastIndexByte\<close>, \<open>strconv.Itoa\<close> and
  \<open>net.JoinHostPort\<close>.
\<close>

text \<open>\<open>strings.Join\<close>.\<close>

fun strings_Join :: "string list \<Rightarrow> string \<Rightarrow> string" where
  "strings_Join [] sep = []"
| "strings_Join [s] sep = s"
| "strings_Join (s # ss) sep = s @ sep @ strings_Join ss sep"

lemma strings_Join_append:
  "xs \<noteq> [] \<Longrightarrow> ys \<noteq> [] \<Longrightarrow> strings_Join (xs @ ys) sep = strings_Join xs sep @ sep @ strings_Join ys sep"
proof (induction xs sep rule: strings_Join.induct)
  case (2 s sep)
  then show ?case by (cases ys) auto
qed auto

text \<open>\<open>strconv.Itoa\<close>.\<close>

fun nat_digits :: "nat \<Rightarrow> string" where
  "nat_digits n = (if n < 10 then [char_of (48 + n)] else nat_digits (n div 10) @ [char_of (48 + n mod 10)])"

declare nat_digits.simps [simp del]

definition Itoa :: "int \<Rightarrow> string" where
  "Itoa i = (if i < 0 then ''-'' @ nat_digits (nat (- i)) else nat_digits (nat i))"

text \<open>\<open>net.JoinHostPort\<close>: hosts with a colon (IPv6 addresses) are bracketed.\<close>

definition JoinHostPort :: "string \<Rightarrow> string \<Rightarrow> string" where
  "JoinHostPort host port =
     (if CHR '':'' \<in> set host then ''['' @ host @ '']:'' @ port else host @ '':'' @ port)"

text \<open>\<open>strings.Split\<close> at one character: the parts between its occurrences, at least one.\<close>

fun Split :: "string \<Rightarrow> char \<Rightarrow> string list" where
  "Split [] c = [[]]"
| "Split (x # xs) c =
     (if x = c then [] # Split xs c
      else case Split xs c of [] \<Rightarrow> [[x]] | p # ps \<Rightarrow> (x # p) # ps)"

text \<open>The part before the last occurrence of a character, if it occurs (\<open>strings.LastIndexByte\<close>).\<close>

fun before_last :: "string \<Rightarrow> char \<Rightarrow> string option" where
  "before_last [] c = None"
| "before_last (x # xs) c =
     (case before_last xs c of Some p \<Rightarrow> Some (x # p) | None \<Rightarrow> if x = c then Some [] else None)"

lemma nat_digits_set: "set (nat_digits n) \<subseteq> {c. (of_char c :: nat) \<in> {48..57}}"
proof (induction n rule: nat_digits.induct)
  case (1 n)
  then show ?case by (subst nat_digits.simps) (auto simp: nat_digits.simps [of "n div 10"])
qed

lemma nat_digits_value: "foldl (\<lambda>a c. 10 * a + ((of_char c :: nat) - 48)) 0 (nat_digits n) = n"
proof (induction n rule: nat_digits.induct)
  case (1 n)
  have d: "(of_char (char_of (48 + k :: nat) :: char) :: nat) = 48 + k" if "k < 10" for k
    using that by simp
  show ?case
  proof (cases "n < 10")
    case True
    then show ?thesis by (subst nat_digits.simps) (simp add: d)
  next
    case False
    then show ?thesis using 1 by (subst nat_digits.simps) (simp add: d)
  qed
qed

lemma nat_digits_inj: "nat_digits m = nat_digits n \<Longrightarrow> m = n"
  by (metis nat_digits_value)

lemma append_last_char:
  assumes "xs @ c # ds = ys @ c # es" "c \<notin> set ds" "c \<notin> set es"
  shows "xs = ys \<and> ds = es"
  using assms by (auto simp: append_eq_append_conv2 append_eq_Cons_conv Cons_eq_append_conv)

end
