(* ===== verification/Endpoints.thy ===== *)
theory Endpoints
  imports Flow_Types Go_Strings "HOL-Library.AList"
begin

text \<open>
  The data of requests and endpoints that scheduling and request control share:
  src/pkg/epp/framework/interface/scheduling/types.go, the endpoint metadata, metrics and
  attributes of src/pkg/epp/framework/interface/datalayer, and the attribute values of
  src/pkg/epp/framework/plugins/datalayer/attribute.

  \<open>go_any\<close> holds the dynamic values of type \<open>any\<close> that the code inspects: decoded JSON and the
  example values by which plugins declare their data. A pointer is the name of its type and
  its address. An endpoint carries its own address \<open>ep_ptr\<close>, since Go compares endpoints (the keys
  of the score maps) by identity.
\<close>

subsection \<open>Dynamic values\<close>

datatype go_any =
    AnyNil
  | AnyString string
  | AnyInt int
  | AnyFloat real
  | AnyBool bool
  | AnyList "go_any list"
  | AnyMap "(string \<times> go_any) list"
  | AnyTypedMap string
  | AnyStruct string
  | AnyPtr string nat

text \<open>
  \<open>a == b\<close> on interface values. Values of different dynamic types are unequal, pointers are
  compared by address, and comparing two slices or two maps of one type is a panic.
  \<open>AnyStruct t\<close> is the zero value of the struct type \<open>t\<close>.
\<close>

fun any_eq :: "go_any \<Rightarrow> go_any \<Rightarrow> bool option" where
  "any_eq (AnyList _) (AnyList _) = None"
| "any_eq (AnyMap _) (AnyMap _) = None"
| "any_eq (AnyTypedMap s) (AnyTypedMap t) = (if s = t then None else Some False)"
| "any_eq a b = Some (a = b)"

subsection \<open>Metadata, metrics and attributes\<close>

record namespaced_name =
  nn_Name :: string
  nn_Namespace :: string

record endpoint_metadata =
  md_NamespacedName :: namespaced_name
  md_PodName :: string
  md_Address :: string
  md_Port :: string
  md_MetricsHost :: string
  md_Labels :: "(string \<times> string) list"

record metrics =
  mt_ActiveModels :: "(string \<times> int) list"
  mt_WaitingModels :: "(string \<times> int) list"
  mt_MaxActiveModels :: int
  mt_RunningRequestsSize :: int
  mt_WaitingQueueSize :: int
  mt_KVCacheUsagePercent :: real
  mt_KvCacheMaxTokenCapacity :: int
  mt_CacheBlockSize :: int
  mt_CacheNumBlocks :: int
  mt_UpdateTime :: gotime

definition NewMetrics :: metrics where
  "NewMetrics = \<lparr>mt_ActiveModels = [], mt_WaitingModels = [], mt_MaxActiveModels = 0,
     mt_RunningRequestsSize = 0, mt_WaitingQueueSize = 0, mt_KVCacheUsagePercent = 0,
     mt_KvCacheMaxTokenCapacity = 0, mt_CacheBlockSize = 0, mt_CacheNumBlocks = 0,
     mt_UpdateTime = zero_time\<rparr>"

record inFlightLoad =
  load_Tokens :: int64
  load_Requests :: int64

record prefixCacheMatchInfo =
  matchBlocks :: int
  totalBlocks :: int
  blockSizeTokens :: int

record latencyPredictionInfo =
  ttftValid :: bool
  tpotValid :: bool
  ttftHeadroom :: real
  tpotHeadroom :: real
  lp_ttft :: real
  lp_tpot :: real
  dispatchedRequestCount :: int

definition latency_IsValid :: "latencyPredictionInfo \<Rightarrow> bool" where
  "latency_IsValid l \<longleftrightarrow> ttftValid l \<and> tpotValid l"

datatype cloneable =
    InFlight inFlightLoad
  | PrefixMatch prefixCacheMatchInfo
  | Latency latencyPredictionInfo
  | OtherAttribute string

definition InFlightLoadKey :: string where
  "InFlightLoadKey = ''InFlightLoadKey''"

definition PrefixCacheMatchInfoKey :: string where
  "PrefixCacheMatchInfoKey = ''PrefixCacheMatchInfoKey''"

definition LatencyPredictionInfoKey :: string where
  "LatencyPredictionInfoKey = ''LatencyPredictionInfoKey''"

type_synonym attributes = "(string \<times> cloneable) list"

definition attr_Put :: "string \<Rightarrow> cloneable option \<Rightarrow> attributes \<Rightarrow> attributes" where
  "attr_Put key v a = (case v of Some c \<Rightarrow> AList.update key c a | None \<Rightarrow> a)"

definition attr_Get :: "string \<Rightarrow> attributes \<Rightarrow> cloneable option" where
  "attr_Get key a = map_of a key"

definition attr_Keys :: "attributes \<Rightarrow> string list" where
  "attr_Keys a = map fst a"

definition attr_Clone :: "attributes \<Rightarrow> attributes" where
  "attr_Clone a = fold (\<lambda>(key, v). attr_Put key (Some v)) a []"

record endpoint =
  ep_ptr :: nat
  GetMetadata :: "endpoint_metadata option"
  GetMetrics :: "metrics option"
  GetAttributes :: attributes

text \<open>
  \<open>scheduling.NewEndpoint\<close>: a snapshot at the fresh address \<open>p\<close>. A nil attribute map counts as
  the empty one.
\<close>

definition sched_NewEndpoint ::
  "nat \<Rightarrow> endpoint_metadata option \<Rightarrow> metrics option \<Rightarrow> attributes option \<Rightarrow> endpoint" where
  "sched_NewEndpoint p meta mtr attr =
     \<lparr>ep_ptr = p, GetMetadata = meta, GetMetrics = mtr,
      GetAttributes = (case attr of None \<Rightarrow> attr_Clone [] | Some a \<Rightarrow> attr_Clone a)\<rparr>"

definition EndpointComparer :: "endpoint \<Rightarrow> endpoint \<Rightarrow> bool" where
  "EndpointComparer a b \<longleftrightarrow>
     GetMetadata a = GetMetadata b \<and> GetMetrics a = GetMetrics b \<and>
     length (attr_Keys (GetAttributes a)) = length (attr_Keys (GetAttributes b)) \<and>
     list_all (\<lambda>k. attr_Get k (GetAttributes a) \<noteq> None \<and> attr_Get k (GetAttributes b) \<noteq> None \<and>
                   attr_Get k (GetAttributes a) = attr_Get k (GetAttributes b))
       (attr_Keys (GetAttributes a))"

subsection \<open>Request bodies\<close>

record prompt =
  prompt_Raw :: string
  prompt_Strings :: "string list"

record content_block =
  cb_Type :: string
  cb_Text :: string

record content =
  content_Raw :: string
  content_Structured :: "content_block list"

record message =
  msg_Role :: string
  msg_Content :: content

record completions_request =
  cr_Prompt :: prompt
  cr_CacheSalt :: string

record chat_completions_request =
  cc_Messages :: "message list"
  cc_CacheSalt :: string

record responses_request =
  rr_Input :: go_any
  rr_CacheSalt :: string

record conversations_request =
  cv_Items :: go_any
  cv_CacheSalt :: string

record embeddings_request =
  em_Input :: go_any
  em_CacheSalt :: string

datatype request_payload =
    PayloadMap "(string \<times> go_any) list"
  | PayloadProto
  | RawPayload string

fun IsParsed :: "request_payload \<Rightarrow> bool" where
  "IsParsed (PayloadMap _) = True"
| "IsParsed PayloadProto = True"
| "IsParsed (RawPayload _) = False"

record llm_request_body =
  lb_Completions :: "completions_request option"
  lb_ChatCompletions :: "chat_completions_request option"
  lb_Responses :: "responses_request option"
  lb_Conversations :: "conversations_request option"
  lb_Embeddings :: "embeddings_request option"
  lb_Payload :: "request_payload option"
  lb_Stream :: bool

record llm_request =
  lr_RequestId :: string
  lr_TargetModel :: string
  lr_Body :: "llm_request_body option"
  lr_Headers :: "(string \<times> string) list"
  lr_Priority :: int
  lr_RequestSizeBytes :: int

definition prompt_PlainText :: "prompt \<Rightarrow> string" where
  "prompt_PlainText p = (if prompt_Raw p \<noteq> [] then prompt_Raw p else strings_Join (prompt_Strings p) '' '')"

definition prompt_IsEmpty :: "prompt \<Rightarrow> bool" where
  "prompt_IsEmpty p \<longleftrightarrow> prompt_Raw p = [] \<and> length (prompt_Strings p) = 0"

definition content_PlainText :: "content \<Rightarrow> string" where
  "content_PlainText mc =
     (if content_Raw mc \<noteq> [] then content_Raw mc
      else concat (map (\<lambda>block. if cb_Type block = ''text'' then cb_Text block @ '' '' else [])
                       (content_Structured mc)))"

text \<open>\<open>PromptText\<close>; \<open>marshal\<close> is \<open>json.Marshal\<close>.\<close>

definition PromptText :: "(go_any \<Rightarrow> string) \<Rightarrow> llm_request_body \<Rightarrow> string" where
  "PromptText marshal r =
     (case lb_Completions r of
        Some c \<Rightarrow> prompt_PlainText (cr_Prompt c)
      | None \<Rightarrow>
     (case lb_ChatCompletions r of
        Some c \<Rightarrow> concat (map (\<lambda>msg. let txt = content_PlainText (msg_Content msg)
                                      in if txt \<noteq> [] then txt @ '' '' else []) (cc_Messages c))
      | None \<Rightarrow>
     (case lb_Responses r of
        Some c \<Rightarrow> (case rr_Input c of AnyString s \<Rightarrow> s | v \<Rightarrow> marshal v)
      | None \<Rightarrow>
     (case lb_Conversations r of
        Some c \<Rightarrow> marshal (cv_Items c)
      | None \<Rightarrow> []))))"

definition CacheSalt :: "llm_request_body \<Rightarrow> string" where
  "CacheSalt r =
     (case lb_Conversations r of Some c \<Rightarrow> cv_CacheSalt c
      | None \<Rightarrow> (case lb_Responses r of Some c \<Rightarrow> rr_CacheSalt c
      | None \<Rightarrow> (case lb_ChatCompletions r of Some c \<Rightarrow> cc_CacheSalt c
      | None \<Rightarrow> (case lb_Completions r of Some c \<Rightarrow> cr_CacheSalt c
      | None \<Rightarrow> (case lb_Embeddings r of Some c \<Rightarrow> em_CacheSalt c
      | None \<Rightarrow> [])))))"

subsection \<open>Lemmas\<close>

lemma attr_Put_Some [simp]: "attr_Put k (Some v) = AList.update k v"
  by (simp add: attr_Put_def fun_eq_iff)

lemma attr_Get_Put [simp]:
  "attr_Get k (attr_Put k' (Some v) a) = (if k = k' then Some v else attr_Get k a)"
  by (auto simp: attr_Get_def update_conv')

lemma fold_update_map_of:
  "map_of (fold (\<lambda>(k, v). AList.update k v) xs ys) = map_of ys ++ map_of (rev xs)"
  by (induction xs arbitrary: ys) (auto simp: update_conv' map_add_def split: option.splits)

lemma attr_Get_Clone [simp]:
  assumes "distinct (map fst a)"
  shows "attr_Get k (attr_Clone a) = attr_Get k a"
proof -
  have "attr_Clone a = fold (\<lambda>(k, v). AList.update k v) a []"
    by (simp add: attr_Clone_def)
  moreover have "map_of (rev a) = map_of a"
    using assms by (intro map_of_eqI) (auto simp: rev_map [symmetric])
  ultimately show ?thesis by (simp add: attr_Get_def fold_update_map_of)
qed

text \<open>The text of a prompt loses nothing of a non-empty raw prompt or of its single string.\<close>

end
