(* ===== verification/Scheduling.thy ===== *)
theory Scheduling
  imports Endpoints
begin

text \<open>
  The scheduler (src/pkg/epp/scheduling) with the plugins of the repository
  (src/pkg/epp/framework/plugins/scheduling): filters, scorers, pickers and the single profile
  handler.

  \<open>None\<close> is a panic: a nil metrics pointer that is read, a failed type assertion, or a profile without
  a picker. The cycle state is left out, as none of these plugins reads or writes it. Random
  numbers are arguments: \<open>draw\<close> supplies the choices of a shuffle and \<open>u\<close> a float in \<open>[0, 1)\<close>.
\<close>

subsection \<open>Language and library\<close>

text \<open>Arithmetic on \<open>int\<close>, which has 64 bits.\<close>

definition wrap64 :: "int \<Rightarrow> int" where
  "wrap64 i = sint (word_of_int i :: 64 word)"

definition MaxInt :: int where
  "MaxInt = 2 ^ 63 - 1"

definition MinInt :: int where
  "MinInt = - (2 ^ 63)"

text \<open>
  \<open>rand.Shuffle\<close>: from the last position down, each is swapped with a drawn position up to it.
  Every permutation is the result of some draws, so the same function also gives the orders in
  which \<open>range\<close> may visit a map.
\<close>

definition Shuffle :: "(nat \<Rightarrow> nat) \<Rightarrow> 'a list \<Rightarrow> 'a list" where
  "Shuffle draw xs = fold (\<lambda>i. list_swap i (draw i mod Suc i)) (rev [1..<length xs]) xs"

text \<open>
  \<open>slices.SortStableFunc\<close> by insertion from the right: an element goes in front of the first
  element that is not smaller, so equal elements keep their order.
\<close>

fun insert_stable :: "('a \<Rightarrow> 'a \<Rightarrow> int) \<Rightarrow> 'a \<Rightarrow> 'a list \<Rightarrow> 'a list" where
  "insert_stable cmp x [] = [x]"
| "insert_stable cmp x (y # ys) = (if cmp x y \<le> 0 then x # y # ys else y # insert_stable cmp x ys)"

definition SortStableFunc :: "('a \<Rightarrow> 'a \<Rightarrow> int) \<Rightarrow> 'a list \<Rightarrow> 'a list" where
  "SortStableFunc cmp xs = foldr (insert_stable cmp) xs []"

subsection \<open>Interfaces\<close>

type_synonym score_map = "(endpoint \<times> real) list"
type_synonym filter_fn = "llm_request \<Rightarrow> endpoint list \<Rightarrow> endpoint list option"
type_synonym score_fn = "llm_request \<Rightarrow> endpoint list \<Rightarrow> score_map option"

record scoredEndpoint =
  se_Endpoint :: endpoint
  se_Score :: real

record profileRunResult =
  TargetEndpoints :: "endpoint list"

type_synonym picker_fn = "scoredEndpoint list \<Rightarrow> profileRunResult"

record schedulingResult =
  ProfileResults :: "(string \<times> profileRunResult option) list"
  PrimaryProfileName :: string

subsection \<open>Scorers\<close>

definition score_each :: "(endpoint \<Rightarrow> real) \<Rightarrow> endpoint list \<Rightarrow> score_map" where
  "score_each f endpoints = fold (\<lambda>e. AList.update e (f e)) endpoints []"

text \<open>All endpoints need metrics.\<close>

definition with_metrics :: "endpoint list \<Rightarrow> score_map \<Rightarrow> score_map option" where
  "with_metrics endpoints scores = (if list_all (\<lambda>e. GetMetrics e \<noteq> None) endpoints then Some scores else None)"

text \<open>Reading a field of missing metadata panics, also where it is read for a log message.\<close>

definition with_metadata :: "endpoint list \<Rightarrow> 'a \<Rightarrow> 'a option" where
  "with_metadata endpoints x = (if list_all (\<lambda>e. GetMetadata e \<noteq> None) endpoints then Some x else None)"

definition kvcache_Score :: score_fn where
  "kvcache_Score req endpoints =
     with_metrics endpoints (score_each (\<lambda>e. 1 - mt_KVCacheUsagePercent (the (GetMetrics e))) endpoints)"

definition min_max_step :: "(metrics \<Rightarrow> int) \<Rightarrow> endpoint \<Rightarrow> int \<times> int \<Rightarrow> int \<times> int" where
  "min_max_step f e = (\<lambda>(minQueueSize, maxQueueSize).
     let queueSize = f (the (GetMetrics e))
     in (if queueSize < minQueueSize then queueSize else minQueueSize,
         if queueSize > maxQueueSize then queueSize else maxQueueSize))"

definition endpointScoreFunc :: "(metrics \<Rightarrow> int) \<Rightarrow> int \<times> int \<Rightarrow> endpoint \<Rightarrow> real" where
  "endpointScoreFunc f = (\<lambda>(minQueueSize, maxQueueSize) e.
     if maxQueueSize = minQueueSize then 1
     else real_of_int (wrap64 (maxQueueSize - f (the (GetMetrics e)))) /
          real_of_int (wrap64 (maxQueueSize - minQueueSize)))"

definition queue_Score :: score_fn where
  "queue_Score req endpoints =
     (let mm = fold (min_max_step mt_WaitingQueueSize) endpoints (MaxInt, MinInt)
      in with_metrics endpoints (score_each (endpointScoreFunc mt_WaitingQueueSize mm) endpoints))"

definition running_Score :: score_fn where
  "running_Score req endpoints =
     (let mm = fold (min_max_step mt_RunningRequestsSize) endpoints (MaxInt, MinInt)
      in with_metrics endpoints (score_each (endpointScoreFunc mt_RunningRequestsSize mm) endpoints))"

definition tokenQueueThresholdDefault :: int where
  "tokenQueueThresholdDefault = 4194304"

text \<open>The factory, after its parameters are decoded: an unset or non-positive threshold is the default.\<close>

definition TokenLoadScorer_threshold :: "int option \<Rightarrow> real" where
  "TokenLoadScorer_threshold cfg =
     (let t = (case cfg of None \<Rightarrow> tokenQueueThresholdDefault | Some t \<Rightarrow> t)
      in real_of_int (if t \<le> 0 then tokenQueueThresholdDefault else t))"

definition tokenload_Score :: "real \<Rightarrow> score_fn" where
  "tokenload_Score queueThresholdTokens req endpoints =
     with_metadata endpoints (score_each (\<lambda>e.
       let tokenLoad = (case attr_Get InFlightLoadKey (GetAttributes e) of
                          Some (InFlight l) \<Rightarrow> real_of_int (sint (load_Tokens l))
                        | _ \<Rightarrow> 0)
       in if tokenLoad \<le> 0 then 1
          else 1 - (if tokenLoad > queueThresholdTokens then queueThresholdTokens else tokenLoad) / queueThresholdTokens)
       endpoints)"

definition lora_Score :: score_fn where
  "lora_Score req endpoints =
     with_metrics endpoints (score_each (\<lambda>e.
       let m = the (GetMetrics e);
           active = (map_of (mt_ActiveModels m) (lr_TargetModel req) \<noteq> None);
           waiting = (map_of (mt_WaitingModels m) (lr_TargetModel req) \<noteq> None)
       in if active then 1
          else if int (length (mt_ActiveModels m)) + int (length (mt_WaitingModels m)) < mt_MaxActiveModels m then 8 / 10
          else if waiting then 6 / 10
          else 0) endpoints)"

definition prefix_Score :: score_fn where
  "prefix_Score req endpoints =
     Some (score_each (\<lambda>e.
       case attr_Get PrefixCacheMatchInfoKey (GetAttributes e) of
         Some (PrefixMatch info) \<Rightarrow>
           if totalBlocks info \<noteq> 0 then real_of_int (matchBlocks info) / real_of_int (totalBlocks info) else 0
       | _ \<Rightarrow> 0) endpoints)"

subsection \<open>Filters\<close>

record affinity_config =
  AffinityThreshold :: real
  ExplorationProbability :: real
  MaxTTFTPenaltyMs :: real

definition affinity_validate :: "affinity_config \<Rightarrow> string option" where
  "affinity_validate c =
     (if AffinityThreshold c > 1 then Some ''affinityThreshold must be <= 1.0''
      else if ExplorationProbability c < 0 \<or> ExplorationProbability c > 1 then Some ''explorationProbability must be in [0, 1]''
      else if MaxTTFTPenaltyMs c < 0 then Some ''maxTTFTPenaltyMs must be >= 0''
      else None)"

text \<open>Failed type assertions panic, so the two reads return an option.\<close>

definition prefixCacheScore :: "endpoint \<Rightarrow> real option" where
  "prefixCacheScore ep =
     (case attr_Get PrefixCacheMatchInfoKey (GetAttributes ep) of
        None \<Rightarrow> Some 0
      | Some (PrefixMatch info) \<Rightarrow>
          Some (if totalBlocks info > 0 then real_of_int (matchBlocks info) / real_of_int (totalBlocks info) else 0)
      | Some _ \<Rightarrow> None)"

definition MaxFloat64 :: real where
  "MaxFloat64 = (2 - 1 / 2 ^ 52) * 2 ^ 1023"

fun bestTTFT :: "endpoint list \<Rightarrow> real \<Rightarrow> real option" where
  "bestTTFT [] best = Some best"
| "bestTTFT (ep # eps) best =
     (case attr_Get LatencyPredictionInfoKey (GetAttributes ep) of
        None \<Rightarrow> bestTTFT eps best
      | Some (Latency info) \<Rightarrow> bestTTFT eps (if lp_ttft info < best then lp_ttft info else best)
      | Some _ \<Rightarrow> None)"

definition affinity_Filter :: "affinity_config \<Rightarrow> real \<Rightarrow> filter_fn" where
  "affinity_Filter c u req endpoints =
     (if length endpoints \<le> 1 \<or> AffinityThreshold c \<le> 0 then Some endpoints
      else if u < ExplorationProbability c then Some endpoints
      else case those (map prefixCacheScore endpoints) of
        None \<Rightarrow> None
      | Some scores \<Rightarrow>
          let sticky = map fst (filter (\<lambda>(ep, sc). sc \<ge> AffinityThreshold c) (zip endpoints scores));
              nonSticky = map fst (filter (\<lambda>(ep, sc). \<not> sc \<ge> AffinityThreshold c) (zip endpoints scores))
          in if length sticky = 0 then Some endpoints
             else if MaxTTFTPenaltyMs c > 0 \<and> length nonSticky > 0
             then (case bestTTFT sticky MaxFloat64 of
                     None \<Rightarrow> None
                   | Some bestStickyTTFT \<Rightarrow>
                       (case bestTTFT nonSticky MaxFloat64 of
                          None \<Rightarrow> None
                        | Some bestNonStickyTTFT \<Rightarrow>
                            if bestStickyTTFT - bestNonStickyTTFT > MaxTTFTPenaltyMs c then Some endpoints else Some sticky))
             else Some sticky)"

text \<open>The tier of an endpoint: positive, negative, or without a prediction.\<close>

datatype slo_tier = PositiveTier | NegativeTier | NoPrediction

definition headroom_tier :: "endpoint \<Rightarrow> slo_tier option" where
  "headroom_tier ep =
     (case attr_Get LatencyPredictionInfoKey (GetAttributes ep) of
        None \<Rightarrow> Some NoPrediction
      | Some (Latency info) \<Rightarrow>
          Some (if ttftHeadroom info \<ge> 0 \<and> tpotHeadroom info \<ge> 0 then PositiveTier else NegativeTier)
      | Some _ \<Rightarrow> None)"

definition headroom_Filter :: "real \<Rightarrow> real \<Rightarrow> filter_fn" where
  "headroom_Filter epsilonExploreNeg u req endpoints =
     (if length endpoints \<le> 1 then Some endpoints
      else case those (map headroom_tier endpoints) of
        None \<Rightarrow> None
      | Some tiers \<Rightarrow>
          let tier = (\<lambda>t. map fst (filter (\<lambda>(ep, t'). t' = t) (zip endpoints tiers)));
              positive = tier PositiveTier; negative0 = tier NegativeTier; noPrediction = tier NoPrediction
          in if length positive = 0 \<and> length negative0 = 0 then Some endpoints
             else let negative = negative0 @ noPrediction
                  in if length positive > 0 \<and> length negative > 0
                     then if u < epsilonExploreNeg then Some negative else Some positive
                     else if length positive > 0 then Some positive
                     else Some negative)"

subsection \<open>Pickers\<close>

definition DefaultMaxNumOfEndpoints :: int where
  "DefaultMaxNumOfEndpoints = 1"

definition picker_limit :: "int \<Rightarrow> nat" where
  "picker_limit maxNumOfEndpoints =
     nat (if maxNumOfEndpoints \<le> 0 then DefaultMaxNumOfEndpoints else maxNumOfEndpoints)"

definition cmp_score :: "scoredEndpoint \<Rightarrow> scoredEndpoint \<Rightarrow> int" where
  "cmp_score i j = (if se_Score i > se_Score j then - 1 else if se_Score i < se_Score j then 1 else 0)"

definition targets :: "scoredEndpoint list \<Rightarrow> profileRunResult" where
  "targets ses = \<lparr>TargetEndpoints = map se_Endpoint ses\<rparr>"

definition max_score_Pick :: "nat \<Rightarrow> (nat \<Rightarrow> nat) \<Rightarrow> picker_fn" where
  "max_score_Pick maxNumOfEndpoints draw scoredEndpoints =
     (let sorted = SortStableFunc cmp_score (Shuffle draw scoredEndpoints)
      in targets (if maxNumOfEndpoints < length sorted then take maxNumOfEndpoints sorted else sorted))"

definition random_Pick :: "nat \<Rightarrow> (nat \<Rightarrow> nat) \<Rightarrow> picker_fn" where
  "random_Pick maxNumOfEndpoints draw scoredEndpoints =
     (let shuffled = Shuffle draw scoredEndpoints
      in targets (if maxNumOfEndpoints < length shuffled then take maxNumOfEndpoints shuffled else shuffled))"

text \<open>
  The A-Res keys; \<open>u i\<close> is the float drawn for the endpoint at position \<open>i\<close>. \<open>sort.Slice\<close> may order
  equal keys in any way, so it is an argument.
\<close>

definition ares_key :: "real \<Rightarrow> scoredEndpoint \<Rightarrow> real" where
  "ares_key u se =
     (if se_Score se \<le> 0 then 0
      else (if u = 0 then 1 / 10 ^ 10 else u) powr (1 / se_Score se))"

type_synonym 'a sort_slice = "('a \<Rightarrow> 'a \<Rightarrow> bool) \<Rightarrow> 'a list \<Rightarrow> 'a list"

definition weighted_random_Pick ::
  "(scoredEndpoint \<times> real) sort_slice \<Rightarrow> nat \<Rightarrow> (nat \<Rightarrow> nat) \<Rightarrow> (nat \<Rightarrow> real) \<Rightarrow> picker_fn" where
  "weighted_random_Pick sort_Slice maxNumOfEndpoints draw u scoredEndpoints =
     (if \<not> list_ex (\<lambda>se. se_Score se > 0) scoredEndpoints then random_Pick maxNumOfEndpoints draw scoredEndpoints
      else let weighted = map (\<lambda>(i, se). (se, ares_key (u i) se)) (enumerate 0 scoredEndpoints);
               sorted = sort_Slice (\<lambda>a b. snd a > snd b) weighted;
               selectedCount = min maxNumOfEndpoints (length weighted)
           in targets (map fst (take selectedCount sorted)))"

subsection \<open>Profiles (scheduler\_profile.go)\<close>

record schedulerProfile =
  sp_filters :: "filter_fn list"
  sp_scorers :: "(score_fn \<times> real) list"
  sp_picker :: "picker_fn option"

definition NewSchedulerProfile :: schedulerProfile where
  "NewSchedulerProfile = \<lparr>sp_filters = [], sp_scorers = [], sp_picker = None\<rparr>"

definition WithFilters :: "filter_fn list \<Rightarrow> schedulerProfile \<Rightarrow> schedulerProfile" where
  "WithFilters fs p = p\<lparr>sp_filters := fs\<rparr>"

definition WithScorers :: "(score_fn \<times> real) list \<Rightarrow> schedulerProfile \<Rightarrow> schedulerProfile" where
  "WithScorers ss p = p\<lparr>sp_scorers := ss\<rparr>"

definition WithPicker :: "picker_fn \<Rightarrow> schedulerProfile \<Rightarrow> schedulerProfile" where
  "WithPicker pk p = p\<lparr>sp_picker := Some pk\<rparr>"

text \<open>A plugin object as \<open>AddPlugins\<close> sees it: which interfaces it implements, and its weight.\<close>

record plugin_object =
  po_weighted :: "(score_fn \<times> real) option"
  po_scorer :: "score_fn option"
  po_filter :: "filter_fn option"
  po_picker :: "picker_fn option"

fun AddPlugins :: "plugin_object list \<Rightarrow> schedulerProfile \<Rightarrow> string option \<times> schedulerProfile" where
  "AddPlugins [] p = (None, p)"
| "AddPlugins (po # pos) p =
     (if po_weighted po = None \<and> po_scorer po \<noteq> None
      then (Some ''failed to register scorer without a weight'', p)
      else let p1 = (case po_weighted po of Some ws \<Rightarrow> p\<lparr>sp_scorers := sp_scorers p @ [ws]\<rparr> | None \<Rightarrow> p);
               p2 = (case po_filter po of Some f \<Rightarrow> p1\<lparr>sp_filters := sp_filters p1 @ [f]\<rparr> | None \<Rightarrow> p1)
           in (case po_picker po of
                 None \<Rightarrow> AddPlugins pos p2
               | Some pk \<Rightarrow>
                   if sp_picker p2 \<noteq> None then (Some ''already have a registered picker plugin'', p2)
                   else AddPlugins pos (p2\<lparr>sp_picker := Some pk\<rparr>)))"

fun runFilterPlugins :: "filter_fn list \<Rightarrow> llm_request \<Rightarrow> endpoint list \<Rightarrow> endpoint list option" where
  "runFilterPlugins [] req endpoints = Some endpoints"
| "runFilterPlugins (f # fs) req endpoints =
     (case f req endpoints of
        None \<Rightarrow> None
      | Some filtered \<Rightarrow> if length filtered = 0 then Some filtered else runFilterPlugins fs req filtered)"

definition enforceScoreRange :: "real \<Rightarrow> real" where
  "enforceScoreRange score = (if score < 0 then 0 else if score > 1 then 1 else score)"

definition add_score :: "real \<Rightarrow> endpoint \<times> real \<Rightarrow> score_map \<Rightarrow> score_map" where
  "add_score weight = (\<lambda>(e, score) m.
     AList.update e ((case map_of m e of Some x \<Rightarrow> x | None \<Rightarrow> 0) + enforceScoreRange score * weight) m)"

fun add_scores :: "(score_fn \<times> real) list \<Rightarrow> llm_request \<Rightarrow> endpoint list \<Rightarrow> score_map \<Rightarrow> score_map option" where
  "add_scores [] req endpoints m = Some m"
| "add_scores ((scorer, weight) # ss) req endpoints m =
     (case scorer req endpoints of
        None \<Rightarrow> None
      | Some scores \<Rightarrow>
          (case with_metadata (map fst scores) (fold (add_score weight) scores m) of
             None \<Rightarrow> None
           | Some m1 \<Rightarrow> add_scores ss req endpoints m1))"

definition runScorerPlugins :: "(score_fn \<times> real) list \<Rightarrow> llm_request \<Rightarrow> endpoint list \<Rightarrow> score_map option" where
  "runScorerPlugins scorers req endpoints = add_scores scorers req endpoints (score_each (\<lambda>_. 0) endpoints)"

definition runPickerPlugin :: "picker_fn option \<Rightarrow> (nat \<Rightarrow> nat) \<Rightarrow> score_map \<Rightarrow> profileRunResult option" where
  "runPickerPlugin picker range_order weightedScorePerEndpoint =
     map_option (\<lambda>pick. pick (map (\<lambda>(e, score). \<lparr>se_Endpoint = e, se_Score = score\<rparr>)
                                (Shuffle range_order weightedScorePerEndpoint))) picker"

text \<open>\<open>Inl\<close> is the error that no endpoint is left.\<close>

definition profile_Run ::
  "schedulerProfile \<Rightarrow> (nat \<Rightarrow> nat) \<Rightarrow> llm_request \<Rightarrow> endpoint list \<Rightarrow> (string + profileRunResult) option" where
  "profile_Run p range_order req candidateEndpoints =
     (case runFilterPlugins (sp_filters p) req candidateEndpoints of
        None \<Rightarrow> None
      | Some endpoints \<Rightarrow>
          if length endpoints = 0 then Some (Inl ''no endpoints available for the given request'')
          else case runScorerPlugins (sp_scorers p) req endpoints of
            None \<Rightarrow> None
          | Some m \<Rightarrow> map_option Inr (runPickerPlugin (sp_picker p) range_order m))"

subsection \<open>The scheduler (scheduler.go)\<close>

type_synonym run_results = "(string \<times> profileRunResult option) list"
type_synonym profile_fn = "llm_request \<Rightarrow> endpoint list \<Rightarrow> (string + profileRunResult) option"

record profileHandler =
  ph_Pick :: "llm_request \<Rightarrow> (string \<times> profile_fn) list \<Rightarrow> run_results \<Rightarrow> (string \<times> profile_fn) list"
  ph_ProcessResults :: "llm_request \<Rightarrow> run_results \<Rightarrow> string + schedulingResult"

record scheduler =
  sch_profileHandler :: profileHandler
  sch_profiles :: "(string \<times> profile_fn) list"

fun run_profiles :: "(string \<times> profile_fn) list \<Rightarrow> llm_request \<Rightarrow> endpoint list \<Rightarrow> run_results \<Rightarrow> run_results option" where
  "run_profiles [] req eps results = Some results"
| "run_profiles ((name, run) # ps) req eps results =
     (case run req eps of
        None \<Rightarrow> None
      | Some (Inl err) \<Rightarrow> run_profiles ps req eps (AList.update name None results)
      | Some (Inr r) \<Rightarrow> run_profiles ps req eps (AList.update name (Some r) results))"

text \<open>
  The loop runs until the handler picks nothing. \<open>None\<close> is a loop that never ends, \<open>Some None\<close> a panic.
\<close>

partial_function (option) schedule_loop ::
  "scheduler \<Rightarrow> llm_request \<Rightarrow> endpoint list \<Rightarrow> run_results \<Rightarrow> run_results option option" where
  "schedule_loop s req eps results =
     (let picked = ph_Pick (sch_profileHandler s) req (sch_profiles s) results
      in if length picked = 0 then Some (Some results)
         else case run_profiles picked req eps results of
           None \<Rightarrow> Some None
         | Some results1 \<Rightarrow> schedule_loop s req eps results1)"

definition Schedule :: "scheduler \<Rightarrow> llm_request \<Rightarrow> endpoint list \<Rightarrow> (string + schedulingResult) option option" where
  "Schedule s req candidateEndpoints =
     (case schedule_loop s req candidateEndpoints [] of
        None \<Rightarrow> None
      | Some None \<Rightarrow> Some None
      | Some (Some results) \<Rightarrow>
          Some (Some (if length results = 0 then Inl ''failed to run any scheduler profile for request''
                      else ph_ProcessResults (sch_profileHandler s) req results)))"

definition single_Pick ::
  "llm_request \<Rightarrow> (string \<times> profile_fn) list \<Rightarrow> run_results \<Rightarrow> (string \<times> profile_fn) list" where
  "single_Pick req profiles profileResults =
     (if length profiles = length profileResults then [] else profiles)"

definition single_ProcessResults :: "llm_request \<Rightarrow> run_results \<Rightarrow> string + schedulingResult" where
  "single_ProcessResults req profileResults =
     (if length profileResults \<noteq> 1
      then Inl ''single profile handler is intended to be used with a single profile, failed to process multiple profiles''
      else let singleProfileName = fst (hd profileResults)
           in if map_of profileResults singleProfileName = Some None
              then Inl (''failed to run scheduler profile '' @ singleProfileName)
              else Inr \<lparr>ProfileResults = profileResults, PrimaryProfileName = singleProfileName\<rparr>)"

definition SingleProfileHandler :: profileHandler where
  "SingleProfileHandler = \<lparr>ph_Pick = single_Pick, ph_ProcessResults = single_ProcessResults\<rparr>"

end
