(* ===== verification/Scheduling_Props.thy ===== *)
theory Scheduling_Props
  imports Scheduling
begin

text \<open>
  Correctness of the scheduler. Filters and scorers are interfaces: the locales \<open>scorer\<close> and
  \<open>filter_plugin\<close> state what a profile relies on, and are interpreted for every scorer and filter
  of the repository. The properties follow for profiles made of them.
\<close>

subsection \<open>Shuffling and sorting\<close>

lemma fold_swaps:
  assumes "\<forall>i \<in> set is. i < length xs \<and> j i \<le> i"
  shows "mset (fold (\<lambda>i. list_swap i (j i)) is xs) = mset xs"
  using assms
proof (induction "is" arbitrary: xs)
  case (Cons i "is")
  then have "mset (list_swap i (j i) xs) = mset xs" by (intro mset_list_swap) auto
  then show ?case using Cons by simp
qed simp

lemma mset_Shuffle [simp]: "mset (Shuffle draw xs) = mset xs"
  unfolding Shuffle_def by (rule fold_swaps) (auto simp: mod_Suc_le_divisor)

lemma set_Shuffle [simp]: "set (Shuffle draw xs) = set xs"
  by (metis mset_Shuffle set_mset_mset)

lemma length_Shuffle [simp]: "length (Shuffle draw xs) = length xs"
  by (metis mset_Shuffle size_mset)

lemma mset_insert_stable [simp]: "mset (insert_stable cmp x ys) = add_mset x (mset ys)"
  by (induction ys) auto

lemma mset_SortStableFunc [simp]: "mset (SortStableFunc cmp xs) = mset xs"
  by (induction xs) (auto simp: SortStableFunc_def)

lemma length_SortStableFunc [simp]: "length (SortStableFunc cmp xs) = length xs"
  by (metis mset_SortStableFunc size_mset)

lemma set_SortStableFunc [simp]: "set (SortStableFunc cmp xs) = set xs"
  by (metis mset_SortStableFunc set_mset_mset)

lemma set_insert_stable [simp]: "set (insert_stable cmp x ys) = insert x (set ys)"
  by (metis mset_insert_stable set_mset_add_mset_insert set_mset_mset)

lemma insert_stable_sorted:
  "sorted_wrt (\<lambda>a b. se_Score b \<le> se_Score a) ys \<Longrightarrow>
   sorted_wrt (\<lambda>a b. se_Score b \<le> se_Score a) (insert_stable cmp_score x ys)"
  by (induction ys) (auto simp: cmp_score_def split: if_splits)

lemma SortStableFunc_sorted:
  "sorted_wrt (\<lambda>a b. se_Score b \<le> se_Score a) (SortStableFunc cmp_score xs)"
  by (induction xs) (auto simp: SortStableFunc_def insert_stable_sorted)

subsection \<open>Score maps\<close>

lemma score_each_map_of: "map_of (score_each f es) e = (if e \<in> set es then Some (f e) else None)"
proof -
  have "map_of (fold (\<lambda>e. AList.update e (f e)) es m) e = (if e \<in> set es then Some (f e) else map_of m e)" for m
    by (induction es arbitrary: m) (auto simp: update_conv')
  then show ?thesis by (simp add: score_each_def)
qed

lemma distinct_fold_update: "distinct (map fst m) \<Longrightarrow> distinct (map fst (fold (\<lambda>e. AList.update e (f e)) es m))"
  by (induction es arbitrary: m) (auto simp: distinct_update)

lemma score_each_distinct [simp]: "distinct (map fst (score_each f es))"
  by (simp add: score_each_def distinct_fold_update)

lemma score_each_keys [simp]: "fst ` set (score_each f es) = set es"
proof -
  have "e \<in> fst ` set (score_each f es) \<longleftrightarrow> e \<in> set es" for e
    using score_each_map_of [of f es e] map_of_eq_None_iff [of "score_each f es" e] by (auto split: if_splits)
  then show ?thesis by blast
qed

lemma enforceScoreRange_bounds: "0 \<le> enforceScoreRange x" "enforceScoreRange x \<le> 1"
  by (auto simp: enforceScoreRange_def)

lemma add_score_map_of:
  "map_of (add_score w (e, x) m) e' =
     (if e' = e then Some ((case map_of m e of Some y \<Rightarrow> y | None \<Rightarrow> 0) + enforceScoreRange x * w) else map_of m e')"
  by (auto simp: add_score_def update_conv')

lemma add_score_distinct: "distinct (map fst m) \<Longrightarrow> distinct (map fst (add_score w es m))"
  by (cases es) (simp add: add_score_def distinct_update)

lemma fold_add_score_distinct: "distinct (map fst m) \<Longrightarrow> distinct (map fst (fold (add_score w) xs m))"
  by (induction xs arbitrary: m) (auto simp: add_score_distinct)

lemma fold_add_score:
  assumes "distinct (map fst xs)" "fst ` set xs \<subseteq> dom (map_of m)"
  shows "map_of (fold (add_score w) xs m) e =
    map_option (\<lambda>y. y + (case map_of xs e of Some x \<Rightarrow> enforceScoreRange x * w | None \<Rightarrow> 0)) (map_of m e)"
  using assms
proof (induction xs arbitrary: m)
  case Nil
  show ?case by (cases "map_of m e") auto
next
  case (Cons ex xs)
  obtain e1 x where ex: "ex = (e1, x)" by (cases ex)
  obtain y where y: "map_of m e1 = Some y" using Cons.prems(2) ex by auto
  have dm: "dom (map_of (add_score w ex m)) = dom (map_of m)"
    using y by (auto simp: ex add_score_map_of dom_def)
  have "map_of (fold (add_score w) xs (add_score w ex m)) e =
    map_option (\<lambda>y. y + (case map_of xs e of Some x \<Rightarrow> enforceScoreRange x * w | None \<Rightarrow> 0)) (map_of (add_score w ex m) e)"
    using Cons.prems by (intro Cons.IH) (auto simp: dm)
  moreover have "map_of xs e1 = None" using Cons.prems(1) ex by (simp add: map_of_eq_None_iff)
  ultimately show ?case using y by (cases "map_of m e") (auto simp: ex add_score_map_of)
qed

subsection \<open>The contract of a scorer\<close>

locale scorer =
  fixes score :: score_fn
  assumes covers: "score req eps = Some m \<Longrightarrow> distinct (map fst m) \<and> fst ` set m = set eps"
begin

lemma accumulate:
  assumes "score req eps = Some xs" "dom (map_of m) = set eps"
  shows "map_of (fold (add_score w) xs m) e =
    map_option (\<lambda>y. y + (case map_of xs e of Some x \<Rightarrow> enforceScoreRange x * w | None \<Rightarrow> 0)) (map_of m e)"
  using covers [OF assms(1)] assms(2) by (intro fold_add_score) auto

end

lemma scorer_with_metrics:
  "with_metrics eps (score_each f es) = Some m \<Longrightarrow> distinct (map fst m) \<and> fst ` set m = set es"
  by (clarsimp simp: with_metrics_def split: if_splits)

interpretation kvcache: scorer kvcache_Score
  by unfold_locales (simp add: kvcache_Score_def scorer_with_metrics)

interpretation queue: scorer queue_Score
  by unfold_locales (simp add: queue_Score_def Let_def scorer_with_metrics)

interpretation running: scorer running_Score
  by unfold_locales (simp add: running_Score_def Let_def scorer_with_metrics)

interpretation tokenload: scorer "tokenload_Score t" for t
  by unfold_locales (clarsimp simp: tokenload_Score_def with_metadata_def split: if_splits)

interpretation lora: scorer lora_Score
  by unfold_locales (simp add: lora_Score_def scorer_with_metrics)

interpretation prefix: scorer prefix_Score
  by unfold_locales (clarsimp simp: prefix_Score_def)

definition weighted_score :: "(score_fn \<times> real) list \<Rightarrow> llm_request \<Rightarrow> endpoint list \<Rightarrow> endpoint \<Rightarrow> real" where
  "weighted_score ss req eps e =
     (\<Sum>(sc, w)\<leftarrow>ss. case sc req eps of
        Some m \<Rightarrow> (case map_of m e of Some x \<Rightarrow> enforceScoreRange x * w | None \<Rightarrow> 0)
      | None \<Rightarrow> 0)"

lemma weighted_score_simps [simp]:
  "weighted_score [] req eps e = 0"
  "weighted_score ((sc, w) # ss) req eps e =
     (case sc req eps of Some m \<Rightarrow> (case map_of m e of Some x \<Rightarrow> enforceScoreRange x * w | None \<Rightarrow> 0) | None \<Rightarrow> 0) +
     weighted_score ss req eps e"
  by (simp_all add: weighted_score_def)

lemma add_scores_map_of:
  assumes "add_scores ss req eps m = Some m'" "\<forall>(sc, w) \<in> set ss. scorer sc" "dom (map_of m) = set eps"
  shows "map_of m' e = map_option (\<lambda>y. y + weighted_score ss req eps e) (map_of m e)"
  using assms
proof (induction ss arbitrary: m)
  case Nil
  then show ?case by (simp add: option.map_ident)
next
  case (Cons p ss)
  obtain sc w where p: "p = (sc, w)" by (cases p)
  obtain xs where xs: "sc req eps = Some xs" using Cons.prems(1) p by (auto split: option.splits)
  have md: "with_metadata (map fst xs) (fold (add_score w) xs m) = Some (fold (add_score w) xs m)"
    using Cons.prems(1) by (auto simp: p xs with_metadata_def split: if_splits)
  have sc: "scorer sc" using Cons.prems(2) p by auto
  note acc = scorer.accumulate [OF sc xs Cons.prems(3), of w]
  have "dom (map_of (fold (add_score w) xs m)) = dom (map_of m)" by (auto simp: dom_def acc)
  then have "map_of m' e = map_option (\<lambda>y. y + weighted_score ss req eps e) (map_of (fold (add_score w) xs m) e)"
    using Cons.IH [of "fold (add_score w) xs m"] Cons.prems p xs md by simp
  then show ?case by (cases "map_of m e") (auto simp: acc p xs)
qed

lemma add_scores_distinct:
  "add_scores ss req eps m = Some m' \<Longrightarrow> distinct (map fst m) \<Longrightarrow> distinct (map fst m')"
  by (induction ss req eps m rule: add_scores.induct) (auto simp: fold_add_score_distinct with_metadata_def split: option.splits if_splits)

lemma runScorerPlugins_map_of:
  assumes "runScorerPlugins ss req eps = Some m" "\<forall>(sc, w) \<in> set ss. scorer sc"
  shows "map_of m e = (if e \<in> set eps then Some (weighted_score ss req eps e) else None)"
    "distinct (map fst m)"
proof -
  have "dom (map_of (score_each (\<lambda>_. 0) eps)) = set eps" by (auto simp: dom_def score_each_map_of)
  then show "map_of m e = (if e \<in> set eps then Some (weighted_score ss req eps e) else None)"
    using add_scores_map_of [OF assms(1) [unfolded runScorerPlugins_def] assms(2)] by (simp add: score_each_map_of)
  show "distinct (map fst m)"
    using add_scores_distinct [OF assms(1) [unfolded runScorerPlugins_def]] by simp
qed

lemma set_scored:
  assumes "runScorerPlugins ss req eps = Some m" "\<forall>(sc, w) \<in> set ss. scorer sc"
  shows "set m = (\<lambda>e. (e, weighted_score ss req eps e)) ` set eps"
proof -
  have "(e, x) \<in> set m \<longleftrightarrow> e \<in> set eps \<and> x = weighted_score ss req eps e" for e x
    using runScorerPlugins_map_of(1) [OF assms] map_of_eq_Some_iff [OF runScorerPlugins_map_of(2) [OF assms], of e x]
    by (auto split: if_splits)
  then show ?thesis by auto
qed

subsection \<open>The contract of a filter\<close>

text \<open>A filter keeps some of the endpoints, and at least one of them if there is one.\<close>

locale filter_plugin =
  fixes filt :: filter_fn
  assumes keeps_some: "filt req eps = Some r \<Longrightarrow> set r \<subseteq> set eps \<and> (eps \<noteq> [] \<longrightarrow> r \<noteq> [])"

lemma runFilterPlugins_keeps:
  assumes "runFilterPlugins fs req eps = Some r" "\<forall>f \<in> set fs. filter_plugin f"
  shows "set r \<subseteq> set eps \<and> (eps \<noteq> [] \<longrightarrow> r \<noteq> [])"
  using assms
proof (induction fs req eps rule: runFilterPlugins.induct)
  case (2 f fs req eps)
  obtain r1 where r1: "f req eps = Some r1" using 2(2) by (auto split: option.splits)
  have "set r1 \<subseteq> set eps \<and> (eps \<noteq> [] \<longrightarrow> r1 \<noteq> [])"
    using filter_plugin.keeps_some [of f req eps r1] r1 2(3) by simp
  then show ?case using 2 r1 by (auto split: if_splits)
qed auto

lemma set_filter_zip_subset: "set (map fst (filter P (zip xs ys))) \<subseteq> set xs"
  by (auto dest: set_zip_leftD)

lemma length_those: "those xs = Some ys \<Longrightarrow> length ys = length xs"
  by (induction xs arbitrary: ys) (auto split: option.splits)

interpretation affinity: filter_plugin "affinity_Filter c u" for c u
proof unfold_locales
  fix req eps r
  assume r: "affinity_Filter c u req eps = Some r"
  show "set r \<subseteq> set eps \<and> (eps \<noteq> [] \<longrightarrow> r \<noteq> [])"
  proof (cases "r = eps")
    case False
    then obtain scores where "r = map fst (filter (\<lambda>(ep, sc). AffinityThreshold c \<le> sc) (zip eps scores))" "r \<noteq> []"
      using r by (auto simp: affinity_Filter_def Let_def split: if_splits option.splits)
    then show ?thesis using set_filter_zip_subset by metis
  qed simp
qed

interpretation headroom: filter_plugin "headroom_Filter eps0 u" for eps0 u
proof unfold_locales
  fix req eps r
  assume r: "headroom_Filter eps0 u req eps = Some r"
  show "set r \<subseteq> set eps \<and> (eps \<noteq> [] \<longrightarrow> r \<noteq> [])"
  proof (cases "r = eps")
    case False
    define tier where "tier ts t = map fst (filter (\<lambda>(ep, t'). t' = t) (zip eps ts))" for ts :: "slo_tier list" and t
    have sub: "set (tier ts t) \<subseteq> set eps" for ts t unfolding tier_def by (rule set_filter_zip_subset)
    obtain ts where "r = tier ts PositiveTier \<or> r = tier ts NegativeTier @ tier ts NoPrediction" "r \<noteq> []"
      using r False by (auto simp: headroom_Filter_def Let_def tier_def [symmetric] split: if_splits option.splits)
    then show ?thesis using sub [of ts PositiveTier] sub [of ts NegativeTier] sub [of ts NoPrediction] by auto
  qed simp
qed

subsection \<open>Pickers\<close>

lemma max_score_Pick_spec:
  "\<exists>ses'. mset ses' = mset ses \<and> sorted_wrt (\<lambda>a b. se_Score b \<le> se_Score a) ses' \<and>
          TargetEndpoints (max_score_Pick k draw ses) = map se_Endpoint (take k ses')"
  by (intro exI [of _ "SortStableFunc cmp_score (Shuffle draw ses)"])
    (auto simp: max_score_Pick_def targets_def Let_def SortStableFunc_sorted)

lemma random_Pick_spec:
  "\<exists>ses'. mset ses' = mset ses \<and> TargetEndpoints (random_Pick k draw ses) = map se_Endpoint (take k ses')"
  by (intro exI [of _ "Shuffle draw ses"]) (auto simp: random_Pick_def targets_def Let_def)

lemma picker_limit_pos: "0 < picker_limit n"
  by (simp add: picker_limit_def DefaultMaxNumOfEndpoints_def)

subsection \<open>A profile with the maximum score picker\<close>

definition repository_scorers :: "score_fn set" where
  "repository_scorers = {kvcache_Score, queue_Score, running_Score, lora_Score, prefix_Score} \<union> range tokenload_Score"

definition repository_filters :: "filter_fn set" where
  "repository_filters = range (\<lambda>(c, u). affinity_Filter c u) \<union> range (\<lambda>(e, u). headroom_Filter e u)"

lemma repository_scorer: "sc \<in> repository_scorers \<Longrightarrow> scorer sc"
  using kvcache.scorer_axioms queue.scorer_axioms running.scorer_axioms lora.scorer_axioms
    prefix.scorer_axioms tokenload.scorer_axioms
  by (auto simp: repository_scorers_def)

lemma repository_filter: "f \<in> repository_filters \<Longrightarrow> filter_plugin f"
  using affinity.filter_plugin_axioms headroom.filter_plugin_axioms by (auto simp: repository_filters_def)

lemma repository_scorer_total:
  "sc \<in> repository_scorers \<Longrightarrow> \<forall>e \<in> set eps. GetMetrics e \<noteq> None \<and> GetMetadata e \<noteq> None \<Longrightarrow> \<exists>m. sc req eps = Some m"
  by (auto simp: repository_scorers_def kvcache_Score_def queue_Score_def running_Score_def lora_Score_def
      prefix_Score_def tokenload_Score_def with_metrics_def with_metadata_def list_all_iff Let_def)

lemma add_scores_total:
  assumes "\<forall>(sc, w) \<in> set ss. sc \<in> repository_scorers" "\<forall>e \<in> set eps. GetMetrics e \<noteq> None \<and> GetMetadata e \<noteq> None"
  shows "\<exists>m'. add_scores ss req eps m = Some m'"
  using assms(1)
proof (induction ss arbitrary: m)
  case (Cons p ss)
  obtain sc w where p: "p = (sc, w)" by (cases p)
  then obtain xs where xs: "sc req eps = Some xs"
    using repository_scorer_total [OF _ assms(2), of sc req] Cons.prems by auto
  have "fst ` set xs = set eps"
    using scorer.covers [of sc req eps xs] repository_scorer [of sc] xs Cons.prems p by auto
  then have "list_all (\<lambda>e. GetMetadata e \<noteq> None) (map fst xs)" using assms(2) by (simp add: list.pred_set)
  then show ?case using Cons p xs by (simp add: with_metadata_def)
qed simp

lemma best_of_scored:
  assumes m: "set m = (\<lambda>e. (e, f e)) ` set eps" "distinct (map fst m)"
    and ses: "mset ses = mset (map (\<lambda>(e, x). \<lparr>se_Endpoint = e, se_Score = x\<rparr>) m)"
      "sorted_wrt (\<lambda>a b. se_Score b \<le> se_Score a) ses"
    and T: "T = map se_Endpoint (take k ses)"
  shows "set T \<subseteq> set eps" "distinct T" "length T = min k (card (set eps))"
    "sorted_wrt (\<lambda>a b. f b \<le> f a) T" "\<And>e e'. e \<in> set T \<Longrightarrow> e' \<in> set eps - set T \<Longrightarrow> f e' \<le> f e"
proof -
  have set_ses: "set ses = (\<lambda>e. \<lparr>se_Endpoint = e, se_Score = f e\<rparr>) ` set eps"
  proof -
    have "set ses = (\<lambda>(e, x). \<lparr>se_Endpoint = e, se_Score = x\<rparr>) ` set m"
      using ses(1) by (metis list.set_map set_mset_mset)
    then show ?thesis using m(1) by force
  qed
  have eps: "mset (map se_Endpoint ses) = mset (map fst m)"
    using ses(1) by (simp add: image_mset.compositionality o_def split_beta)
  then have dist: "distinct (map se_Endpoint ses)" using m(2) by (metis mset_eq_imp_distinct_iff)
  have keys: "set (map se_Endpoint ses) = set eps" using set_ses by (auto simp: image_image)
  have sc: "se_Score x = f (se_Endpoint x)" if "x \<in> set ses" for x using that set_ses by auto
  show "set T \<subseteq> set eps" using keys T by (metis image_mono list.set_map set_take_subset)
  show "distinct T" unfolding T take_map [symmetric] using dist by (rule distinct_take)
  have "length ses = card (set eps)" using distinct_card [OF dist] keys by simp
  then show "length T = min k (card (set eps))" by (simp add: T min.commute)
  have "sorted_wrt (\<lambda>a b. f (se_Endpoint b) \<le> f (se_Endpoint a)) ses"
    using ses(2) by (rule sorted_wrt_mono_rel [rotated]) (simp add: sc)
  then show srt: "sorted_wrt (\<lambda>a b. f b \<le> f a) T"
    unfolding T by (simp add: sorted_wrt_map sorted_wrt_take)
  fix e e' assume e: "e \<in> set T" and e': "e' \<in> set eps - set T"
  have split: "map se_Endpoint ses = T @ map se_Endpoint (drop k ses)"
    by (metis T append_take_drop_id map_append)
  have all: "sorted_wrt (\<lambda>a b. f b \<le> f a) (map se_Endpoint ses)"
    using \<open>sorted_wrt (\<lambda>a b. f (se_Endpoint b) \<le> f (se_Endpoint a)) ses\<close> by (simp add: sorted_wrt_map)
  have "e' \<in> set (map se_Endpoint (drop k ses))" using e' keys split by (metis DiffE Un_iff set_append)
  then show "f e' \<le> f e" using e all unfolding split sorted_wrt_append by blast
qed

lemma profile_Run_max_score:
  assumes flt: "runFilterPlugins (sp_filters p) req cands = Some eps" "eps \<noteq> []"
    and sc: "runScorerPlugins (sp_scorers p) req eps = Some m" "\<forall>(sc, w) \<in> set (sp_scorers p). scorer sc"
    and pk: "sp_picker p = Some (max_score_Pick k draw)"
  shows "\<exists>r ses. profile_Run p order req cands = Some (Inr r) \<and>
    mset ses = mset (map (\<lambda>(e, x). \<lparr>se_Endpoint = e, se_Score = x\<rparr>) m) \<and>
    sorted_wrt (\<lambda>a b. se_Score b \<le> se_Score a) ses \<and> TargetEndpoints r = map se_Endpoint (take k ses)"
proof -
  let ?ses = "map (\<lambda>(e, score). \<lparr>se_Endpoint = e, se_Score = score\<rparr>) (Shuffle order m)"
  have "profile_Run p order req cands = Some (Inr (max_score_Pick k draw ?ses))"
    using flt sc pk by (simp add: profile_Run_def runPickerPlugin_def)
  moreover obtain ses where "mset ses = mset ?ses" "sorted_wrt (\<lambda>a b. se_Score b \<le> se_Score a) ses"
    "TargetEndpoints (max_score_Pick k draw ?ses) = map se_Endpoint (take k ses)"
    using max_score_Pick_spec [of ?ses k draw] by auto
  ultimately show ?thesis by (intro exI [of _ "max_score_Pick k draw ?ses"] exI [of _ ses]) simp
qed


definition sample_endpoint :: "nat \<Rightarrow> int \<Rightarrow> endpoint" where
  "sample_endpoint p q = \<lparr>ep_ptr = p,
     GetMetadata = Some \<lparr>md_NamespacedName = \<lparr>nn_Name = ''e'', nn_Namespace = ''n''\<rparr>, md_PodName = ''p'',
       md_Address = ''a'', md_Port = ''1'', md_MetricsHost = [], md_Labels = []\<rparr>,
     GetMetrics = Some (NewMetrics\<lparr>mt_WaitingQueueSize := q\<rparr>),
     GetAttributes = []\<rparr>"

definition sample_profile :: schedulerProfile where
  "sample_profile = WithPicker (max_score_Pick (picker_limit 0) id)
     (WithScorers [(queue_Score, 1)] (WithFilters [headroom_Filter 0 0] NewSchedulerProfile))"

definition sample_llm_request :: llm_request where
  "sample_llm_request = \<lparr>lr_RequestId = ''r'', lr_TargetModel = ''m'', lr_Body = None, lr_Headers = [],
     lr_Priority = 0, lr_RequestSizeBytes = 0\<rparr>"


subsection \<open>Queue sizes\<close>

lemma wrap64_id: "- (2 ^ 63) \<le> i \<Longrightarrow> i < 2 ^ 63 \<Longrightarrow> wrap64 i = i"
  by (simp add: wrap64_def sint64_of_int)

lemma fold_min_max:
  assumes "fold (min_max_step f) eps (a, b) = (mn, mx)"
  shows "mn \<le> a \<and> b \<le> mx \<and> (\<forall>e \<in> set eps. mn \<le> f (the (GetMetrics e)) \<and> f (the (GetMetrics e)) \<le> mx) \<and>
    (mn = a \<or> (\<exists>e \<in> set eps. mn = f (the (GetMetrics e)))) \<and>
    (mx = b \<or> (\<exists>e \<in> set eps. mx = f (the (GetMetrics e))))"
  using assms
proof (induction eps arbitrary: a b)
  case (Cons e eps)
  let ?q = "f (the (GetMetrics e))"
  have "min_max_step f e (a, b) = (min ?q a, max ?q b)" by (auto simp: min_max_step_def Let_def)
  then have "fold (min_max_step f) eps (min ?q a, max ?q b) = (mn, mx)" using Cons.prems by simp
  from Cons.IH [OF this] show ?case by (auto simp: min_def max_def split: if_splits)
qed simp

definition sane_queues :: "(metrics \<Rightarrow> int) \<Rightarrow> endpoint list \<Rightarrow> bool" where
  "sane_queues f eps \<longleftrightarrow> (\<forall>e \<in> set eps. \<exists>m. GetMetrics e = Some m \<and> 0 \<le> f m \<and> f m \<le> MaxInt)"

lemma endpointScoreFunc_order:
  assumes "sane_queues f eps" "fold (min_max_step f) eps (MaxInt, MinInt) = mm" "e \<in> set eps" "e' \<in> set eps"
  shows "endpointScoreFunc f mm e \<le> endpointScoreFunc f mm e' \<longleftrightarrow>
      (\<forall>x \<in> set eps. \<forall>y \<in> set eps. f (the (GetMetrics x)) = f (the (GetMetrics y))) \<or>
      f (the (GetMetrics e')) \<le> f (the (GetMetrics e))"
    "0 \<le> endpointScoreFunc f mm e" "endpointScoreFunc f mm e \<le> 1"
proof -
  define q where "q x = f (the (GetMetrics x))" for x :: endpoint
  obtain mn mx where mm: "mm = (mn, mx)" by (cases mm)
  have sane: "0 \<le> q x \<and> q x \<le> MaxInt" if "x \<in> set eps" for x
    using assms(1) that by (auto simp: sane_queues_def q_def)
  note fm = fold_min_max [OF assms(2) [unfolded mm], folded q_def]
  have bnd: "mn \<le> q x" "q x \<le> mx" if "x \<in> set eps" for x using fm that by auto
  have att: "\<exists>x \<in> set eps. mn = q x"
  proof (cases "mn = MaxInt")
    case True
    then show ?thesis using bnd(1) [OF assms(3)] sane [OF assms(3)] assms(3) by (intro bexI [of _ e]) auto
  qed (use fm in blast)
  moreover have "mx \<noteq> MinInt" using bnd(2) [OF assms(3)] sane [OF assms(3)] by (simp add: MinInt_def)
  ultimately have att: "\<exists>x \<in> set eps. mn = q x" "\<exists>x \<in> set eps. mx = q x" using fm by blast+
  have r: "0 \<le> mn" "mx \<le> MaxInt" using att sane by auto
  have same: "mx = mn \<longleftrightarrow> (\<forall>x \<in> set eps. \<forall>y \<in> set eps. q x = q y)"
    using att bnd by (metis order_antisym)
  have val: "endpointScoreFunc f mm x = (if mx = mn then 1 else real_of_int (mx - q x) / real_of_int (mx - mn))"
    if "x \<in> set eps" for x
    using bnd [OF that] r by (simp add: endpointScoreFunc_def mm q_def wrap64_id MaxInt_def)
  have pos: "real_of_int (mx - mn) > 0" if "mx \<noteq> mn" using that bnd [OF assms(3)] by linarith
  show "endpointScoreFunc f mm e \<le> endpointScoreFunc f mm e' \<longleftrightarrow>
      (\<forall>x \<in> set eps. \<forall>y \<in> set eps. f (the (GetMetrics x)) = f (the (GetMetrics y))) \<or>
      f (the (GetMetrics e')) \<le> f (the (GetMetrics e))"
    using val [OF assms(3)] val [OF assms(4)] pos unfolding q_def [symmetric] same [symmetric]
    by (auto simp: divide_le_cancel)
  show "0 \<le> endpointScoreFunc f mm e" "endpointScoreFunc f mm e \<le> 1"
    using val [OF assms(3)] pos bnd [OF assms(3)] by (auto simp: divide_le_eq_1 zero_le_divide_iff)
qed

text \<open>
  C29: The queue scorer prefers short queues. With the queue sizes a model server can report, its
  scores lie between 0 and 1, and of two endpoints the one with the shorter queue has the
  higher score; all scores are 1 when all queues are equally long.
\<close>

theorem queue_scorer_prefers_short:
  assumes "sane_queues mt_WaitingQueueSize eps" "queue_Score req eps = Some m"
    and "e \<in> set eps" "e' \<in> set eps"
  shows "\<exists>x x'. map_of m e = Some x \<and> map_of m e' = Some x' \<and> 0 \<le> x \<and> x \<le> 1 \<and>
    (x \<le> x' \<longleftrightarrow>
      (\<forall>a \<in> set eps. \<forall>b \<in> set eps. mt_WaitingQueueSize (the (GetMetrics a)) = mt_WaitingQueueSize (the (GetMetrics b))) \<or>
      mt_WaitingQueueSize (the (GetMetrics e')) \<le> mt_WaitingQueueSize (the (GetMetrics e)))"
proof -
  obtain mm where mm: "fold (min_max_step mt_WaitingQueueSize) eps (MaxInt, MinInt) = mm" by blast
  have "m = score_each (endpointScoreFunc mt_WaitingQueueSize mm) eps"
    using assms(2) mm by (auto simp: queue_Score_def Let_def with_metrics_def split: if_splits)
  then show ?thesis
    using assms(3,4) endpointScoreFunc_order [OF assms(1) mm assms(3,4)] by (simp add: score_each_map_of)
qed

theorem queue_scorer_prefers_short_witness:
  "\<exists>m x x'. queue_Score sample_llm_request [sample_endpoint 1 5, sample_endpoint 2 2] = Some m \<and>
     map_of m (sample_endpoint 1 5) = Some x \<and> map_of m (sample_endpoint 2 2) = Some x' \<and> x \<le> x'"
proof -
  let ?eps = "[sample_endpoint 1 5, sample_endpoint 2 2]"
  obtain m where m: "queue_Score sample_llm_request ?eps = Some m"
    by (simp add: queue_Score_def with_metrics_def sample_endpoint_def Let_def)
  have "sane_queues mt_WaitingQueueSize ?eps" by (simp add: sane_queues_def sample_endpoint_def MaxInt_def)
  then show ?thesis using queue_scorer_prefers_short [OF _ m, of "sample_endpoint 1 5" "sample_endpoint 2 2"] m
    by (auto simp: sample_endpoint_def)
qed

subsection \<open>The scheduler ends\<close>

lemma run_profiles_keys:
  "run_profiles ps req eps res = Some res' \<Longrightarrow> distinct (map fst res) \<Longrightarrow>
   fst ` set res' = fst ` set res \<union> fst ` set ps \<and> distinct (map fst res')"
proof (induction ps arbitrary: res)
  case (Cons p ps)
  obtain name run where p: "p = (name, run)" by (cases p)
  obtain x where x: "run_profiles ps req eps (AList.update name x res) = Some res'"
    using Cons.prems(1) by (auto simp: p split: option.splits sum.splits)
  have "distinct (map fst (AList.update name x res))" using Cons.prems(2) by (simp add: distinct_update)
  from Cons.IH [OF x this] show ?case by (simp add: p dom_update)
qed simp

lemma keys_length:
  assumes "distinct (map fst xs)" "distinct (map fst ys)" "fst ` set xs = fst ` set ys"
  shows "length xs = length ys"
  by (metis assms distinct_card length_map list.set_map)

lemma schedule_loop_single:
  assumes "sch_profileHandler s = SingleProfileHandler" "distinct (map fst (sch_profiles s))"
  shows "schedule_loop s req eps [] = Some (run_profiles (sch_profiles s) req eps [])"
proof (cases "sch_profiles s = []")
  case True
  then show ?thesis using assms
    by (subst schedule_loop.simps) (simp add: SingleProfileHandler_def single_Pick_def)
next
  case False
  have stop: "schedule_loop s req eps res = Some (Some res)" if "length (sch_profiles s) = length res" for res
    using that assms by (subst schedule_loop.simps) (simp add: SingleProfileHandler_def single_Pick_def)
  have "length (sch_profiles s) = length res" if "run_profiles (sch_profiles s) req eps [] = Some res" for res
    using run_profiles_keys [OF that] assms(2) by (intro keys_length) auto
  then show ?thesis using False stop assms(1)
    by (subst schedule_loop.simps) (simp add: SingleProfileHandler_def single_Pick_def split: option.splits)
qed

text \<open>
  C30: With the single profile handler the scheduling loop ends for every set of profiles, after
  one round. If there is one profile, the result of \<open>Schedule\<close> is the result of its run, under
  the name of the profile, and an error of the run is an error of \<open>Schedule\<close>.
\<close>

theorem schedule_terminates:
  assumes "sch_profileHandler s = SingleProfileHandler" "distinct (map fst (sch_profiles s))"
  shows "(\<exists>x. Schedule s req eps = Some x) \<and>
    (\<forall>name run. sch_profiles s = [(name, run)] \<longrightarrow>
       Schedule s req eps = Some (case run req eps of
           None \<Rightarrow> None
         | Some (Inl err) \<Rightarrow> Some (Inl (''failed to run scheduler profile '' @ name))
         | Some (Inr r) \<Rightarrow> Some (Inr \<lparr>ProfileResults = [(name, Some r)], PrimaryProfileName = name\<rparr>)))"
proof -
  have "Schedule s req eps = Some (map_option
      (\<lambda>res. if length res = 0 then Inl ''failed to run any scheduler profile for request''
             else single_ProcessResults req res) (run_profiles (sch_profiles s) req eps []))"
    using schedule_loop_single [OF assms, of req eps] assms(1)
    by (simp add: Schedule_def SingleProfileHandler_def split: option.splits)
  then show ?thesis by (auto simp: single_ProcessResults_def split: option.splits sum.splits)
qed

theorem schedule_terminates_witness:
  "Schedule \<lparr>sch_profileHandler = SingleProfileHandler, sch_profiles = [(''p'', \<lambda>_ _. Some (Inr \<lparr>TargetEndpoints = []\<rparr>))]\<rparr>
     sample_llm_request [] =
   Some (Some (Inr \<lparr>ProfileResults = [(''p'', Some \<lparr>TargetEndpoints = []\<rparr>)], PrimaryProfileName = ''p''\<rparr>))"
  using schedule_terminates [of "\<lparr>sch_profileHandler = SingleProfileHandler,
      sch_profiles = [(''p'', \<lambda>_ _. Some (Inr \<lparr>TargetEndpoints = []\<rparr>))]\<rparr>" sample_llm_request "[]"]
  by simp

end
