(* ===== verification/Datastore.thy ===== *)
theory Datastore
  imports Scheduling_Props Ordering_Policies
begin

text \<open>
  The data store of the endpoint picker: the rules that rewrite model names
  (src/pkg/epp/datastore/modelrewritestore.go), the pool, the objectives and the endpoints
  (src/pkg/epp/datastore/datastore.go), and the part of the data layer that starts and stops the
  collection of an endpoint's data (src/pkg/epp/datalayer/runtime.go).

  Objects of the Kubernetes API are records of the fields the code reads. What the API server or
  the client library answers is an argument: the fetched object, the listed pods, and how
  \<open>labels\<close> compares selectors. \<open>sort.Slice\<close>, which may order equal elements in any way, is an
  argument as well; \<open>sorts_slices\<close> states what it promises.
\<close>

lemma set_update_subset: "x \<in> set (AList.update k v kvs) \<Longrightarrow> x = (k, v) \<or> x \<in> set kvs"
  by (induction kvs) (auto split: if_splits)

subsection \<open>Model rewrite rules (modelrewritestore.go)\<close>

record target_model =
  tm_ModelRewrite :: string
  tm_Weight :: "32 word"

record rewrite_rule =
  rr_Matches :: "string option list"
  rr_Targets :: "target_model list"

record model_rewrite =
  mr_Name :: string
  mr_CreationTimestamp :: gotime
  mr_Rules :: "rewrite_rule list"

record rewriteRuleWithMetadata =
  rm_rule :: rewrite_rule
  rm_createTimestamp :: gotime
  rm_parentRewriteName :: string

record modelRewriteStore =
  genericRules :: "rewriteRuleWithMetadata list"
  rulesByExactModelMatch :: "(string \<times> rewriteRuleWithMetadata list) list"
  allReWrites :: "(string \<times> model_rewrite) list"

definition newModelRewriteStore :: modelRewriteStore where
  "newModelRewriteStore = \<lparr>genericRules = [], rulesByExactModelMatch = [], allReWrites = []\<rparr>"

definition isGeneric :: "rewriteRuleWithMetadata \<Rightarrow> bool" where
  "isGeneric rr \<longleftrightarrow> length (rr_Matches (rm_rule rr)) = 0"

definition exactModels :: "rewriteRuleWithMetadata \<Rightarrow> string list" where
  "exactModels rr = remdups (List.map_filter id (rr_Matches (rm_rule rr)))"

definition parentName :: "rewriteRuleWithMetadata \<Rightarrow> string" where
  "parentName rr = rm_parentRewriteName rr"

definition deleteInternal :: "string \<Rightarrow> modelRewriteStore \<Rightarrow> modelRewriteStore" where
  "deleteInternal n ms =
     (if map_of (allReWrites ms) n = None then ms
      else ms\<lparr>allReWrites := AList.delete n (allReWrites ms),
              genericRules := filter (\<lambda>r. parentName r \<noteq> n) (genericRules ms),
              rulesByExactModelMatch :=
                filter (\<lambda>(model, rs). rs \<noteq> [])
                  (map (\<lambda>(model, rs). (model, filter (\<lambda>r. parentName r \<noteq> n) rs)) (rulesByExactModelMatch ms))\<rparr>)"

definition rule_with_metadata :: "model_rewrite \<Rightarrow> rewrite_rule \<Rightarrow> rewriteRuleWithMetadata" where
  "rule_with_metadata mr rule =
     \<lparr>rm_rule = rule, rm_createTimestamp = mr_CreationTimestamp mr, rm_parentRewriteName = mr_Name mr\<rparr>"

definition add_exact ::
  "rewriteRuleWithMetadata \<Rightarrow> string \<Rightarrow> (string \<times> rewriteRuleWithMetadata list) list \<Rightarrow> (string \<times> rewriteRuleWithMetadata list) list" where
  "add_exact rr model m = AList.update model ((case map_of m model of None \<Rightarrow> [] | Some rs \<Rightarrow> rs) @ [rr]) m"

definition add_rule :: "rewriteRuleWithMetadata \<Rightarrow> modelRewriteStore \<Rightarrow> modelRewriteStore" where
  "add_rule rr ms =
     (if isGeneric rr then ms\<lparr>genericRules := genericRules ms @ [rr]\<rparr>
      else ms\<lparr>rulesByExactModelMatch := fold (add_exact rr) (exactModels rr) (rulesByExactModelMatch ms)\<rparr>)"

definition older :: "rewriteRuleWithMetadata \<Rightarrow> rewriteRuleWithMetadata \<Rightarrow> bool" where
  "older a b \<longleftrightarrow> rm_createTimestamp a < rm_createTimestamp b"

definition store_set ::
  "rewriteRuleWithMetadata sort_slice \<Rightarrow> model_rewrite \<Rightarrow> modelRewriteStore \<Rightarrow> modelRewriteStore" where
  "store_set sort_Slice mr ms =
     (let name = mr_Name mr;
          ms1 = (if map_of (allReWrites ms) name \<noteq> None then deleteInternal name ms else ms);
          ms2 = ms1\<lparr>allReWrites := AList.update name mr (allReWrites ms1)\<rparr>;
          ms3 = fold (\<lambda>rule. add_rule (rule_with_metadata mr rule)) (mr_Rules mr) ms2
      in ms3\<lparr>genericRules := sort_Slice older (genericRules ms3),
             rulesByExactModelMatch := map (\<lambda>(model, rs). (model, sort_Slice older rs)) (rulesByExactModelMatch ms3)\<rparr>)"

definition store_delete :: "namespaced_name \<Rightarrow> modelRewriteStore \<Rightarrow> modelRewriteStore" where
  "store_delete nn ms = deleteInternal (nn_Name nn) ms"

definition getRule :: "string \<Rightarrow> modelRewriteStore \<Rightarrow> (rewrite_rule \<times> string) option" where
  "getRule modelName ms =
     (case map_of (rulesByExactModelMatch ms) modelName of
        Some (r # rs) \<Rightarrow> Some (rm_rule r, parentName r)
      | _ \<Rightarrow> (case genericRules ms of
               r # rs \<Rightarrow> Some (rm_rule r, parentName r)
             | [] \<Rightarrow> None))"

definition store_getAll :: "modelRewriteStore \<Rightarrow> model_rewrite list" where
  "store_getAll ms = map snd (allReWrites ms)"

subsection \<open>Pods and pools\<close>

record pod =
  pd_Name :: string
  pd_Namespace :: string
  pd_PodIP :: string
  pd_Labels :: "(string \<times> string) list"
  pd_Annotations :: "(string \<times> string) list"
  pd_Deleting :: bool
  pd_Conditions :: "(string \<times> string) list"

definition IsPodReady :: "pod \<Rightarrow> bool" where
  "IsPodReady p \<longleftrightarrow> \<not> pd_Deleting p \<and> map_of (pd_Conditions p) ''Ready'' = Some ''True''"

record endpoint_pool =
  pool_Selector :: "(string \<times> string) list"
  pool_TargetPorts :: "int list"
  pool_Namespace :: string
  pool_Name :: string

definition activePortsAnnotation :: string where
  "activePortsAnnotation = ''inference.networking.k8s.io/active-ports''"

text \<open>\<open>fmt.Sscanf(s, "%d")\<close>: a sign and a prefix of digits; what follows is not read.\<close>

definition scan_int :: "string \<Rightarrow> int option" where
  "scan_int s =
     (let (sign, rest) = (case s of
            c # cs \<Rightarrow> if c = CHR ''-'' then ([c], cs) else if c = CHR ''+'' then ([], cs) else ([], s)
          | [] \<Rightarrow> ([], []));
          digits = takeWhile (\<lambda>c. digit_val c \<noteq> None) rest
      in ParseInt (sign @ digits))"

definition extractActivePorts :: "pod \<Rightarrow> int list \<Rightarrow> int list" where
  "extractActivePorts p targetPorts =
     (case map_of (pd_Annotations p) activePortsAnnotation of
        None \<Rightarrow> targetPorts
      | Some portsAnnotation \<Rightarrow>
          List.map_filter (\<lambda>portStr. case scan_int (TrimSpace portStr) of
              Some portNum \<Rightarrow> if portNum > 0 \<and> portNum \<in> set targetPorts then Some portNum else None
            | None \<Rightarrow> None) (Split portsAnnotation (CHR '','')))"

definition createEndpointNamespacedName :: "pod \<Rightarrow> nat \<Rightarrow> namespaced_name" where
  "createEndpointNamespacedName p idx =
     \<lparr>nn_Name = pd_Name p @ ''-rank-'' @ Itoa (int idx), nn_Namespace = pd_Namespace p\<rparr>"

subsection \<open>The life cycle of an endpoint (runtime.go)\<close>

text \<open>
  \<open>rt_collectors\<close> holds the keys of the collector map, \<open>rt_events\<close> the events handed to the
  endpoint sources, \<open>rt_next\<close> the next address. \<open>rt_start_ok\<close> tells whether a collector can be
  started; it cannot when the parent context has ended.
\<close>

datatype event_type = EventAddOrUpdate | EventDelete

record runtime =
  rt_pollers :: nat
  rt_collectors :: "namespaced_name list"
  rt_events :: "(event_type \<times> endpoint) list"
  rt_next :: nat
  rt_start_ok :: "namespaced_name \<Rightarrow> bool"

definition dl_NewEndpoint :: "nat \<Rightarrow> endpoint_metadata \<Rightarrow> endpoint" where
  "dl_NewEndpoint ptr md = \<lparr>ep_ptr = ptr, GetMetadata = Some md, GetMetrics = Some NewMetrics, GetAttributes = []\<rparr>"

definition dispatchEndpointEvent :: "event_type \<Rightarrow> endpoint \<Rightarrow> runtime \<Rightarrow> runtime" where
  "dispatchEndpointEvent t ep r = r\<lparr>rt_events := rt_events r @ [(t, ep)]\<rparr>"

definition runtime_NewEndpoint :: "endpoint_metadata \<Rightarrow> runtime \<Rightarrow> endpoint option \<times> runtime" where
  "runtime_NewEndpoint md r =
     (let ep = dl_NewEndpoint (rt_next r) md; r1 = r\<lparr>rt_next := rt_next r + 1\<rparr>; key = md_NamespacedName md
      in if rt_pollers r = 0 then (Some ep, r1)
         else if key \<in> set (rt_collectors r) then (None, r1)
         else if \<not> rt_start_ok r key then (None, r1)
         else (Some ep, dispatchEndpointEvent EventAddOrUpdate ep (r1\<lparr>rt_collectors := key # rt_collectors r\<rparr>)))"

text \<open>\<open>None\<close>: the endpoint has no metadata.\<close>

definition runtime_ReleaseEndpoint :: "endpoint \<Rightarrow> runtime \<Rightarrow> runtime option" where
  "runtime_ReleaseEndpoint ep r =
     (case GetMetadata ep of
        None \<Rightarrow> None
      | Some md \<Rightarrow> Some ((dispatchEndpointEvent EventDelete ep r)
          \<lparr>rt_collectors := filter (\<lambda>k. k \<noteq> md_NamespacedName md) (rt_collectors r)\<rparr>))"

subsection \<open>The store (datastore.go)\<close>

record inference_objective =
  io_Name :: string
  io_Priority :: "int option"

record datastore =
  ds_pool :: "endpoint_pool option"
  ds_objectives :: "(string \<times> inference_objective) list"
  ds_modelRewrites :: modelRewriteStore
  ds_pods :: "(namespaced_name \<times> endpoint) list"
  ds_modelServerMetricsPort :: int
  ds_epf :: runtime

definition NewDatastore :: "runtime \<Rightarrow> int \<Rightarrow> datastore" where
  "NewDatastore epf port = \<lparr>ds_pool = None, ds_objectives = [], ds_modelRewrites = newModelRewriteStore,
     ds_pods = [], ds_modelServerMetricsPort = port, ds_epf = epf\<rparr>"

text \<open>Ends the collection of each endpoint.\<close>

fun release_all :: "endpoint list \<Rightarrow> runtime \<Rightarrow> runtime option" where
  "release_all [] r = Some r"
| "release_all (ep # eps) r =
     (case runtime_ReleaseEndpoint ep r of None \<Rightarrow> None | Some r1 \<Rightarrow> release_all eps r1)"

definition ds_Clear :: "datastore \<Rightarrow> datastore option" where
  "ds_Clear ds =
     map_option (\<lambda>epf. ds\<lparr>ds_pool := None, ds_objectives := [], ds_modelRewrites := newModelRewriteStore,
                            ds_pods := [], ds_epf := epf\<rparr>)
       (release_all (map snd (ds_pods ds)) (ds_epf ds))"

text \<open>Removes the endpoints that satisfy a predicate of their metadata.\<close>

fun remove_where :: "(endpoint_metadata \<Rightarrow> bool) \<Rightarrow> (namespaced_name \<times> endpoint) list \<Rightarrow> datastore \<Rightarrow> datastore option" where
  "remove_where P [] ds = Some ds"
| "remove_where P ((k, ep) # kvs) ds =
     (case GetMetadata ep of
        None \<Rightarrow> None
      | Some md \<Rightarrow>
          if P md
          then (case runtime_ReleaseEndpoint ep (ds_epf ds) of
                  None \<Rightarrow> None
                | Some epf \<Rightarrow> remove_where P kvs (ds\<lparr>ds_pods := AList.delete k (ds_pods ds), ds_epf := epf\<rparr>))
          else remove_where P kvs ds)"

definition rank_metadata :: "datastore \<Rightarrow> endpoint_pool \<Rightarrow> pod \<Rightarrow> nat \<times> int \<Rightarrow> endpoint_metadata" where
  "rank_metadata ds pool p = (\<lambda>(idx, port).
     let modelServerMetricsPort = (if length (pool_TargetPorts pool) = 1 then ds_modelServerMetricsPort ds else 0);
         metricsPort = (if modelServerMetricsPort = 0 then port else modelServerMetricsPort)
     in \<lparr>md_NamespacedName = createEndpointNamespacedName p idx, md_PodName = pd_Name p,
         md_Address = pd_PodIP p, md_Port = Itoa port,
         md_MetricsHost = JoinHostPort (pd_PodIP p) (Itoa metricsPort), md_Labels = pd_Labels p\<rparr>)"

definition store_endpoint :: "endpoint_metadata \<Rightarrow> bool \<times> datastore \<Rightarrow> bool \<times> datastore" where
  "store_endpoint md = (\<lambda>(result, ds).
     let nn = md_NamespacedName md
     in case map_of (ds_pods ds) nn of
          Some ep \<Rightarrow> (result, ds\<lparr>ds_pods := AList.update nn (ep\<lparr>GetMetadata := Some md\<rparr>) (ds_pods ds)\<rparr>)
        | None \<Rightarrow>
            (case runtime_NewEndpoint md (ds_epf ds) of
               (None, epf) \<Rightarrow> (result, ds\<lparr>ds_epf := epf\<rparr>)
             | (Some ep, epf) \<Rightarrow>
                 (False, ds\<lparr>ds_pods := AList.update nn (ep\<lparr>GetMetadata := Some md\<rparr>) (ds_pods ds), ds_epf := epf\<rparr>)))"

fun drop_inactive :: "pod \<Rightarrow> int list \<Rightarrow> (nat \<times> int) list \<Rightarrow> datastore \<Rightarrow> datastore option" where
  "drop_inactive p active [] ds = Some ds"
| "drop_inactive p active ((idx, port) # ips) ds =
     (if port \<in> set active then drop_inactive p active ips ds
      else let nn = createEndpointNamespacedName p idx
           in case map_of (ds_pods ds) nn of
                None \<Rightarrow> drop_inactive p active ips ds
              | Some ep \<Rightarrow>
                  (case runtime_ReleaseEndpoint ep (ds_epf ds) of
                     None \<Rightarrow> None
                   | Some epf \<Rightarrow> drop_inactive p active ips (ds\<lparr>ds_pods := AList.delete nn (ds_pods ds), ds_epf := epf\<rparr>)))"

definition podUpdateOrAddIfNotExist :: "pod \<Rightarrow> endpoint_pool option \<Rightarrow> datastore \<Rightarrow> (bool \<times> datastore) option" where
  "podUpdateOrAddIfNotExist p pool_opt ds =
     (case pool_opt of
        None \<Rightarrow> Some (True, ds)
      | Some pool \<Rightarrow>
          let activePorts = extractActivePorts p (pool_TargetPorts pool);
              ports = enumerate 0 (pool_TargetPorts pool);
              pods = map (rank_metadata ds pool p) (filter (\<lambda>(idx, port). port \<in> set activePorts) ports);
              (result, ds1) = fold store_endpoint pods (True, ds)
          in map_option (Pair result) (drop_inactive p activePorts ports ds1))"

definition PodUpdateOrAddIfNotExist :: "pod \<Rightarrow> datastore \<Rightarrow> (bool \<times> datastore) option" where
  "PodUpdateOrAddIfNotExist p ds = podUpdateOrAddIfNotExist p (ds_pool ds) ds"

definition PodDelete :: "string \<Rightarrow> datastore \<Rightarrow> datastore option" where
  "PodDelete podName ds = remove_where (\<lambda>md. md_PodName md = podName) (ds_pods ds) ds"

definition PodList :: "(endpoint \<Rightarrow> bool) \<Rightarrow> datastore \<Rightarrow> endpoint list" where
  "PodList predicate ds = filter predicate (map snd (ds_pods ds))"

fun resync_pods :: "endpoint_pool \<Rightarrow> pod list \<Rightarrow> datastore \<Rightarrow> datastore option" where
  "resync_pods pool [] ds = Some ds"
| "resync_pods pool (p # ps) ds =
     (if \<not> IsPodReady p then resync_pods pool ps ds
      else case podUpdateOrAddIfNotExist p (Some pool) ds of
             None \<Rightarrow> None
           | Some (_, ds1) \<Rightarrow> resync_pods pool ps ds1)"

definition activeEndpoints :: "endpoint_pool \<Rightarrow> pod list \<Rightarrow> namespaced_name list" where
  "activeEndpoints pool items =
     concat (map (\<lambda>p. map (createEndpointNamespacedName p) [0..<length (pool_TargetPorts pool)]) (filter IsPodReady items))"

text \<open>The answer of the API server: an error, or the pods of the namespace that match the selector.\<close>

type_synonym pod_reader = "(string \<times> string) list \<Rightarrow> string \<Rightarrow> string + pod list"

definition podResyncAll :: "pod_reader \<Rightarrow> endpoint_pool \<Rightarrow> datastore \<Rightarrow> (string + datastore) option" where
  "podResyncAll reader pool ds =
     (case reader (pool_Selector pool) (pool_Namespace pool) of
        Inl err \<Rightarrow> Some (Inl (''failed to list pods - '' @ err))
      | Inr items \<Rightarrow>
          (case resync_pods pool items ds of
             None \<Rightarrow> None
           | Some ds1 \<Rightarrow>
               map_option Inr (remove_where (\<lambda>md. md_NamespacedName md \<notin> set (activeEndpoints pool items)) (ds_pods ds1) ds1)))"

text \<open>The error of a call, if any, and the store after it. \<open>labels_Equals\<close> compares two selectors.\<close>

definition PoolSet ::
  "((string \<times> string) list \<Rightarrow> (string \<times> string) list \<Rightarrow> bool) \<Rightarrow> pod_reader \<Rightarrow> endpoint_pool option \<Rightarrow> datastore \<Rightarrow>
   (string option \<times> datastore) option" where
  "PoolSet labels_Equals reader endpointPool ds =
     (case endpointPool of
        None \<Rightarrow> map_option (Pair None) (ds_Clear ds)
      | Some pool \<Rightarrow>
          let oldEndpointPool = ds_pool ds;
              ds1 = ds\<lparr>ds_pool := Some pool\<rparr>;
              selectorChanged = (case oldEndpointPool of
                  None \<Rightarrow> True | Some old \<Rightarrow> \<not> labels_Equals (pool_Selector old) (pool_Selector pool));
              targetPortsChanged = (case oldEndpointPool of
                  None \<Rightarrow> False | Some old \<Rightarrow> pool_TargetPorts old \<noteq> pool_TargetPorts pool)
          in if selectorChanged \<or> targetPortsChanged
             then (case podResyncAll reader pool ds1 of
                     None \<Rightarrow> None
                   | Some (Inl err) \<Rightarrow> Some (Some (''failed to update pods according to the pool selector - '' @ err), ds1)
                   | Some (Inr ds2) \<Rightarrow> Some (None, ds2))
             else Some (None, ds1))"

definition PoolGet :: "datastore \<Rightarrow> string + endpoint_pool" where
  "PoolGet ds = (case ds_pool ds of
     None \<Rightarrow> Inl ''InferencePool is not initialized in data store'' | Some pool \<Rightarrow> Inr pool)"

definition PoolHasSynced :: "datastore \<Rightarrow> bool" where
  "PoolHasSynced ds \<longleftrightarrow> ds_pool ds \<noteq> None"

text \<open>\<open>selector_Matches\<close>: whether the labels of a pod satisfy a selector.\<close>

definition PoolLabelsMatch ::
  "((string \<times> string) list \<Rightarrow> (string \<times> string) list \<Rightarrow> bool) \<Rightarrow> (string \<times> string) list \<Rightarrow> datastore \<Rightarrow> bool" where
  "PoolLabelsMatch selector_Matches podLabels ds =
     (case ds_pool ds of None \<Rightarrow> False | Some pool \<Rightarrow> selector_Matches (pool_Selector pool) podLabels)"

definition ObjectiveSet :: "inference_objective \<Rightarrow> datastore \<Rightarrow> datastore" where
  "ObjectiveSet obj ds = ds\<lparr>ds_objectives := AList.update (io_Name obj) obj (ds_objectives ds)\<rparr>"

definition ObjectiveGet :: "string \<Rightarrow> datastore \<Rightarrow> inference_objective option" where
  "ObjectiveGet objectiveName ds = map_of (ds_objectives ds) objectiveName"

definition ObjectiveDelete :: "namespaced_name \<Rightarrow> datastore \<Rightarrow> datastore" where
  "ObjectiveDelete nn ds = ds\<lparr>ds_objectives := AList.delete (nn_Name nn) (ds_objectives ds)\<rparr>"

definition ObjectiveGetAll :: "datastore \<Rightarrow> inference_objective list" where
  "ObjectiveGetAll ds = map snd (ds_objectives ds)"

definition ModelRewriteSet :: "rewriteRuleWithMetadata sort_slice \<Rightarrow> model_rewrite \<Rightarrow> datastore \<Rightarrow> datastore" where
  "ModelRewriteSet sort_Slice mr ds = ds\<lparr>ds_modelRewrites := store_set sort_Slice mr (ds_modelRewrites ds)\<rparr>"

definition ModelRewriteDelete :: "namespaced_name \<Rightarrow> datastore \<Rightarrow> datastore" where
  "ModelRewriteDelete nn ds = ds\<lparr>ds_modelRewrites := store_delete nn (ds_modelRewrites ds)\<rparr>"

definition ModelRewriteGet :: "string \<Rightarrow> datastore \<Rightarrow> (rewrite_rule \<times> string) option" where
  "ModelRewriteGet modelName ds = getRule modelName (ds_modelRewrites ds)"

definition ModelRewriteGetAll :: "datastore \<Rightarrow> model_rewrite list" where
  "ModelRewriteGetAll ds = store_getAll (ds_modelRewrites ds)"

end
