(* ===== verification/Chunking.thy ===== *)
theory Chunking
  imports Prelude
begin

text \<open>
  Splitting a body into streamed chunks for Envoy (src/pkg/common/envoy/chunking.go,
  request.go, response.go). A chunk is a \<open>StreamedBodyResponse\<close>; the messages that wrap it are
  built in \<open>Ext_Proc\<close>.
\<close>

record 'b streamed_body =
  sb_Body :: "'b list"
  sb_EndOfStream :: bool

definition BodyByteLimit :: nat where
  "BodyByteLimit = 62000"

function chunk_loop :: "'b list \<Rightarrow> bool \<Rightarrow> nat \<Rightarrow> 'b streamed_body list" where
  "chunk_loop bodyBytes setEos startingIndex =
     (if startingIndex < length bodyBytes
      then let len = min (length bodyBytes - startingIndex) BodyByteLimit;
               chunk = take len (drop startingIndex bodyBytes);
               eos = (setEos \<and> len + startingIndex \<ge> length bodyBytes)
           in \<lparr>sb_Body = chunk, sb_EndOfStream = eos\<rparr> # chunk_loop bodyBytes setEos (startingIndex + len)
      else [])"
  by pat_completeness auto

termination
  by (relation "measure (\<lambda>(body, eos, i). length body - i)") (auto simp: BodyByteLimit_def)

declare chunk_loop.simps [simp del]

definition BuildChunkedBodyResponses :: "'b list \<Rightarrow> bool \<Rightarrow> 'b streamed_body list" where
  "BuildChunkedBodyResponses bodyBytes setEos =
     (if length bodyBytes = 0 then [\<lparr>sb_Body = bodyBytes, sb_EndOfStream = setEos\<rparr>]
      else chunk_loop bodyBytes setEos 0)"

lemma chunk_loop_end: "length body \<le> i \<Longrightarrow> chunk_loop body eos i = []"
  by (subst chunk_loop.simps) simp

lemma chunk_loop_concat:
  "concat (map sb_Body (chunk_loop body eos i)) = drop i body"
proof (induction body eos i rule: chunk_loop.induct)
  case (1 body eos i)
  show ?case
  proof (cases "i < length body")
    case True
    let ?n = "min (length body - i) BodyByteLimit"
    have step: "concat (map sb_Body (chunk_loop body eos i)) = take ?n (drop i body) @ drop (i + ?n) body"
      using True 1 by (subst chunk_loop.simps) (simp add: Let_def)
    also have "\<dots> = take ?n (drop i body) @ drop ?n (drop i body)"
      by (simp add: add.commute)
    also have "\<dots> = drop i body" by (rule append_take_drop_id)
    finally show ?thesis .
  qed (simp add: chunk_loop_end)
qed

lemma chunk_loop_sizes:
  "c \<in> set (chunk_loop body eos i) \<Longrightarrow> sb_Body c \<noteq> [] \<and> length (sb_Body c) \<le> BodyByteLimit"
proof (induction body eos i rule: chunk_loop.induct)
  case (1 body eos i)
  have live: "i < length body"
    using 1(2) by (subst (asm) chunk_loop.simps) (auto split: if_splits)
  let ?n = "min (length body - i) BodyByteLimit"
  have "c = \<lparr>sb_Body = take ?n (drop i body), sb_EndOfStream = eos \<and> ?n + i \<ge> length body\<rparr> \<or>
        c \<in> set (chunk_loop body eos (i + ?n))"
    using 1(2) live by (subst (asm) chunk_loop.simps) (simp add: Let_def)
  then show ?case using 1(1) [OF live refl refl refl] live by (auto simp: min_def BodyByteLimit_def split: if_splits)
qed

text \<open>The end-of-stream mark is on the last chunk and nowhere else, and there only on demand.\<close>

lemma chunk_loop_eos:
  "i < length body \<Longrightarrow>
   \<exists>cs c. chunk_loop body eos i = cs @ [c] \<and> sb_EndOfStream c = eos \<and>
          list_all (\<lambda>c. \<not> sb_EndOfStream c) cs"
proof (induction body eos i rule: chunk_loop.induct)
  case (1 body eos i)
  let ?n = "min (length body - i) BodyByteLimit"
  let ?c = "\<lparr>sb_Body = take ?n (drop i body), sb_EndOfStream = eos \<and> ?n + i \<ge> length body\<rparr>"
  have step: "chunk_loop body eos i = ?c # chunk_loop body eos (i + ?n)"
    using 1(2) by (subst chunk_loop.simps) (simp add: Let_def)
  show ?case
  proof (cases "i + ?n < length body")
    case True
    obtain cs c where "chunk_loop body eos (i + ?n) = cs @ [c]" "sb_EndOfStream c = eos"
      "list_all (\<lambda>c. \<not> sb_EndOfStream c) cs"
      using 1(1) [OF 1(2) refl refl refl True] by blast
    then show ?thesis using step True by (intro exI [of _ "?c # cs"] exI [of _ c]) auto
  next
    case False
    then show ?thesis using step by (intro exI [of _ "[]"] exI [of _ ?c]) (auto simp: chunk_loop_end)
  qed
qed

lemma BuildChunked_concat [simp]: "concat (map sb_Body (BuildChunkedBodyResponses body eos)) = body"
  by (simp add: BuildChunkedBodyResponses_def chunk_loop_concat)

lemma BuildChunked_eos:
  "\<exists>cs c. BuildChunkedBodyResponses body eos = cs @ [c] \<and> sb_EndOfStream c = eos \<and>
          list_all (\<lambda>c. \<not> sb_EndOfStream c) cs"
  using chunk_loop_eos [of 0 body eos] by (auto simp: BuildChunkedBodyResponses_def)

lemma BuildChunked_sizes: "c \<in> set (BuildChunkedBodyResponses body eos) \<Longrightarrow> length (sb_Body c) \<le> BodyByteLimit"
  using chunk_loop_sizes [of c body eos 0] by (auto simp: BuildChunkedBodyResponses_def split: if_splits)

text \<open>
  C27: Chunking loses nothing. The bodies of the chunks put together are the body, no chunk is
  longer than the limit of 62000 bytes, there is at least one chunk, and the end of the stream
  is marked exactly on the last chunk if it was asked for and nowhere otherwise.
\<close>

theorem chunking_roundtrip:
  "concat (map sb_Body (BuildChunkedBodyResponses body eos)) = body \<and>
   list_all (\<lambda>c. length (sb_Body c) \<le> BodyByteLimit) (BuildChunkedBodyResponses body eos) \<and>
   (\<exists>cs c. BuildChunkedBodyResponses body eos = cs @ [c] \<and> sb_EndOfStream c = eos \<and>
           list_all (\<lambda>c. \<not> sb_EndOfStream c) cs)"
  using BuildChunked_concat BuildChunked_eos BuildChunked_sizes by (auto simp: list_all_iff)

end
