(* ===== verification/Request_Context.thy ===== *)
theory Request_Context
  imports Endpoints Chunking
begin

text \<open>
  What the handlers of the external processing server and the director share: the errors of
  src/pkg/common/error/error.go, the header helpers of src/pkg/common/envoy/headers.go and
  src/pkg/epp/util/request/headers.go, the messages exchanged with Envoy, and the
  \<open>RequestContext\<close> of src/pkg/epp/handlers/server.go. Bytes are characters.
\<close>

subsection \<open>Errors\<close>

datatype error_code =
    Unknown | BadRequest | Unauthorized | Forbidden | NotFound | Internal
  | ServiceUnavailable | ModelServerError | ResourceExhausted

text \<open>\<open>error\<close> values: an \<open>errcommon.Error\<close> or any other error, each with its message.\<close>

datatype req_error = CommonError error_code string | OtherError string

fun code_String :: "error_code \<Rightarrow> string" where
  "code_String Unknown = ''Unknown''"
| "code_String BadRequest = ''BadRequest''"
| "code_String Unauthorized = ''Unauthorized''"
| "code_String Forbidden = ''Forbidden''"
| "code_String NotFound = ''NotFound''"
| "code_String Internal = ''Internal''"
| "code_String ServiceUnavailable = ''ServiceUnavailable''"
| "code_String ModelServerError = ''ModelServerError''"
| "code_String ResourceExhausted = ''ResourceExhausted''"

fun error_Error :: "req_error \<Rightarrow> string" where
  "error_Error (CommonError c msg) = ''inference error: '' @ code_String c @ '' - '' @ msg"
| "error_Error (OtherError msg) = msg"

fun CanonicalCode :: "req_error \<Rightarrow> error_code" where
  "CanonicalCode (CommonError c _) = c"
| "CanonicalCode (OtherError _) = Unknown"

datatype http_status =
    StatusBadRequest | StatusUnauthorized | StatusForbidden | StatusNotFound
  | StatusTooManyRequests | StatusInternalServerError | StatusServiceUnavailable

subsection \<open>Messages\<close>

record header_value =
  hv_Key :: string
  hv_Value :: string
  hv_RawValue :: string

type_synonym go_headers = "(string \<times> string) list"
type_synonym dyn_metadata = "(string \<times> go_any) list"

datatype processing_request =
    RequestHeaders "header_value list" bool
  | RequestBody string bool
  | RequestTrailers
  | ResponseHeaders "header_value list"
  | ResponseBody string bool
  | ResponseTrailers

datatype processing_response =
    RequestHeadersResponse "header_value list" dyn_metadata
  | RequestBodyResponse "char streamed_body"
  | RequestTrailersResponse
  | ResponseHeadersResponse "header_value list"
  | ResponseBodyResponse "char streamed_body" "dyn_metadata option"
  | ResponseTrailersResponse
  | ImmediateResponse http_status string

text \<open>\<open>Inl\<close> is the gRPC error of an unrecognized code.\<close>

definition BuildErrResponse :: "req_error \<Rightarrow> string + processing_response" where
  "BuildErrResponse err =
     (let resp = (\<lambda>httpCode. Inr (ImmediateResponse httpCode (error_Error err)))
      in case CanonicalCode err of
           BadRequest \<Rightarrow> resp StatusBadRequest
         | Unauthorized \<Rightarrow> resp StatusUnauthorized
         | Forbidden \<Rightarrow> resp StatusForbidden
         | NotFound \<Rightarrow> resp StatusNotFound
         | ResourceExhausted \<Rightarrow> resp StatusTooManyRequests
         | Internal \<Rightarrow> resp StatusInternalServerError
         | ServiceUnavailable \<Rightarrow> resp StatusServiceUnavailable
         | _ \<Rightarrow> Inl (''failed to handle request: '' @ error_Error err))"

subsection \<open>Headers\<close>

text \<open>\<open>strings.ToLower\<close> on the ASCII letters.\<close>

definition char_lower :: "char \<Rightarrow> char" where
  "char_lower c = (let n = of_char c :: nat in if 65 \<le> n \<and> n \<le> 90 then char_of (n + 32) else c)"

definition ToLower :: "string \<Rightarrow> string" where
  "ToLower s = map char_lower s"

definition GetHeaderValue :: "header_value \<Rightarrow> string" where
  "GetHeaderValue header = (if length (hv_RawValue header) > 0 then hv_RawValue header else hv_Value header)"

definition ExtractHeaderValue :: "header_value list \<Rightarrow> string \<Rightarrow> string" where
  "ExtractHeaderValue headers headerKey =
     (case find (\<lambda>headerKv. ToLower (hv_Key headerKv) = ToLower headerKey) headers of
        Some headerKv \<Rightarrow> GetHeaderValue headerKv
      | None \<Rightarrow> [])"

definition raw_header :: "string \<Rightarrow> string \<Rightarrow> header_value" where
  "raw_header key v = \<lparr>hv_Key = key, hv_Value = [], hv_RawValue = v\<rparr>"

definition GenerateHeadersMutation :: "go_headers \<Rightarrow> header_value list" where
  "GenerateHeadersMutation headers = map (\<lambda>(key, v). raw_header key v) headers"

definition RequestIdHeaderKey :: string where
  "RequestIdHeaderKey = ''x-request-id''"

definition SubsetFilterNamespace :: string where
  "SubsetFilterNamespace = ''envoy.lb.subset_hint''"

definition SubsetFilterKey :: string where
  "SubsetFilterKey = ''x-gateway-destination-endpoint-subset''"

definition DestinationEndpointNamespace :: string where
  "DestinationEndpointNamespace = ''envoy.lb''"

definition DestinationEndpointKey :: string where
  "DestinationEndpointKey = ''x-gateway-destination-endpoint''"

definition DestinationEndpointServedKey :: string where
  "DestinationEndpointServedKey = ''x-gateway-destination-endpoint-served''"

definition FlowFairnessIDKey :: string where
  "FlowFairnessIDKey = ''x-gateway-inference-fairness-id''"

definition ObjectiveKey :: string where
  "ObjectiveKey = ''x-gateway-inference-objective''"

definition ModelNameRewriteKey :: string where
  "ModelNameRewriteKey = ''x-gateway-model-name-rewrite''"

definition DefaultFairnessID :: string where
  "DefaultFairnessID = ''default-flow''"

definition InputControlHeaders :: "string list" where
  "InputControlHeaders =
     map ToLower [FlowFairnessIDKey, ObjectiveKey, ModelNameRewriteKey, SubsetFilterKey]"

definition OutputInjectionHeaders :: "string list" where
  "OutputInjectionHeaders = map ToLower [DestinationEndpointKey, DestinationEndpointServedKey]"

definition ProtocolHeaders :: "string list" where
  "ProtocolHeaders = [''content-length'']"

definition IsSystemOwnedHeader :: "string \<Rightarrow> bool" where
  "IsSystemOwnedHeader key =
     (let k = ToLower key
      in k \<in> set InputControlHeaders \<or> k \<in> set OutputInjectionHeaders \<or> k \<in> set ProtocolHeaders)"

subsection \<open>The request context\<close>

datatype stream_request_state =
    RequestReceived
  | HeaderRequestResponseComplete
  | BodyRequestResponsesComplete
  | TrailerRequestResponsesComplete
  | ResponseReceived
  | HeaderResponseResponseComplete
  | BodyResponseResponsesComplete
  | TrailerResponseResponsesComplete

record token_usage =
  us_PromptTokens :: int
  us_CompletionTokens :: int
  us_TotalTokens :: int
  us_CachedTokens :: "int option"

record http_request =
  rq_Headers :: go_headers
  rq_RawBody :: string
  rq_Metadata :: "(string \<times> go_any) list option"

record http_response =
  rs_Headers :: go_headers
  rs_DynamicMetadata :: "dyn_metadata option"

record request_context =
  rc_TargetPod :: "endpoint_metadata option"
  rc_TargetEndpoint :: string
  rc_IncomingModelName :: string
  rc_TargetModelName :: string
  rc_FairnessID :: string
  rc_ObjectiveKey :: string
  rc_Priority :: int
  rc_RequestReceivedTimestamp :: gotime
  rc_ResponseCompleteTimestamp :: gotime
  rc_RequestSize :: int
  rc_Usage :: token_usage
  rc_ResponseSize :: int
  rc_ResponseComplete :: bool
  rc_ResponseStatusCode :: "error_code option"
  rc_RequestRunning :: bool
  rc_Request :: http_request
  rc_SchedulingRequest :: "llm_request option"
  rc_RequestState :: stream_request_state
  rc_modelServerStreaming :: bool
  rc_Response :: http_response
  rc_reqHeaderResp :: "processing_response option"
  rc_reqBodyResp :: "processing_response list"
  rc_reqTrailerResp :: "processing_response option"
  rc_respHeaderResp :: "processing_response option"
  rc_respBodyResp :: "processing_response list"
  rc_respTrailerResp :: "processing_response option"

definition header_of :: "string \<Rightarrow> go_headers \<Rightarrow> string" where
  "header_of key hs = (case map_of hs key of Some v \<Rightarrow> v | None \<Rightarrow> [])"

definition IsSheddable :: "int \<Rightarrow> bool" where
  "IsSheddable priority \<longleftrightarrow> priority < 0"

subsection \<open>Body responses\<close>

definition GenerateRequestBodyResponses :: "string \<Rightarrow> processing_response list" where
  "GenerateRequestBodyResponses requestBodyBytes =
     map RequestBodyResponse (BuildChunkedBodyResponses requestBodyBytes True)"

definition AddStreamedResponseBody :: "processing_response list \<Rightarrow> string \<Rightarrow> processing_response list" where
  "AddStreamedResponseBody responses responseBodyBytes =
     responses @ map (\<lambda>c. ResponseBodyResponse c None) (BuildChunkedBodyResponses responseBodyBytes True)"

text \<open>The dynamic metadata goes with the last response.\<close>

definition generateResponseBodyResponses ::
  "string \<Rightarrow> bool \<Rightarrow> dyn_metadata option \<Rightarrow> processing_response list" where
  "generateResponseBodyResponses responseBodyBytes setEoS dynamicMetadata =
     (let responses = map (\<lambda>c. ResponseBodyResponse c None) (BuildChunkedBodyResponses responseBodyBytes setEoS)
      in if length responses > 0 \<and> dynamicMetadata \<noteq> None
         then (case last responses of
                 ResponseBodyResponse c _ \<Rightarrow> butlast responses @ [ResponseBodyResponse c dynamicMetadata]
               | _ \<Rightarrow> responses)
         else responses)"

end
