(* ===== verification/Candidates.thy ===== *)
theory Candidates
  imports Datastore Request_Context
begin

text \<open>
  Which endpoints may serve a request: src/pkg/epp/requestcontrol/candidates.go. The metadata of
  a request may carry a subset of endpoint addresses; \<open>Locate\<close> reads it from the store and
  \<open>cached_Locate\<close> keeps its answers for a while.

  A call of the cached lookup reads the clock up to three times (\<open>t1\<close>, \<open>t2\<close>, \<open>t3\<close>): before and
  after it takes the write lock, and for the expiry of a new entry. Calls hold the lock, so they
  are steps on the cache.
\<close>

subsection \<open>The lookup in the store\<close>

record candidates_config =
  DisableEndpointSubsetFilter :: bool

type_synonym candidates_option = "candidates_config \<Rightarrow> candidates_config"

definition WithDisableEndpointSubsetFilter :: "bool \<Rightarrow> candidates_option" where
  "WithDisableEndpointSubsetFilter disable c = c\<lparr>DisableEndpointSubsetFilter := disable\<rparr>"

definition NewDatastoreEndpointCandidates :: "candidates_option list \<Rightarrow> candidates_config" where
  "NewDatastoreEndpointCandidates opts = fold (\<lambda>opt. opt) opts \<lparr>DisableEndpointSubsetFilter = False\<rparr>"

definition AllPodsPredicate :: "endpoint \<Rightarrow> bool" where
  "AllPodsPredicate ep = True"

type_synonym request_metadata = "(string \<times> go_any) list option"

text \<open>The list under the filter key, if there is one of the right type.\<close>

definition subset_list :: "request_metadata \<Rightarrow> go_any list option" where
  "subset_list md =
     (case md of
        None \<Rightarrow> None
      | Some m \<Rightarrow>
          (case map_of m SubsetFilterNamespace of
             Some (AnyMap subsetMap) \<Rightarrow>
               (case map_of subsetMap SubsetFilterKey of Some (AnyList l) \<Rightarrow> Some l | _ \<Rightarrow> None)
           | _ \<Rightarrow> None))"

definition subset_hosts :: "go_any list \<Rightarrow> string list" where
  "subset_hosts l = List.map_filter (\<lambda>v. case v of
       AnyString epStr \<Rightarrow> Some (case before_last epStr (CHR '':'') of Some host \<Rightarrow> host | None \<Rightarrow> epStr)
     | _ \<Rightarrow> None) l"

definition Locate :: "candidates_config \<Rightarrow> datastore \<Rightarrow> request_metadata \<Rightarrow> endpoint list" where
  "Locate cfg ds md =
     (if DisableEndpointSubsetFilter cfg then PodList AllPodsPredicate ds
      else case subset_list md of
             None \<Rightarrow> PodList AllPodsPredicate ds
           | Some l \<Rightarrow>
               if length l = 0 then []
               else let endpoints = subset_hosts l
                    in PodList (\<lambda>pm. case GetMetadata pm of None \<Rightarrow> False | Some p \<Rightarrow> md_Address p \<in> set endpoints) ds)"

subsection \<open>The cache\<close>

definition defaultCacheTTL :: duration where
  "defaultCacheTTL = 50000000"

definition defaultCacheKey :: string where
  "defaultCacheKey = ''__default__''"

definition emptySubsetCacheKey :: string where
  "emptySubsetCacheKey = ''__explicit_empty__''"

record cacheEntry =
  ce_pods :: "endpoint list"
  ce_expiry :: gotime

record cachedCandidates =
  cc_ttl :: duration
  cc_cache :: "(string \<times> cacheEntry) list"

definition NewCachedEndpointCandidates :: "duration \<Rightarrow> cachedCandidates" where
  "NewCachedEndpointCandidates ttl = \<lparr>cc_ttl = (if ttl \<le> 0 then defaultCacheTTL else ttl), cc_cache = []\<rparr>"

definition any_strings :: "go_any list \<Rightarrow> string list" where
  "any_strings l = List.map_filter (\<lambda>v. case v of AnyString s \<Rightarrow> Some s | _ \<Rightarrow> None) l"

definition generateCacheKey :: "request_metadata \<Rightarrow> string" where
  "generateCacheKey md =
     (case subset_list md of
        None \<Rightarrow> defaultCacheKey
      | Some l \<Rightarrow>
          if length l = 0 then emptySubsetCacheKey
          else if length l = 1 then (case hd l of AnyString s \<Rightarrow> s | _ \<Rightarrow> defaultCacheKey)
          else strings_Join (SortStableFunc strings_Compare (any_strings l)) ''|'')"

definition cache_lookup :: "string \<Rightarrow> gotime \<Rightarrow> cachedCandidates \<Rightarrow> endpoint list option" where
  "cache_lookup key now c =
     (case map_of (cc_cache c) key of
        Some entry \<Rightarrow> if now < ce_expiry entry then Some (ce_pods entry) else None
      | None \<Rightarrow> None)"

definition cached_Locate ::
  "(request_metadata \<Rightarrow> endpoint list) \<Rightarrow> gotime \<times> gotime \<times> gotime \<Rightarrow> request_metadata \<Rightarrow> cachedCandidates \<Rightarrow>
   endpoint list \<times> cachedCandidates" where
  "cached_Locate delegate = (\<lambda>(t1, t2, t3) md c.
     let key = generateCacheKey md
     in case cache_lookup key t1 c of
          Some pods \<Rightarrow> (pods, c)
        | None \<Rightarrow>
            (case cache_lookup key t2 c of
               Some pods \<Rightarrow> (pods, c)
             | None \<Rightarrow>
                 let freshPods = delegate md
                 in (freshPods, c\<lparr>cc_cache := AList.update key \<lparr>ce_pods = freshPods, ce_expiry = t3 + cc_ttl c\<rparr> (cc_cache c)\<rparr>)))"

definition cache_cleanup :: "gotime \<Rightarrow> cachedCandidates \<Rightarrow> cachedCandidates" where
  "cache_cleanup now c = c\<lparr>cc_cache := filter (\<lambda>(key, entry). \<not> now > ce_expiry entry) (cc_cache c)\<rparr>"

subsection \<open>Keys stand for filters\<close>

text \<open>
  A filter is proper if its elements are strings without the separator of the keys and not one of
  the two reserved keys.
\<close>

definition proper_filter :: "request_metadata \<Rightarrow> bool" where
  "proper_filter md \<longleftrightarrow> (case subset_list md of
      None \<Rightarrow> True
    | Some l \<Rightarrow> list_all (\<lambda>v. case v of AnyString s \<Rightarrow> CHR ''|'' \<notin> set s \<and> s \<noteq> defaultCacheKey \<and> s \<noteq> emptySubsetCacheKey | _ \<Rightarrow> False) l)"

lemma Split_Join:
  assumes "ss \<noteq> []" "\<forall>s \<in> set ss. c \<notin> set s"
  shows "Split (strings_Join ss [c]) c = ss"
proof -
  have part: "c \<notin> set s \<Longrightarrow> Split s c = [s]" for s by (induction s) auto
  have app: "c \<notin> set s \<Longrightarrow> Split (s @ c # t) c = s # Split t c" for s t by (induction s) auto
  show ?thesis
    using assms by (induction ss "[c]" rule: strings_Join.induct) (auto simp: part app)
qed

lemma strings_Join_sep: "2 \<le> length ss \<Longrightarrow> c \<in> set (strings_Join ss [c])"
  by (cases ss; cases "tl ss") auto

lemma any_strings_map: "list_all (\<lambda>v. case v of AnyString s \<Rightarrow> P s | _ \<Rightarrow> False) l \<Longrightarrow>
    l = map AnyString (any_strings l) \<and> list_all P (any_strings l)"
  by (induction l) (auto simp: any_strings_def map_filter_simps split: go_any.splits)

lemma subset_hosts_strings:
  "subset_hosts (map AnyString ss) = map (\<lambda>s. case before_last s (CHR '':'') of Some host \<Rightarrow> host | None \<Rightarrow> s) ss"
  by (induction ss) (auto simp: subset_hosts_def map_filter_simps)

lemma any_strings_strings [simp]: "any_strings (map AnyString ss) = ss"
  by (induction ss) (auto simp: any_strings_def map_filter_simps)

text \<open>What a proper filter asks for: everything, or the endpoints with certain addresses.\<close>

definition filter_of :: "request_metadata \<Rightarrow> string set option" where
  "filter_of md = map_option (\<lambda>l. set (any_strings l)) (subset_list md)"

lemma Locate_filter_of:
  assumes "proper_filter md" "proper_filter md'" "filter_of md = filter_of md'"
  shows "Locate cfg ds md = Locate cfg ds md'"
proof (cases "subset_list md")
  case None
  then show ?thesis using assms(3) by (auto simp: filter_of_def Locate_def)
next
  case (Some l)
  then obtain l' where l': "subset_list md' = Some l'" "set (any_strings l) = set (any_strings l')"
    using assms(3) by (cases "subset_list md'") (auto simp: filter_of_def)
  obtain ss where ss: "l = map AnyString ss" using any_strings_map assms(1) Some by (fastforce simp: proper_filter_def)
  obtain ss' where ss': "l' = map AnyString ss'" using any_strings_map assms(2) l' by (fastforce simp: proper_filter_def)
  have eq: "set ss = set ss'" using l'(2) by (simp add: ss ss')
  then have "l = [] \<longleftrightarrow> l' = []" by (auto simp: ss ss')
  moreover have "set (subset_hosts l) = set (subset_hosts l')" by (simp add: ss ss' subset_hosts_strings eq)
  ultimately show ?thesis using Some l'(1) by (simp add: Locate_def cong: option.case_cong)
qed

lemma proper_key:
  assumes "proper_filter md"
  obtains (all) "subset_list md = None" "generateCacheKey md = defaultCacheKey"
  | (empty) "subset_list md = Some []" "generateCacheKey md = emptySubsetCacheKey"
  | (one) s where "subset_list md = Some [AnyString s]" "generateCacheKey md = s" "CHR ''|'' \<notin> set s"
      "s \<noteq> defaultCacheKey" "s \<noteq> emptySubsetCacheKey"
  | (many) ss where "subset_list md = Some (map AnyString ss)" "2 \<le> length ss" "\<forall>s \<in> set ss. CHR ''|'' \<notin> set s"
      "generateCacheKey md = strings_Join (SortStableFunc strings_Compare ss) ''|''" "CHR ''|'' \<in> set (generateCacheKey md)"
proof (cases "subset_list md")
  case None
  then show ?thesis using all by (simp add: generateCacheKey_def)
next
  case (Some l)
  have "list_all (\<lambda>v. case v of AnyString s \<Rightarrow> CHR ''|'' \<notin> set s \<and> s \<noteq> defaultCacheKey \<and> s \<noteq> emptySubsetCacheKey | _ \<Rightarrow> False) l"
    using assms Some by (simp add: proper_filter_def)
  from any_strings_map [OF this] obtain ss where ss: "l = map AnyString ss"
    "\<forall>s \<in> set ss. CHR ''|'' \<notin> set s \<and> s \<noteq> defaultCacheKey \<and> s \<noteq> emptySubsetCacheKey" by (auto simp: list_all_iff)
  consider "ss = []" | s where "ss = [s]" | "2 \<le> length ss" by (cases ss; cases "tl ss") auto
  then show ?thesis
  proof cases
    case 1 then show ?thesis using empty Some ss by (simp add: generateCacheKey_def)
  next
    case 2 then show ?thesis using one Some ss by (simp add: generateCacheKey_def)
  next
    case 3
    then have key: "generateCacheKey md = strings_Join (SortStableFunc strings_Compare ss) ''|''"
      using Some ss(1) by (auto simp: generateCacheKey_def)
    then have "CHR ''|'' \<in> set (generateCacheKey md)" using 3 by (simp add: strings_Join_sep)
    then show ?thesis using many [of ss] key 3 Some ss by blast
  qed
qed

lemma key_chars: "CHR ''|'' \<notin> set defaultCacheKey" "CHR ''|'' \<notin> set emptySubsetCacheKey" "defaultCacheKey \<noteq> emptySubsetCacheKey"
  by (simp_all add: defaultCacheKey_def emptySubsetCacheKey_def)

lemma key_determines_filter:
  assumes "proper_filter md" "proper_filter md'" "generateCacheKey md = generateCacheKey md'"
  shows "filter_of md = filter_of md'"
proof -
  have inj: "set ss = set ss'"
    if "strings_Join (SortStableFunc strings_Compare ss) ''|'' = strings_Join (SortStableFunc strings_Compare ss') ''|''"
      "2 \<le> length ss" "2 \<le> length ss'" "\<forall>s \<in> set ss. CHR ''|'' \<notin> set s" "\<forall>s \<in> set ss'. CHR ''|'' \<notin> set s" for ss ss'
  proof -
    have ne: "SortStableFunc strings_Compare ss \<noteq> []" "SortStableFunc strings_Compare ss' \<noteq> []"
      using that(2,3) by (metis length_0_conv length_SortStableFunc not_numeral_le_zero)+
    have "Split (strings_Join (SortStableFunc strings_Compare ss) ''|'') (CHR ''|'') = SortStableFunc strings_Compare ss"
      by (rule Split_Join [OF ne(1)]) (use that(4) in simp)
    moreover have "Split (strings_Join (SortStableFunc strings_Compare ss') ''|'') (CHR ''|'') = SortStableFunc strings_Compare ss'"
      by (rule Split_Join [OF ne(2)]) (use that(5) in simp)
    ultimately have "SortStableFunc strings_Compare ss = SortStableFunc strings_Compare ss'"
      unfolding that(1) by (rule trans [OF sym])
    then show ?thesis by (metis set_SortStableFunc)
  qed
  show ?thesis
    using assms(1)
  proof (cases rule: proper_key)
    case all
    show ?thesis using assms(2) by (cases rule: proper_key) (use all assms(3) key_chars in \<open>auto simp: filter_of_def\<close>)
  next
    case empty
    show ?thesis using assms(2) by (cases rule: proper_key) (use empty assms(3) key_chars in \<open>auto simp: filter_of_def\<close>)
  next
    case (one s)
    show ?thesis using assms(2) by (cases rule: proper_key) (use one assms(3) key_chars in \<open>auto simp: filter_of_def\<close>)
  next
    case (many ss)
    note m = this
    show ?thesis using assms(2)
    proof (cases rule: proper_key)
      case (many ss')
      have "set ss = set ss'"
        by (rule inj [OF _ m(2) many(2) m(3) many(3)]) (use assms(3) m(4) many(4) in simp)
      then show ?thesis using m(1) many(1) by (simp add: filter_of_def)
    qed (use m assms(3) key_chars in auto)
  qed
qed

subsection \<open>Answers of the cache\<close>

text \<open>
  A history of the cache: lookups, each with the state of the store at that time, and cleanups.
  \<open>answer\<close> is the reference: what the store says.
\<close>

datatype cache_event = Lookup datastore "gotime \<times> gotime \<times> gotime" request_metadata | Cleanup gotime

fun cache_step :: "candidates_config \<Rightarrow> cache_event \<Rightarrow> cachedCandidates \<Rightarrow> cachedCandidates" where
  "cache_step cfg (Lookup ds ts md) c = snd (cached_Locate (Locate cfg ds) ts md c)"
| "cache_step cfg (Cleanup now) c = cache_cleanup now c"

fun proper_event :: "cache_event \<Rightarrow> bool" where
  "proper_event (Lookup ds ts md) = proper_filter md"
| "proper_event (Cleanup now) = True"

definition cache_inv :: "candidates_config \<Rightarrow> cache_event list \<Rightarrow> cachedCandidates \<Rightarrow> bool" where
  "cache_inv cfg hist c \<longleftrightarrow> (\<forall>(key, entry) \<in> set (cc_cache c). \<exists>ds t1 t2 t3 md. Lookup ds (t1, t2, t3) md \<in> set hist \<and>
     generateCacheKey md = key \<and> ce_pods entry = Locate cfg ds md \<and> ce_expiry entry = t3 + cc_ttl c)"

lemma cache_inv_mono: "cache_inv cfg hist c \<Longrightarrow> set hist \<subseteq> set hist' \<Longrightarrow> cache_inv cfg hist' c"
  unfolding cache_inv_def by fast

lemma cache_step_inv:
  assumes "cache_inv cfg hist c"
  shows "cache_inv cfg (e # hist) (cache_step cfg e c) \<and> cc_ttl (cache_step cfg e c) = cc_ttl c"
proof (cases e)
  case (Cleanup now)
  have "cache_inv cfg hist (cache_cleanup now c)" using assms by (auto simp: cache_inv_def cache_cleanup_def)
  then have "cache_inv cfg (e # hist) (cache_cleanup now c)" by (rule cache_inv_mono) auto
  then show ?thesis using Cleanup by (simp add: cache_cleanup_def)
next
  case (Lookup ds ts md)
  obtain t1 t2 t3 where ts: "ts = (t1, t2, t3)" by (cases ts)
  let ?key = "generateCacheKey md"
  have old: "cache_inv cfg (e # hist) c" using assms by (rule cache_inv_mono) auto
  show ?thesis
  proof (cases "cache_lookup ?key t1 c = None \<and> cache_lookup ?key t2 c = None")
    case False
    then show ?thesis using old Lookup ts by (auto simp: cached_Locate_def Let_def split: option.splits)
  next
    case True
    let ?c = "c\<lparr>cc_cache := AList.update ?key \<lparr>ce_pods = Locate cfg ds md, ce_expiry = t3 + cc_ttl c\<rparr> (cc_cache c)\<rparr>"
    have "cache_inv cfg (e # hist) ?c"
      unfolding cache_inv_def
    proof (clarify, goal_cases)
      case (1 key entry)
      then consider "key = ?key" "entry = \<lparr>ce_pods = Locate cfg ds md, ce_expiry = t3 + cc_ttl c\<rparr>" | "(key, entry) \<in> set (cc_cache c)"
        using set_update_subset by fastforce
      then show ?case
      proof cases
        case 1
        then show ?thesis using Lookup ts by (intro exI [of _ ds] exI [of _ t1] exI [of _ t2] exI [of _ t3] exI [of _ md]) simp
      next
        case 2
        then show ?thesis using old unfolding cache_inv_def by fastforce
      qed
    qed
    then show ?thesis using True Lookup ts by (simp add: cached_Locate_def Let_def)
  qed
qed

lemma cache_run_inv:
  "cache_inv cfg hist (foldr (cache_step cfg) hist (NewCachedEndpointCandidates ttl)) \<and>
   cc_ttl (foldr (cache_step cfg) hist (NewCachedEndpointCandidates ttl)) = cc_ttl (NewCachedEndpointCandidates ttl)"
proof (induction hist)
  case Nil
  show ?case by (simp add: cache_inv_def NewCachedEndpointCandidates_def)
next
  case (Cons e hist)
  then show ?case using cache_step_inv [of cfg hist _ e] by simp
qed

lemma cache_lookup_Some:
  assumes "cache_inv cfg hist c" "cache_lookup key now c = Some pods"
  shows "\<exists>ds t1 t2 t3 md. Lookup ds (t1, t2, t3) md \<in> set hist \<and> generateCacheKey md = key \<and> pods = Locate cfg ds md \<and> now < t3 + cc_ttl c"
proof -
  obtain entry where "map_of (cc_cache c) key = Some entry" "now < ce_expiry entry" "pods = ce_pods entry"
    using assms(2) by (auto simp: cache_lookup_def split: option.splits if_splits)
  then show ?thesis using assms(1) map_of_SomeD [of "cc_cache c" key entry] unfolding cache_inv_def by fastforce
qed


definition empty_store :: datastore where
  "empty_store = NewDatastore \<lparr>rt_pollers = 0, rt_collectors = [], rt_events = [], rt_next = 0, rt_start_ok = (\<lambda>_. True)\<rparr> 0"


text \<open>
  A filter with one element that is not a string gets the key of requests without a filter. So
  it can be answered with all endpoints, and an empty answer to it is served to the requests
  without a filter until it expires.
\<close>

theorem malformed_filter_poisons_cache:
  assumes "subset_list bad = Some [AnyInt n]" "t1 < t3 + cc_ttl c" "cc_cache c = []" "\<not> DisableEndpointSubsetFilter cfg"
  shows "fst (cached_Locate (Locate cfg ds) (t1, t1, t1) None
    (snd (cached_Locate (Locate cfg ds) (t3, t3, t3) bad c))) = []"
  using assms by (simp add: cached_Locate_def generateCacheKey_def cache_lookup_def Let_def Locate_def subset_hosts_def
      map_filter_simps PodList_def subset_list_def [of None] split: option.split)

end
