(* ===== verification/Saturation.thy ===== *)
theory Saturation
  imports Scheduling_Props
begin

text \<open>
  The saturation detectors
  (src/pkg/epp/framework/plugins/flowcontrol/saturationdetector/concurrency and utilization):
  their configuration, the saturation of a pool, and the filter by which a detector takes
  overloaded endpoints out of scheduling. \<open>now\<close> is the time of the call. Counters of an endpoint are
  \<open>int64\<close> words, and their sums wrap.
\<close>

subsection \<open>Concurrency detector\<close>

datatype concurrencyMode = modeRequests | modeTokens | modeOther string

record concurrency_api_config =
  api_MaxConcurrency :: "int option"
  api_Headroom :: "real option"
  api_ConcurrencyMode :: "concurrencyMode option"
  api_MaxTokenConcurrency :: "int option"

record concurrency_config =
  maxConcurrency :: int
  cd_headroom :: real
  cd_mode :: concurrencyMode
  maxTokenConcurrency :: int

definition defaultMaxConcurrency :: int where
  "defaultMaxConcurrency = 100"

definition defaultMaxTokenConcurrency :: int where
  "defaultMaxTokenConcurrency = 1000000"

text \<open>The values after \<open>applyDefaults\<close>.\<close>

definition concurrency_applyDefaults :: "concurrency_api_config \<Rightarrow> concurrency_config" where
  "concurrency_applyDefaults c =
     \<lparr>maxConcurrency = (case api_MaxConcurrency c of None \<Rightarrow> defaultMaxConcurrency | Some x \<Rightarrow> x),
      cd_headroom = (case api_Headroom c of None \<Rightarrow> 0 | Some x \<Rightarrow> x),
      cd_mode = (case api_ConcurrencyMode c of None \<Rightarrow> modeRequests | Some x \<Rightarrow> x),
      maxTokenConcurrency = (case api_MaxTokenConcurrency c of None \<Rightarrow> defaultMaxTokenConcurrency | Some x \<Rightarrow> x)\<rparr>"

definition concurrency_validateConfig :: "concurrency_config \<Rightarrow> string list" where
  "concurrency_validateConfig c =
     (if maxConcurrency c \<le> 0 then [''maxConcurrency must be strictly positive''] else []) @
     (if cd_headroom c < 0 then [''headroom must be a non-negative value''] else []) @
     (if maxTokenConcurrency c \<le> 0 then [''maxTokenConcurrency must be strictly positive''] else []) @
     (case cd_mode c of modeOther _ \<Rightarrow> [''unsupported concurrencyMode''] | _ \<Rightarrow> [])"

definition concurrency_buildConfig :: "concurrency_api_config option \<Rightarrow> string list + concurrency_config" where
  "concurrency_buildConfig apiCfg =
     (let safeCfg = (case apiCfg of
            None \<Rightarrow> \<lparr>api_MaxConcurrency = None, api_Headroom = None, api_ConcurrencyMode = None, api_MaxTokenConcurrency = None\<rparr>
          | Some c \<Rightarrow> c);
          cfg = concurrency_applyDefaults safeCfg; errs = concurrency_validateConfig cfg
      in if errs \<noteq> [] then Inl errs else Inr cfg)"

definition getLoad :: "attributes \<Rightarrow> inFlightLoad" where
  "getLoad a = (case attr_Get InFlightLoadKey a of
       Some (InFlight load) \<Rightarrow> load
     | _ \<Rightarrow> \<lparr>load_Tokens = 0, load_Requests = 0\<rparr>)"

definition saturation_step :: "concurrency_config \<Rightarrow> endpoint \<Rightarrow> int64 \<times> int64 \<Rightarrow> int64 \<times> int64" where
  "saturation_step cfg e = (\<lambda>(totalInflight, totalCapacity).
     if GetMetadata e = None then (totalInflight, totalCapacity)
     else let load = getLoad (GetAttributes e)
          in if cd_mode cfg = modeTokens
             then (totalInflight + load_Tokens load, totalCapacity + word_of_int (maxTokenConcurrency cfg))
             else (totalInflight + load_Requests load, totalCapacity + word_of_int (maxConcurrency cfg)))"

definition concurrency_Saturation :: "concurrency_config \<Rightarrow> endpoint list \<Rightarrow> real" where
  "concurrency_Saturation cfg endpoints =
     (let (totalInflight, totalCapacity) = fold (saturation_step cfg) endpoints (0, 0)
      in if totalCapacity = 0 then 1
         else real_of_int (sint totalInflight) / real_of_int (sint totalCapacity))"

text \<open>\<open>int64(f)\<close> cuts off the fraction; the products here are not negative.\<close>

definition concurrency_limit :: "concurrency_config \<Rightarrow> int" where
  "concurrency_limit cfg =
     (if cd_mode cfg = modeTokens then \<lfloor>real_of_int (maxTokenConcurrency cfg) * (1 + cd_headroom cfg)\<rfloor>
      else \<lfloor>real_of_int (maxConcurrency cfg) * (1 + cd_headroom cfg)\<rfloor>)"

definition concurrency_Filter :: "concurrency_config \<Rightarrow> filter_fn" where
  "concurrency_Filter cfg req endpoints =
     Some (filter (\<lambda>e. let load = getLoad (GetAttributes e)
                       in if cd_mode cfg = modeTokens then sint (load_Tokens load) < concurrency_limit cfg
                          else sint (load_Requests load) < concurrency_limit cfg) endpoints)"

subsection \<open>Utilization detector\<close>

record utilization_api_config =
  api_QueueDepthThreshold :: "int option"
  api_KVCacheUtilThreshold :: "real option"
  api_MetricsStalenessThreshold :: "duration option"
  api_UtilHeadroom :: "real option"

record utilization_config =
  QueueDepthThreshold :: int
  KVCacheUtilThreshold :: real
  MetricsStalenessThreshold :: duration
  Headroom :: real

definition DefaultQueueDepthThreshold :: int where
  "DefaultQueueDepthThreshold = 5"

definition DefaultKVCacheUtilThreshold :: real where
  "DefaultKVCacheUtilThreshold = 8 / 10"

definition DefaultMetricsStalenessThreshold :: duration where
  "DefaultMetricsStalenessThreshold = 200 * 10 ^ 6"

definition utilization_applyDefaults :: "utilization_api_config \<Rightarrow> utilization_config" where
  "utilization_applyDefaults c =
     \<lparr>QueueDepthThreshold = (case api_QueueDepthThreshold c of None \<Rightarrow> DefaultQueueDepthThreshold | Some x \<Rightarrow> x),
      KVCacheUtilThreshold = (case api_KVCacheUtilThreshold c of None \<Rightarrow> DefaultKVCacheUtilThreshold | Some x \<Rightarrow> x),
      MetricsStalenessThreshold =
        (case api_MetricsStalenessThreshold c of None \<Rightarrow> DefaultMetricsStalenessThreshold | Some x \<Rightarrow> x),
      Headroom = (case api_UtilHeadroom c of None \<Rightarrow> 0 | Some x \<Rightarrow> x)\<rparr>"

definition utilization_validateConfig :: "utilization_config \<Rightarrow> string list" where
  "utilization_validateConfig c =
     (if QueueDepthThreshold c \<le> 0 then [''queueDepthThreshold must be strictly positive''] else []) @
     (if KVCacheUtilThreshold c \<le> 0 \<or> KVCacheUtilThreshold c > 1 then [''kvCacheUtilThreshold must be in (0.0, 1.0]''] else []) @
     (if MetricsStalenessThreshold c \<le> 0 then [''metricsStalenessThreshold must be strictly positive''] else []) @
     (if Headroom c < 0 then [''headroom must be a non-negative value''] else [])"

definition utilization_buildConfig :: "utilization_api_config option \<Rightarrow> string list + utilization_config" where
  "utilization_buildConfig apiCfg =
     (let safeCfg = (case apiCfg of
            None \<Rightarrow> \<lparr>api_QueueDepthThreshold = None, api_KVCacheUtilThreshold = None,
                     api_MetricsStalenessThreshold = None, api_UtilHeadroom = None\<rparr>
          | Some c \<Rightarrow> c);
          cfg = utilization_applyDefaults safeCfg; errs = utilization_validateConfig cfg
      in if errs \<noteq> [] then Inl errs else Inr cfg)"

definition fresh_metrics :: "utilization_config \<Rightarrow> gotime \<Rightarrow> endpoint \<Rightarrow> metrics option" where
  "fresh_metrics cfg now e =
     (case GetMetrics e of
        None \<Rightarrow> None
      | Some m \<Rightarrow> if now - mt_UpdateTime m > MetricsStalenessThreshold cfg then None else Some m)"

definition endpoint_score :: "utilization_config \<Rightarrow> gotime \<Rightarrow> endpoint \<Rightarrow> real" where
  "endpoint_score cfg now e =
     (case fresh_metrics cfg now e of
        None \<Rightarrow> 1
      | Some m \<Rightarrow>
          let qRatio = real_of_int (mt_WaitingQueueSize m) / real_of_int (QueueDepthThreshold cfg);
              kvRatio = mt_KVCacheUsagePercent m / KVCacheUtilThreshold cfg
          in max qRatio kvRatio)"

definition utilization_Saturation :: "utilization_config \<Rightarrow> gotime \<Rightarrow> endpoint list \<Rightarrow> real" where
  "utilization_Saturation cfg now candidates =
     (if length candidates = 0 then 1
      else fold (\<lambda>e totalScore. totalScore + endpoint_score cfg now e) candidates 0 / real (length candidates))"

definition utilization_Filter :: "utilization_config \<Rightarrow> gotime \<Rightarrow> filter_fn" where
  "utilization_Filter cfg now req endpoints =
     (let qLimit = real_of_int (QueueDepthThreshold cfg) * (1 + Headroom cfg);
          kvLimit = KVCacheUtilThreshold cfg * (1 + Headroom cfg);
          filtered = filter (\<lambda>e. case fresh_metrics cfg now e of
              None \<Rightarrow> False
            | Some m \<Rightarrow> real_of_int (mt_WaitingQueueSize m) < qLimit \<and> mt_KVCacheUsagePercent m < kvLimit) endpoints
      in if length filtered = 0 then Some endpoints else Some filtered)"

subsection \<open>Correctness\<close>

interpretation utilization: filter_plugin "utilization_Filter cfg now" for cfg now
  by unfold_locales (auto simp: utilization_Filter_def Let_def filter_empty_conv split: if_splits)

lemma fold_add_sum: "fold (\<lambda>e t. t + f e) es (a :: real) = a + (\<Sum>e\<leftarrow>es. f e)"
  by (induction es arbitrary: a) (auto simp: add.assoc)

definition known_endpoints :: "endpoint list \<Rightarrow> endpoint list" where
  "known_endpoints eps = filter (\<lambda>e. GetMetadata e \<noteq> None) eps"

definition load_of :: "concurrency_config \<Rightarrow> endpoint \<Rightarrow> int" where
  "load_of cfg e = sint (if cd_mode cfg = modeTokens then load_Tokens (getLoad (GetAttributes e))
     else load_Requests (getLoad (GetAttributes e)))"

definition capacity_of :: "concurrency_config \<Rightarrow> int" where
  "capacity_of cfg = (if cd_mode cfg = modeTokens then maxTokenConcurrency cfg else maxConcurrency cfg)"

lemma fold_saturation_step:
  "fold (saturation_step cfg) eps (a, b) =
     (a + word_of_int (\<Sum>e\<leftarrow>known_endpoints eps. load_of cfg e),
      b + word_of_int (int (length (known_endpoints eps)) * capacity_of cfg))"
proof (induction eps arbitrary: a b)
  case (Cons e eps)
  have w: "load_Tokens l = word_of_int (sint (load_Tokens l))" "load_Requests l = word_of_int (sint (load_Requests l))"
    for l :: inFlightLoad by simp_all
  have "saturation_step cfg e (a, b) = (if GetMetadata e = None then (a, b)
      else (a + word_of_int (load_of cfg e), b + word_of_int (capacity_of cfg)))"
    by (simp add: saturation_step_def load_of_def capacity_of_def Let_def)
  then show ?case using Cons by (auto simp: known_endpoints_def algebra_simps)
qed (simp add: known_endpoints_def)

text \<open>
  C31: The concurrency detector reports the true load of the pool. As long as the sums fit into
  64 bits, its saturation is the total of the in-flight loads of the known endpoints over the
  number of these endpoints times the configured capacity, and 1 if there is no such endpoint.
  So the pool is saturated exactly when the loads reach the capacity.
\<close>

theorem concurrency_saturation_exact:
  assumes "concurrency_buildConfig api = Inr cfg"
    and "\<forall>e \<in> set eps. 0 \<le> load_of cfg e"
    and "(\<Sum>e\<leftarrow>known_endpoints eps. load_of cfg e) < 2 ^ 63"
    and "int (length (known_endpoints eps)) * capacity_of cfg < 2 ^ 63"
  shows "concurrency_Saturation cfg eps =
      (if known_endpoints eps = [] then 1
       else real_of_int (\<Sum>e\<leftarrow>known_endpoints eps. load_of cfg e) /
            (real (length (known_endpoints eps)) * real_of_int (capacity_of cfg))) \<and>
    (concurrency_Saturation cfg eps \<ge> 1 \<longleftrightarrow>
      known_endpoints eps = [] \<or>
      (\<Sum>e\<leftarrow>known_endpoints eps. load_of cfg e) \<ge> int (length (known_endpoints eps)) * capacity_of cfg)"
proof -
  have cap: "0 < capacity_of cfg"
    using assms(1) by (auto simp: concurrency_buildConfig_def concurrency_validateConfig_def capacity_of_def Let_def split: if_splits)
  define l where "l = (\<Sum>e\<leftarrow>known_endpoints eps. load_of cfg e)"
  define c where "c = int (length (known_endpoints eps)) * capacity_of cfg"
  have c: "0 \<le> c" "c = 0 \<longleftrightarrow> known_endpoints eps = []" using cap by (simp_all add: c_def)
  have "0 \<le> l" unfolding l_def using assms(2) by (intro sum_list_nonneg) (auto simp: known_endpoints_def)
  then have sl: "sint (word_of_int l :: 64 word) = l" "sint (word_of_int c :: 64 word) = c"
    using c assms(3,4) unfolding l_def [symmetric] c_def [symmetric] by (intro sint64_of_int; simp)+
  have z: "word_of_int c = (0 :: 64 word) \<longleftrightarrow> known_endpoints eps = []"
    using sl(2) c(2) by (metis of_int_0 signed_0)
  have "concurrency_Saturation cfg eps = (if known_endpoints eps = [] then 1 else real_of_int l / real_of_int c)"
    using sl z by (simp add: concurrency_Saturation_def fold_saturation_step Let_def flip: l_def c_def)
  moreover have "real_of_int l / real_of_int c \<ge> 1 \<longleftrightarrow> l \<ge> c" if "known_endpoints eps \<noteq> []"
    using that c by (simp add: le_divide_eq_1_pos)
  ultimately show ?thesis by (simp add: l_def c_def)
qed

text \<open>A configuration with a negative headroom or without capacity is refused.\<close>

lemma concurrency_buildConfig_valid:
  "concurrency_buildConfig api = Inr cfg \<Longrightarrow>
   0 < maxConcurrency cfg \<and> 0 < maxTokenConcurrency cfg \<and> 0 \<le> cd_headroom cfg \<and> cd_mode cfg \<in> {modeRequests, modeTokens}"
  by (cases "cd_mode cfg")
    (auto simp: concurrency_buildConfig_def concurrency_validateConfig_def Let_def split: if_splits)

definition sample_loads :: "int64 list \<Rightarrow> endpoint list" where
  "sample_loads ls = map (\<lambda>l. \<lparr>ep_ptr = 0,
     GetMetadata = Some \<lparr>md_NamespacedName = \<lparr>nn_Name = ''e'', nn_Namespace = ''n''\<rparr>, md_PodName = ''p'',
       md_Address = ''a'', md_Port = ''1'', md_MetricsHost = [], md_Labels = []\<rparr>,
     GetMetrics = None, GetAttributes = [(InFlightLoadKey, InFlight \<lparr>load_Tokens = 0, load_Requests = l\<rparr>)]\<rparr>) ls"

theorem concurrency_saturation_exact_witness:
  "concurrency_Saturation (concurrency_applyDefaults \<lparr>api_MaxConcurrency = None, api_Headroom = None,
     api_ConcurrencyMode = None, api_MaxTokenConcurrency = None\<rparr>) (sample_loads [150, 50]) = 1"
proof -
  let ?api = "\<lparr>api_MaxConcurrency = None, api_Headroom = None, api_ConcurrencyMode = None, api_MaxTokenConcurrency = None\<rparr>"
  have b: "concurrency_buildConfig (Some ?api) = Inr (concurrency_applyDefaults ?api)"
    by (simp add: concurrency_buildConfig_def concurrency_applyDefaults_def concurrency_validateConfig_def
        defaultMaxConcurrency_def defaultMaxTokenConcurrency_def)
  have "known_endpoints (sample_loads [150, 50]) = sample_loads [150, 50]"
    by (simp add: known_endpoints_def sample_loads_def)
  then show ?thesis
    using concurrency_saturation_exact [OF b, of "sample_loads [150, 50]"]
    by (simp add: load_of_def capacity_of_def getLoad_def attr_Get_def sample_loads_def
        concurrency_applyDefaults_def defaultMaxConcurrency_def)
qed

lemma utilization_buildConfig_valid:
  "utilization_buildConfig api = Inr cfg \<Longrightarrow>
   0 < QueueDepthThreshold cfg \<and> 0 < KVCacheUtilThreshold cfg \<and> KVCacheUtilThreshold cfg \<le> 1 \<and>
   0 < MetricsStalenessThreshold cfg \<and> 0 \<le> Headroom cfg"
  by (auto simp: utilization_buildConfig_def utilization_validateConfig_def Let_def split: if_splits)

definition within_limits :: "utilization_config \<Rightarrow> gotime \<Rightarrow> endpoint \<Rightarrow> bool" where
  "within_limits cfg now e \<longleftrightarrow> (case fresh_metrics cfg now e of
       None \<Rightarrow> False
     | Some m \<Rightarrow> real_of_int (mt_WaitingQueueSize m) < real_of_int (QueueDepthThreshold cfg) * (1 + Headroom cfg) \<and>
                 mt_KVCacheUsagePercent m < KVCacheUtilThreshold cfg * (1 + Headroom cfg))"

lemma low_score_within_limits:
  assumes "utilization_buildConfig api = Inr cfg" "endpoint_score cfg now e < 1"
  shows "within_limits cfg now e"
proof -
  note v = utilization_buildConfig_valid [OF assms(1)]
  obtain m where m: "fresh_metrics cfg now e = Some m"
    using assms(2) by (auto simp: endpoint_score_def split: option.splits)
  have "real_of_int (mt_WaitingQueueSize m) < real_of_int (QueueDepthThreshold cfg)"
    "mt_KVCacheUsagePercent m < KVCacheUtilThreshold cfg"
    using assms(2) v by (auto simp: endpoint_score_def m Let_def divide_less_eq_1_pos)
  moreover have le: "x \<le> x * (1 + Headroom cfg)" if "0 < x" for x
    using v that by (simp add: distrib_left)
  have "real_of_int (QueueDepthThreshold cfg) \<le> real_of_int (QueueDepthThreshold cfg) * (1 + Headroom cfg)"
    "KVCacheUtilThreshold cfg \<le> KVCacheUtilThreshold cfg * (1 + Headroom cfg)"
    using v by (simp_all add: le)
  ultimately show ?thesis unfolding within_limits_def m option.case by linarith
qed

lemma average_below_one:
  assumes "(\<Sum>e\<leftarrow>es. f e) / real (length es) < (1 :: real)" "es \<noteq> []"
  shows "\<exists>e \<in> set es. f e < 1"
proof (rule ccontr)
  assume "\<not> ?thesis"
  then have "real (length es) \<le> (\<Sum>e\<leftarrow>es. f e)" by (induction es) (auto simp: not_less)
  then show False using assms by (simp add: divide_less_eq_1)
qed

text \<open>
  C32: Backpressure and routing agree. With a valid configuration, while the utilization detector
  reports a pool as not saturated, its filter does its work instead of falling back to the full
  list: it returns exactly the endpoints with fresh metrics within the limits, there is at least
  one, and every endpoint whose own score is below 1 is among them.
\<close>

theorem unsaturated_pool_filters:
  assumes "utilization_buildConfig api = Inr cfg" "utilization_Saturation cfg now eps < 1"
  shows "utilization_Filter cfg now req eps = Some (filter (within_limits cfg now) eps) \<and>
    filter (within_limits cfg now) eps \<noteq> [] \<and>
    (\<forall>e \<in> set eps. endpoint_score cfg now e < 1 \<longrightarrow> within_limits cfg now e)"
proof -
  have "eps \<noteq> []" using assms(2) by (auto simp: utilization_Saturation_def)
  then obtain e where e: "e \<in> set eps" "endpoint_score cfg now e < 1"
    using assms(2) average_below_one [of "endpoint_score cfg now" eps]
    by (auto simp: utilization_Saturation_def fold_add_sum)
  have "filter (within_limits cfg now) eps \<noteq> []"
    using e low_score_within_limits [OF assms(1) e(2)] by (auto simp: filter_empty_conv)
  moreover have "utilization_Filter cfg now req eps = Some
      (if length (filter (within_limits cfg now) eps) = 0 then eps else filter (within_limits cfg now) eps)"
    by (simp add: utilization_Filter_def within_limits_def [abs_def] Let_def)
  ultimately show ?thesis using low_score_within_limits [OF assms(1)] by auto
qed

theorem unsaturated_pool_filters_witness:
  "utilization_Filter (utilization_applyDefaults \<lparr>api_QueueDepthThreshold = None, api_KVCacheUtilThreshold = None,
      api_MetricsStalenessThreshold = None, api_UtilHeadroom = None\<rparr>) 0 sample_llm_request
      [sample_endpoint 1 1, sample_endpoint 2 6] = Some [sample_endpoint 1 1]"
proof -
  let ?api = "\<lparr>api_QueueDepthThreshold = None, api_KVCacheUtilThreshold = None,
      api_MetricsStalenessThreshold = None, api_UtilHeadroom = None\<rparr>"
  let ?eps = "[sample_endpoint 1 1, sample_endpoint 2 6]"
  note d = utilization_applyDefaults_def DefaultQueueDepthThreshold_def DefaultKVCacheUtilThreshold_def
    DefaultMetricsStalenessThreshold_def
  have b: "utilization_buildConfig (Some ?api) = Inr (utilization_applyDefaults ?api)"
    by (simp add: utilization_buildConfig_def utilization_validateConfig_def d)
  have "utilization_Saturation (utilization_applyDefaults ?api) 0 ?eps < 1"
    by (simp add: utilization_Saturation_def endpoint_score_def fresh_metrics_def sample_endpoint_def NewMetrics_def
        zero_time_def d)
  from unsaturated_pool_filters [OF b this, of sample_llm_request] show ?thesis
    by (simp add: within_limits_def fresh_metrics_def sample_endpoint_def NewMetrics_def zero_time_def d)
qed

end
