(* ===== verification/Ext_Proc.thy ===== *)
theory Ext_Proc
  imports Request_Context
begin

text \<open>
  The external processing server (src/pkg/epp/handlers/server.go, request.go, response.go): one
  \<open>Process\<close> call serves one HTTP request. The messages of Envoy and the end of the stream are
  events, and a \<open>Send\<close> may fail, as a script says. The director and the response parser are
  interfaces here (\<open>Director\<close> models the former), so the state \<open>'d\<close> of the director is arbitrary.
  A director may panic in \<open>HandleRequest\<close>, after it has changed the context; the deferred
  completion runs then as well.
\<close>

subsection \<open>Interfaces\<close>

datatype handle_outcome = HandledOk | HandledErr req_error | HandledPanic

record 'd director_ops =
  do_HandleRequest :: "request_context \<Rightarrow> 'd \<Rightarrow> handle_outcome \<times> request_context \<times> 'd"
  do_HandleResponseHeader :: "request_context \<Rightarrow> 'd \<Rightarrow> request_context \<times> 'd"
  do_HandleResponseBody :: "bool \<Rightarrow> request_context \<Rightarrow> 'd \<Rightarrow> request_context \<times> 'd"
  do_GetRandomEndpoint :: "'d \<Rightarrow> endpoint_metadata option \<times> 'd"

record 'd streaming_server =
  ss_director :: "'d director_ops"
  ss_ParseResponse :: "string \<Rightarrow> go_headers \<Rightarrow> bool \<Rightarrow> string + token_usage option"
  ss_traceHeaders :: go_headers

record srv_io =
  io_sent :: "processing_response list"
  io_script :: "bool list"

record 'd server_state =
  sv_ctx :: request_context
  sv_body :: string
  sv_dir :: 'd
  sv_io :: srv_io

datatype stream_event =
    CtxDone
  | RecvEOF
  | RecvErr string
  | Recv gotime string "(string \<times> go_any) list" processing_request

datatype process_result = ReturnNil | ReturnErr string | Panicked

text \<open>An exhausted script means that sends succeed.\<close>

definition srv_Send :: "processing_response \<Rightarrow> srv_io \<Rightarrow> bool \<times> srv_io" where
  "srv_Send resp io =
     (case io_script io of
        [] \<Rightarrow> (True, io\<lparr>io_sent := io_sent io @ [resp]\<rparr>)
      | ok # rest \<Rightarrow>
          if ok then (True, io\<lparr>io_sent := io_sent io @ [resp], io_script := rest\<rparr>)
          else (False, io\<lparr>io_script := rest\<rparr>))"

fun send_list :: "processing_response list \<Rightarrow> srv_io \<Rightarrow> bool \<times> srv_io" where
  "send_list [] io = (True, io)"
| "send_list (r # rs) io =
     (case srv_Send r io of (ok, io1) \<Rightarrow> if ok then send_list rs io1 else (False, io1))"

subsection \<open>Request side (request.go)\<close>

definition generateMetadata :: "string \<Rightarrow> dyn_metadata" where
  "generateMetadata ep =
     [(DestinationEndpointNamespace, AnyMap [(DestinationEndpointKey, AnyString ep)])]"

definition user_headers :: "go_headers \<Rightarrow> header_value list" where
  "user_headers hs = map (\<lambda>(key, v). raw_header key v) (filter (\<lambda>(key, v). \<not> IsSystemOwnedHeader key) hs)"

definition generateHeaders :: "'d streaming_server \<Rightarrow> request_context \<Rightarrow> header_value list" where
  "generateHeaders s reqCtx =
     [raw_header DestinationEndpointKey (rc_TargetEndpoint reqCtx)] @
     (if rc_RequestSize reqCtx > 0 then [raw_header ''Content-Length'' (Itoa (rc_RequestSize reqCtx))] else []) @
     map (\<lambda>(key, v). raw_header key v) (ss_traceHeaders s) @
     user_headers (rq_Headers (rc_Request reqCtx))"

definition generateRequestHeaderResponse :: "'d streaming_server \<Rightarrow> request_context \<Rightarrow> processing_response" where
  "generateRequestHeaderResponse s reqCtx =
     (let dynamicMetadata = generateMetadata (rc_TargetEndpoint reqCtx)
      in RequestHeadersResponse (generateHeaders s reqCtx)
           (case rs_DynamicMetadata (rc_Response reqCtx) of
              None \<Rightarrow> dynamicMetadata
            | Some flds \<Rightarrow> fold (\<lambda>(k, v). AList.update k v) flds dynamicMetadata))"

definition read_header :: "header_value \<Rightarrow> request_context \<Rightarrow> request_context" where
  "read_header header reqCtx =
     (let key = hv_Key header; v = GetHeaderValue header;
          rc = reqCtx\<lparr>rc_Request := (rc_Request reqCtx)\<lparr>rq_Headers := AList.update key v (rq_Headers (rc_Request reqCtx))\<rparr>\<rparr>
      in if key = FlowFairnessIDKey then rc\<lparr>rc_FairnessID := v\<rparr>
         else if key = ObjectiveKey then rc\<lparr>rc_ObjectiveKey := v\<rparr>
         else if key = ModelNameRewriteKey then rc\<lparr>rc_TargetModelName := v\<rparr>
         else rc)"

definition HandleRequestHeaders ::
  "'d streaming_server \<Rightarrow> gotime \<Rightarrow> header_value list \<Rightarrow> bool \<Rightarrow> request_context \<Rightarrow> 'd \<Rightarrow>
   req_error option \<times> request_context \<times> 'd" where
  "HandleRequestHeaders s now headers endOfStream reqCtx0 d =
     (let reqCtx = reqCtx0\<lparr>rc_RequestReceivedTimestamp := now\<rparr>
      in if endOfStream
         then (case do_GetRandomEndpoint (ss_director s) d of
                 (None, d1) \<Rightarrow> (Some (CommonError Internal ''no pods available in datastore''), reqCtx, d1)
               | (Some ep, d1) \<Rightarrow>
                   let rc1 = reqCtx\<lparr>rc_TargetEndpoint := md_Address ep @ '':'' @ md_Port ep, rc_RequestSize := 0\<rparr>
                   in (None, rc1\<lparr>rc_reqHeaderResp := Some (generateRequestHeaderResponse s rc1)\<rparr>, d1))
         else let rc1 = fold read_header headers reqCtx
              in (None, if rc_FairnessID rc1 = [] then rc1\<lparr>rc_FairnessID := DefaultFairnessID\<rparr> else rc1, d))"

subsection \<open>Response side (response.go)\<close>

text \<open>
  \<open>bytes.ReplaceAll\<close> with a non-empty \<open>old\<close>: occurrences from the left that do not overlap.
\<close>

fun starts_with :: "'a list \<Rightarrow> 'a list \<Rightarrow> bool" where
  "starts_with [] ys = True"
| "starts_with (x # xs) [] = False"
| "starts_with (x # xs) (y # ys) = (x = y \<and> starts_with xs ys)"

fun strings_Contains :: "'a list \<Rightarrow> 'a list \<Rightarrow> bool" where
  "strings_Contains [] sub = (sub = [])"
| "strings_Contains (c # s) sub = (starts_with sub (c # s) \<or> strings_Contains s sub)"

function ReplaceAll :: "'a list \<Rightarrow> 'a list \<Rightarrow> 'a list \<Rightarrow> 'a list" where
  "ReplaceAll [] new s = s"
| "ReplaceAll (o1 # os) new [] = []"
| "ReplaceAll (o1 # os) new (c # s) =
     (if starts_with (o1 # os) (c # s) then new @ ReplaceAll (o1 # os) new (drop (length os) s)
      else c # ReplaceAll (o1 # os) new s)"
  by pat_completeness auto

termination
  by (relation "measure (\<lambda>(old, new, s). length s)") auto

definition model_field :: "string \<Rightarrow> string \<Rightarrow> string" where
  "model_field sep model = [CHR 0x22] @ ''model'' @ [CHR 0x22] @ sep @ [CHR 0x22] @ model @ [CHR 0x22]"

definition rewriteModelName :: "string \<Rightarrow> string \<Rightarrow> string \<Rightarrow> string" where
  "rewriteModelName body targetModel incomingModel =
     (if targetModel = [] \<or> incomingModel = [] \<or> targetModel = incomingModel then body
      else let result = ReplaceAll (model_field '':'' targetModel) (model_field '':'' incomingModel) body
           in if result \<noteq> body then result
              else ReplaceAll (model_field '': '' targetModel) (model_field '': '' incomingModel) body)"

definition server_HandleResponseBody ::
  "'d streaming_server \<Rightarrow> request_context \<Rightarrow> string \<Rightarrow> bool \<Rightarrow> 'd \<Rightarrow> request_context \<times> 'd" where
  "server_HandleResponseBody s reqCtx responseBytes endOfStream d =
     (let rc1 = reqCtx\<lparr>rc_ResponseSize := rc_ResponseSize reqCtx + int (length responseBytes)\<rparr>;
          rc2 = (case ss_ParseResponse s responseBytes (rs_Headers (rc_Response rc1)) endOfStream of
                   Inr (Some u) \<Rightarrow> rc1\<lparr>rc_Usage := u\<rparr>
                 | _ \<Rightarrow> rc1)
      in do_HandleResponseBody (ss_director s) endOfStream rc2 d)"

definition server_HandleResponseHeaders ::
  "'d streaming_server \<Rightarrow> request_context \<Rightarrow> header_value list \<Rightarrow> 'd \<Rightarrow> request_context \<times> 'd" where
  "server_HandleResponseHeaders s reqCtx headers d =
     (let rc1 = reqCtx\<lparr>rc_Response := (rc_Response reqCtx)\<lparr>rs_Headers :=
            fold (\<lambda>header. AList.update (hv_Key header) (GetHeaderValue header)) headers (rs_Headers (rc_Response reqCtx))\<rparr>\<rparr>
      in do_HandleResponseHeader (ss_director s) rc1 d)"

definition generateResponseHeaders :: "request_context \<Rightarrow> header_value list" where
  "generateResponseHeaders reqCtx =
     raw_header ''x-went-into-resp-headers'' ''true'' # user_headers (rs_Headers (rc_Response reqCtx))"

definition finishResponse ::
  "'d streaming_server \<Rightarrow> gotime \<Rightarrow> string \<Rightarrow> bool \<Rightarrow> bool \<Rightarrow> request_context \<Rightarrow> 'd \<Rightarrow> request_context \<times> 'd" where
  "finishResponse s now body modelStreaming setEos reqCtx d =
     (if rc_ResponseComplete reqCtx then (reqCtx, d)
      else case server_HandleResponseBody s
                  (reqCtx\<lparr>rc_ResponseComplete := True, rc_ResponseCompleteTimestamp := now\<rparr>) body True d of
        (rc1, d1) \<Rightarrow>
          if \<not> modelStreaming
          then (rc1\<lparr>rc_respBodyResp :=
                  generateResponseBodyResponses
                    (rewriteModelName body (rc_TargetModelName rc1) (rc_IncomingModelName rc1))
                    setEos (rs_DynamicMetadata (rc_Response rc1))\<rparr>, d1)
          else (rc1, d1))"

subsection \<open>Sending (server.go)\<close>

text \<open>
  One stage of \<open>updateStateAndSendIfNeeded\<close>: under its guard it sends its messages and then
  updates the state; the first failed send ends the call.
\<close>

definition send_stage ::
  "(request_context \<Rightarrow> bool) \<Rightarrow> (request_context \<Rightarrow> processing_response list) \<Rightarrow>
   (request_context \<Rightarrow> request_context) \<Rightarrow> bool \<times> request_context \<times> srv_io \<Rightarrow> bool \<times> request_context \<times> srv_io" where
  "send_stage guard msgs upd = (\<lambda>(ok, r, io).
     if \<not> ok \<or> \<not> guard r then (ok, r, io)
     else case send_list (msgs r) io of (ok1, io1) \<Rightarrow> (ok1, if ok1 then upd r else r, io1))"

definition send_request_header :: "bool \<times> request_context \<times> srv_io \<Rightarrow> bool \<times> request_context \<times> srv_io" where
  "send_request_header =
     send_stage (\<lambda>r. rc_RequestState r = RequestReceived \<and> rc_reqHeaderResp r \<noteq> None)
       (\<lambda>r. [the (rc_reqHeaderResp r)])
       (\<lambda>r. r\<lparr>rc_RequestState := HeaderRequestResponseComplete\<rparr>)"

definition send_request_body :: "bool \<times> request_context \<times> srv_io \<Rightarrow> bool \<times> request_context \<times> srv_io" where
  "send_request_body =
     send_stage (\<lambda>r. rc_RequestState r = HeaderRequestResponseComplete \<and> rc_reqBodyResp r \<noteq> [])
       rc_reqBodyResp
       (\<lambda>r. r\<lparr>rc_RequestState := BodyRequestResponsesComplete, rc_RequestRunning := True, rc_reqBodyResp := []\<rparr>)"

definition send_request_trailer :: "bool \<times> request_context \<times> srv_io \<Rightarrow> bool \<times> request_context \<times> srv_io" where
  "send_request_trailer =
     send_stage (\<lambda>r. rc_RequestState r = BodyRequestResponsesComplete \<and> rc_reqTrailerResp r \<noteq> None)
       (\<lambda>r. [the (rc_reqTrailerResp r)]) (\<lambda>r. r)"

definition send_response_header :: "bool \<times> request_context \<times> srv_io \<Rightarrow> bool \<times> request_context \<times> srv_io" where
  "send_response_header =
     send_stage (\<lambda>r. rc_RequestState r = ResponseReceived \<and> rc_respHeaderResp r \<noteq> None)
       (\<lambda>r. [the (rc_respHeaderResp r)])
       (\<lambda>r. r\<lparr>rc_RequestState := HeaderResponseResponseComplete\<rparr>)"

definition send_response_body :: "bool \<times> request_context \<times> srv_io \<Rightarrow> bool \<times> request_context \<times> srv_io" where
  "send_response_body =
     send_stage (\<lambda>r. rc_RequestState r = HeaderResponseResponseComplete)
       rc_respBodyResp
       (\<lambda>r. (if rc_ResponseComplete r then r\<lparr>rc_RequestState := BodyResponseResponsesComplete\<rparr> else r)\<lparr>rc_respBodyResp := []\<rparr>)"

definition send_response_trailer :: "bool \<times> request_context \<times> srv_io \<Rightarrow> bool \<times> request_context \<times> srv_io" where
  "send_response_trailer =
     send_stage (\<lambda>r. rc_RequestState r = BodyResponseResponsesComplete \<and> rc_respTrailerResp r \<noteq> None)
       (\<lambda>r. [the (rc_respTrailerResp r)]) (\<lambda>r. r)"

definition updateStateAndSendIfNeeded :: "request_context \<Rightarrow> srv_io \<Rightarrow> bool \<times> request_context \<times> srv_io" where
  "updateStateAndSendIfNeeded r io =
     send_response_trailer (send_response_body (send_response_header
       (send_request_trailer (send_request_body (send_request_header (True, r, io))))))"

subsection \<open>The loop\<close>

definition read_response_header :: "header_value \<Rightarrow> request_context \<Rightarrow> request_context" where
  "read_response_header header reqCtx =
     (if hv_Key header = ''status'' \<and> hv_RawValue header \<noteq> ''200''
      then reqCtx\<lparr>rc_ResponseStatusCode := Some ModelServerError\<rparr>
      else if hv_Key header = ''content-type'' \<and> strings_Contains (hv_RawValue header) ''text/event-stream''
      then reqCtx\<lparr>rc_modelServerStreaming := True\<rparr>
      else reqCtx)"

definition process_message ::
  "'d streaming_server \<Rightarrow> gotime \<Rightarrow> string \<Rightarrow> processing_request \<Rightarrow> 'd server_state \<Rightarrow>
   handle_outcome \<times> 'd server_state" where
  "process_message s now newID msg st =
     (let reqCtx = sv_ctx st; d = sv_dir st
      in case msg of
        RequestHeaders headers endOfStream \<Rightarrow>
          let rc1 = (if ExtractHeaderValue headers RequestIdHeaderKey = []
                     then reqCtx\<lparr>rc_Request := (rc_Request reqCtx)\<lparr>rq_Headers :=
                            AList.update RequestIdHeaderKey newID (rq_Headers (rc_Request reqCtx))\<rparr>\<rparr>
                     else reqCtx)
          in (case HandleRequestHeaders s now headers endOfStream rc1 d of
                (err, rc2, d1) \<Rightarrow>
                  (case err of None \<Rightarrow> HandledOk | Some e \<Rightarrow> HandledErr e, st\<lparr>sv_ctx := rc2, sv_dir := d1\<rparr>))
      | RequestBody chunk endOfStream \<Rightarrow>
          let body = sv_body st @ chunk
          in if \<not> endOfStream then (HandledOk, st\<lparr>sv_body := body\<rparr>)
             else let rc1 = reqCtx\<lparr>rc_Request := (rc_Request reqCtx)\<lparr>rq_RawBody := body\<rparr>, rc_RequestSize := int (length body)\<rparr>
                  in (case do_HandleRequest (ss_director s) rc1 d of
                        (HandledPanic, rc2, d1) \<Rightarrow> (HandledPanic, st\<lparr>sv_ctx := rc2, sv_body := [], sv_dir := d1\<rparr>)
                      | (HandledErr err, rc2, d1) \<Rightarrow> (HandledErr err, st\<lparr>sv_ctx := rc2, sv_body := [], sv_dir := d1\<rparr>)
                      | (HandledOk, rc2, d1) \<Rightarrow>
                          let rc3 = (case rc_SchedulingRequest rc2 of
                                       Some req \<Rightarrow> (case lr_Body req of
                                           Some b \<Rightarrow> rc2\<lparr>rc_modelServerStreaming := lb_Stream b\<rparr>
                                         | None \<Rightarrow> rc2)
                                     | None \<Rightarrow> rc2);
                              rc4 = rc3\<lparr>rc_reqHeaderResp := Some (generateRequestHeaderResponse s rc3),
                                        rc_reqBodyResp := GenerateRequestBodyResponses (rq_RawBody (rc_Request rc3))\<rparr>
                          in (HandledOk, st\<lparr>sv_ctx := rc4, sv_body := [], sv_dir := d1\<rparr>))
      | RequestTrailers \<Rightarrow> (HandledOk, st)
      | ResponseHeaders headers \<Rightarrow>
          let rc1 = (fold read_response_header headers reqCtx)\<lparr>rc_RequestState := ResponseReceived\<rparr>
          in (case server_HandleResponseHeaders s rc1 headers d of
                (rc2, d1) \<Rightarrow>
                  (HandledOk, st\<lparr>sv_ctx := rc2\<lparr>rc_respHeaderResp := Some (ResponseHeadersResponse (generateResponseHeaders rc2))\<rparr>,
                                 sv_dir := d1\<rparr>))
      | ResponseBody chunk endOfStream \<Rightarrow>
          if rc_modelServerStreaming reqCtx
          then let rc1 = (if endOfStream
                          then reqCtx\<lparr>rc_ResponseComplete := True, rc_ResponseCompleteTimestamp := now\<rparr> else reqCtx)
               in (case server_HandleResponseBody s rc1 chunk endOfStream d of
                     (rc2, d1) \<Rightarrow>
                       (HandledOk, st\<lparr>sv_ctx := rc2\<lparr>rc_respBodyResp :=
                                generateResponseBodyResponses
                                  (rewriteModelName chunk (rc_TargetModelName rc2) (rc_IncomingModelName rc2))
                                  endOfStream (rs_DynamicMetadata (rc_Response rc2))\<rparr>,
                                sv_dir := d1\<rparr>))
          else let body = sv_body st @ chunk
               in if endOfStream
                  then (case finishResponse s now body (rc_modelServerStreaming reqCtx) True reqCtx d of
                          (rc1, d1) \<Rightarrow> (HandledOk, st\<lparr>sv_ctx := rc1, sv_body := body, sv_dir := d1\<rparr>))
                  else (HandledOk, st\<lparr>sv_body := body\<rparr>)
      | ResponseTrailers \<Rightarrow>
          (case finishResponse s now (sv_body st) (rc_modelServerStreaming reqCtx) False reqCtx d of
             (rc1, d1) \<Rightarrow>
               (HandledOk, st\<lparr>sv_ctx := rc1\<lparr>rc_respTrailerResp := Some ResponseTrailersResponse\<rparr>, sv_dir := d1\<rparr>)))"

definition process_step ::
  "'d streaming_server \<Rightarrow> stream_event \<Rightarrow> 'd server_state \<Rightarrow> process_result option \<times> 'd server_state" where
  "process_step s ev st =
     (case ev of
        CtxDone \<Rightarrow> (Some (ReturnErr ''context done''), st)
      | RecvEOF \<Rightarrow> (Some ReturnNil, st)
      | RecvErr e \<Rightarrow> (Some (ReturnErr (''cannot receive stream request: '' @ e)), st)
      | Recv now newID metadata msg \<Rightarrow>
          let rc = sv_ctx st; st0 = st\<lparr>sv_ctx := rc\<lparr>rc_Request := (rc_Request rc)\<lparr>rq_Metadata := Some metadata\<rparr>\<rparr>\<rparr>
          in (case process_message s now newID msg st0 of
                (HandledPanic, st1) \<Rightarrow> (Some Panicked, st1)
              | (HandledErr err, st1) \<Rightarrow>
                  (case BuildErrResponse err of
                     Inl e \<Rightarrow> (Some (ReturnErr e), st1)
                   | Inr resp \<Rightarrow>
                       (case srv_Send resp (sv_io st1) of
                          (ok, io1) \<Rightarrow>
                            (Some (if ok then ReturnNil else ReturnErr ''failed to send response back to Envoy''),
                             st1\<lparr>sv_io := io1\<rparr>)))
              | (HandledOk, st1) \<Rightarrow>
                  (case updateStateAndSendIfNeeded (sv_ctx st1) (sv_io st1) of
                     (ok, rc1, io1) \<Rightarrow>
                       (if ok then None else Some (ReturnErr ''failed to send response back to Envoy''),
                        st1\<lparr>sv_ctx := rc1, sv_io := io1\<rparr>))))"

definition process_defer :: "'d streaming_server \<Rightarrow> 'd server_state \<Rightarrow> 'd server_state" where
  "process_defer s st =
     (if rc_TargetPod (sv_ctx st) \<noteq> None \<and> \<not> rc_ResponseComplete (sv_ctx st)
      then (case do_HandleResponseBody (ss_director s) True (sv_ctx st) (sv_dir st) of
              (rc1, d1) \<Rightarrow> st\<lparr>sv_ctx := rc1, sv_dir := d1\<rparr>)
      else st)"

fun process_loop ::
  "'d streaming_server \<Rightarrow> stream_event list \<Rightarrow> 'd server_state \<Rightarrow> process_result option \<times> 'd server_state" where
  "process_loop s [] st = (None, st)"
| "process_loop s (ev # evs) st =
     (case process_step s ev st of
        (Some r, st1) \<Rightarrow> (Some r, process_defer s st1)
      | (None, st1) \<Rightarrow> process_loop s evs st1)"

definition new_request_context :: request_context where
  "new_request_context =
     \<lparr>rc_TargetPod = None, rc_TargetEndpoint = [], rc_IncomingModelName = [], rc_TargetModelName = [],
      rc_FairnessID = [], rc_ObjectiveKey = [], rc_Priority = 0,
      rc_RequestReceivedTimestamp = zero_time, rc_ResponseCompleteTimestamp = zero_time,
      rc_RequestSize = 0,
      rc_Usage = \<lparr>us_PromptTokens = 0, us_CompletionTokens = 0, us_TotalTokens = 0, us_CachedTokens = None\<rparr>,
      rc_ResponseSize = 0, rc_ResponseComplete = False, rc_ResponseStatusCode = None,
      rc_RequestRunning = False,
      rc_Request = \<lparr>rq_Headers = [], rq_RawBody = [], rq_Metadata = Some []\<rparr>,
      rc_SchedulingRequest = None, rc_RequestState = RequestReceived, rc_modelServerStreaming = False,
      rc_Response = \<lparr>rs_Headers = [], rs_DynamicMetadata = None\<rparr>,
      rc_reqHeaderResp = None, rc_reqBodyResp = [], rc_reqTrailerResp = None,
      rc_respHeaderResp = None, rc_respBodyResp = [], rc_respTrailerResp = None\<rparr>"

definition Process ::
  "'d streaming_server \<Rightarrow> stream_event list \<Rightarrow> bool list \<Rightarrow> 'd \<Rightarrow> process_result option \<times> 'd server_state" where
  "Process s evs sends d =
     process_loop s evs \<lparr>sv_ctx = new_request_context, sv_body = [], sv_dir = d,
       sv_io = \<lparr>io_sent = [], io_script = sends\<rparr>\<rparr>"

end
