(* ===== verification/Admission.thy ===== *)
theory Admission
  imports Candidates Saturation Ext_Proc
begin

text \<open>
  Admission control: src/pkg/epp/requestcontrol/admission.go. The legacy controller rejects
  sheddable requests while the pool is saturated; the other one hands each request to flow
  control and translates the outcome. The state \<open>'a\<close> is that of the candidates lookup or of flow
  control. The text of a flow control error (\<open>err.Error()\<close>) is an argument, since the model of
  flow control keeps the wrapped sentinels of an error and not all of its text.
\<close>

definition rejectIfSheddableAndSaturated ::
  "(endpoint list \<Rightarrow> real) \<Rightarrow> (request_metadata \<Rightarrow> 'a \<Rightarrow> endpoint list \<times> 'a) \<Rightarrow> request_context \<Rightarrow> int \<Rightarrow> 'a \<Rightarrow> handle_outcome \<times> 'a" where
  "rejectIfSheddableAndSaturated saturation locate reqCtx priority a =
     (if IsSheddable priority
      then let (endpoints, a1) = locate (rq_Metadata (rc_Request reqCtx)) a
           in if saturation endpoints \<ge> 1
              then ((if rc_SchedulingRequest reqCtx = None then HandledPanic
                     else HandledErr (CommonError ResourceExhausted ''system saturated, sheddable request dropped'')), a1)
              else (HandledOk, a1)
      else (HandledOk, a))"

definition legacy_Admit ::
  "(endpoint list \<Rightarrow> real) \<Rightarrow> (request_metadata \<Rightarrow> 'a \<Rightarrow> endpoint list \<times> 'a) \<Rightarrow> request_context \<Rightarrow> int \<Rightarrow> 'a \<Rightarrow> handle_outcome \<times> 'a" where
  "legacy_Admit saturation locate reqCtx priority a =
     (case rejectIfSheddableAndSaturated saturation locate reqCtx priority a of
        (HandledOk, a1) \<Rightarrow> ((if rc_SchedulingRequest reqCtx = None then HandledPanic else HandledOk), a1)
      | (out, a1) \<Rightarrow> (out, a1))"

definition flowControlRequest :: "request_context \<Rightarrow> llm_request \<Rightarrow> int \<Rightarrow> flow_request" where
  "flowControlRequest reqCtx inferenceRequest priority =
     \<lparr>req_id = lr_RequestId inferenceRequest,
      req_flowKey = \<lparr>ID = rc_FairnessID reqCtx, Priority = priority\<rparr>,
      req_byteSize = word_of_int (rc_RequestSize reqCtx),
      receivedTimestamp = rc_RequestReceivedTimestamp reqCtx,
      initialEffectiveTTL = 0,
      infReq_headers = Some (lr_Headers inferenceRequest)\<rparr>"

definition translateFlowControlOutcome :: "(gerror \<Rightarrow> string) \<Rightarrow> queue_outcome \<Rightarrow> gerror option \<Rightarrow> handle_outcome" where
  "translateFlowControlOutcome error_text outcome err =
     (let msg = (case err of None \<Rightarrow> ''request rejected by flow control'' | Some e \<Rightarrow> error_text e)
      in case outcome of
           QueueOutcomeDispatched \<Rightarrow> HandledOk
         | QueueOutcomeRejectedCapacity \<Rightarrow> HandledErr (CommonError ResourceExhausted msg)
         | QueueOutcomeEvictedTTL \<Rightarrow> HandledErr (CommonError ServiceUnavailable (''request timed out in queue: '' @ msg))
         | QueueOutcomeEvictedContextCancelled \<Rightarrow> HandledErr (CommonError ServiceUnavailable (''client disconnected: '' @ msg))
         | QueueOutcomeRejectedOther \<Rightarrow> HandledErr (CommonError Internal (''internal flow control error: '' @ msg))
         | QueueOutcomeEvictedOther \<Rightarrow> HandledErr (CommonError Internal (''internal flow control error: '' @ msg))
         | _ \<Rightarrow> HandledErr (CommonError Internal (''unhandled flow control outcome: '' @ msg)))"

text \<open>\<open>enqueue\<close> is \<open>EnqueueAndWait\<close> of the flow controller.\<close>

definition flow_Admit ::
  "(gerror \<Rightarrow> string) \<Rightarrow> (flow_request \<Rightarrow> 'a \<Rightarrow> ((queue_outcome \<times> gerror option) \<times> 'a) option) \<Rightarrow>
   request_context \<Rightarrow> int \<Rightarrow> 'a \<Rightarrow> handle_outcome \<times> 'a" where
  "flow_Admit error_text enq reqCtx priority a =
     (case rc_SchedulingRequest reqCtx of
        None \<Rightarrow> (HandledPanic, a)
      | Some inferenceRequest \<Rightarrow>
          (case enq (flowControlRequest reqCtx inferenceRequest priority) a of
             None \<Rightarrow> (HandledPanic, a)
           | Some ((outcome, err), a1) \<Rightarrow> (translateFlowControlOutcome error_text outcome err, a1)))"

end
