(* ===== verification/Rewrite_Props.thy ===== *)
theory Rewrite_Props
  imports Datastore
begin

text \<open>
  Correctness of the store of rewrite rules. Its two indexes are a cache of the rewrite objects:
  \<open>store_inv\<close> says that each list of rules holds exactly the rules of the stored objects that
  belong to it, oldest first. Every operation keeps it, and from it follows which rule wins.
\<close>

subsection \<open>What sort.Slice promises\<close>

definition sorts_slices :: "'a sort_slice \<Rightarrow> bool" where
  "sorts_slices sort_Slice \<longleftrightarrow>
     (\<forall>lt xs. (\<forall>a b. lt a b \<longrightarrow> \<not> lt b a) \<and> (\<forall>a b c. \<not> lt b a \<longrightarrow> \<not> lt c b \<longrightarrow> \<not> lt c a) \<longrightarrow>
        mset (sort_Slice lt xs) = mset xs \<and> sorted_wrt (\<lambda>a b. \<not> lt b a) (sort_Slice lt xs))"

lemma sorts_slices_older:
  assumes "sorts_slices sort_Slice"
  shows "mset (sort_Slice older xs) = mset xs"
    "sorted_wrt (\<lambda>a b. rm_createTimestamp a \<le> rm_createTimestamp b) (sort_Slice older xs)"
proof -
  have "mset (sort_Slice older xs) = mset xs \<and> sorted_wrt (\<lambda>a b. \<not> older b a) (sort_Slice older xs)"
    by (rule assms [unfolded sorts_slices_def, THEN spec, THEN spec, THEN mp]) (auto simp: older_def)
  then show "mset (sort_Slice older xs) = mset xs"
    "sorted_wrt (\<lambda>a b. rm_createTimestamp a \<le> rm_createTimestamp b) (sort_Slice older xs)"
    by (auto simp: older_def not_less)
qed

definition insertion_sort :: "'a sort_slice" where
  "insertion_sort lt xs = foldr (\<lambda>x ys. takeWhile (\<lambda>y. lt y x) ys @ x # dropWhile (\<lambda>y. lt y x) ys) xs []"

lemma insertion_sort_sorts: "sorts_slices insertion_sort"
  unfolding sorts_slices_def
proof (intro allI impI)
  fix lt :: "'a \<Rightarrow> 'a \<Rightarrow> bool" and xs
  assume l: "(\<forall>a b. lt a b \<longrightarrow> \<not> lt b a) \<and> (\<forall>a b c. \<not> lt b a \<longrightarrow> \<not> lt c b \<longrightarrow> \<not> lt c a)"
  show "mset (insertion_sort lt xs) = mset xs \<and> sorted_wrt (\<lambda>a b. \<not> lt b a) (insertion_sort lt xs)"
  proof (induction xs)
    case (Cons x xs)
    let ?ys = "insertion_sort lt xs"
    let ?t = "takeWhile (\<lambda>y. lt y x) ?ys" and ?d = "dropWhile (\<lambda>y. lt y x) ?ys"
    have eq: "insertion_sort lt (x # xs) = ?t @ x # ?d" by (simp add: insertion_sort_def)
    have "mset ?t + mset ?d = mset ?ys" by (metis mset_append takeWhile_dropWhile_id)
    then have m: "mset (insertion_sort lt (x # xs)) = mset (x # xs)" unfolding eq using Cons by simp
    have s: "sorted_wrt (\<lambda>a b. \<not> lt b a) (?t @ ?d)" using Cons by simp
    have td: "\<forall>a \<in> set ?t. lt a x" by (auto dest: set_takeWhileD)
    have "\<forall>b \<in> set ?d. \<not> lt b x"
    proof (cases ?d)
      case (Cons b bs)
      then have "\<not> lt b x" using hd_dropWhile [of "\<lambda>y. lt y x" ?ys] by simp
      moreover have "\<forall>c \<in> set bs. \<not> lt c b" using s Cons by (simp add: sorted_wrt_append)
      ultimately show ?thesis using Cons l by (metis set_ConsD)
    qed (simp only: list.set ball_empty)
    moreover have "\<forall>a \<in> set ?t. \<not> lt x a" using td l by blast
    ultimately have "sorted_wrt (\<lambda>a b. \<not> lt b a) (?t @ x # ?d)"
      using s unfolding sorted_wrt_append sorted_wrt.simps list.set by blast
    then show ?case using m eq by simp
  qed (simp add: insertion_sort_def)
qed

subsection \<open>The invariant\<close>

definition stored_rules :: "modelRewriteStore \<Rightarrow> rewriteRuleWithMetadata list" where
  "stored_rules ms = concat (map (\<lambda>(n, mr). map (rule_with_metadata mr) (mr_Rules mr)) (allReWrites ms))"

definition exact_rules :: "string \<Rightarrow> modelRewriteStore \<Rightarrow> rewriteRuleWithMetadata list" where
  "exact_rules model ms = (case map_of (rulesByExactModelMatch ms) model of None \<Rightarrow> [] | Some rs \<Rightarrow> rs)"

definition matches_exactly :: "string \<Rightarrow> rewriteRuleWithMetadata \<Rightarrow> bool" where
  "matches_exactly model rr \<longleftrightarrow> Some model \<in> set (rr_Matches (rm_rule rr))"

definition indexed :: "rewriteRuleWithMetadata multiset \<Rightarrow> modelRewriteStore \<Rightarrow> bool" where
  "indexed M ms \<longleftrightarrow>
     mset (genericRules ms) = filter_mset isGeneric M \<and>
     (\<forall>model. mset (exact_rules model ms) = filter_mset (matches_exactly model) M)"

definition oldest_first :: "rewriteRuleWithMetadata list \<Rightarrow> bool" where
  "oldest_first rs \<longleftrightarrow> sorted_wrt (\<lambda>a b. rm_createTimestamp a \<le> rm_createTimestamp b) rs"

definition store_inv :: "modelRewriteStore \<Rightarrow> bool" where
  "store_inv ms \<longleftrightarrow>
     distinct (map fst (allReWrites ms)) \<and> distinct (map fst (rulesByExactModelMatch ms)) \<and> (\<forall>(n, mr) \<in> set (allReWrites ms). mr_Name mr = n) \<and>
     indexed (mset (stored_rules ms)) ms \<and>
     oldest_first (genericRules ms) \<and> (\<forall>model. oldest_first (exact_rules model ms))"

lemma matches_not_generic: "matches_exactly model rr \<Longrightarrow> \<not> isGeneric rr"
  by (auto simp: matches_exactly_def isGeneric_def)

lemma set_exactModels: "set (exactModels rr) = {model. matches_exactly model rr}" "distinct (exactModels rr)"
  by (force simp: exactModels_def matches_exactly_def map_filter_def)+

lemma store_inv_new: "store_inv newModelRewriteStore"
  by (simp add: store_inv_def newModelRewriteStore_def indexed_def exact_rules_def stored_rules_def oldest_first_def)

subsection \<open>Deleting\<close>

lemma stored_rules_delete:
  assumes "\<forall>(n, mr) \<in> set kvs. mr_Name mr = n"
  shows "concat (map (\<lambda>(n, mr). map (rule_with_metadata mr) (mr_Rules mr)) (AList.delete n kvs)) =
    filter (\<lambda>r. parentName r \<noteq> n) (concat (map (\<lambda>(n, mr). map (rule_with_metadata mr) (mr_Rules mr)) kvs))"
  using assms
proof (induction kvs)
  case (Cons kv kvs)
  obtain k mr where kv: "kv = (k, mr)" "mr_Name mr = k" using Cons.prems by (cases kv) auto
  have "filter (\<lambda>r. parentName r \<noteq> n) (map (rule_with_metadata mr) (mr_Rules mr)) =
    (if k = n then [] else map (rule_with_metadata mr) (mr_Rules mr))"
    using kv by (induction "mr_Rules mr") (auto simp: parentName_def rule_with_metadata_def filter_map o_def)
  then show ?case using Cons kv by (auto simp: AList.delete_eq)
qed simp

lemma map_of_filter_map:
  assumes "distinct (map fst kvs)"
  shows "map_of (filter (\<lambda>(m, rs). rs \<noteq> []) (map (\<lambda>(m, rs). (m, f rs)) kvs)) model =
    (case map_of kvs model of None \<Rightarrow> None | Some rs \<Rightarrow> if f rs = [] then None else Some (f rs))"
  using assms
proof (induction kvs)
  case (Cons kv kvs)
  have "map_of kvs k = None" if "k \<notin> fst ` set kvs" for k using that by (simp add: map_of_eq_None_iff)
  then show ?case using Cons by (cases kv) auto
qed simp

lemma exact_rules_delete:
  assumes "map_of (allReWrites ms) n \<noteq> None" "distinct (map fst (rulesByExactModelMatch ms))"
  shows "exact_rules model (deleteInternal n ms) = filter (\<lambda>r. parentName r \<noteq> n) (exact_rules model ms)"
  using assms by (auto simp: exact_rules_def deleteInternal_def map_of_filter_map split: option.splits)

lemma oldest_first_filter: "oldest_first rs \<Longrightarrow> oldest_first (filter P rs)"
  by (simp add: oldest_first_def sorted_wrt_filter)

lemma indexed_filter:
  assumes "indexed M ms" "mset (genericRules ms') = filter_mset P (mset (genericRules ms))"
    "\<And>model. mset (exact_rules model ms') = filter_mset P (mset (exact_rules model ms))"
  shows "indexed (filter_mset P M) ms'"
  using assms by (simp add: indexed_def filter_filter_mset conj_commute)

lemma deleteInternal_inv:
  assumes "store_inv ms"
  shows "store_inv (deleteInternal n ms)" "allReWrites (deleteInternal n ms) = AList.delete n (allReWrites ms)"
proof -
  show all: "allReWrites (deleteInternal n ms) = AList.delete n (allReWrites ms)"
    by (auto simp: deleteInternal_def map_of_eq_None_iff AList.delete_idem)
  show "store_inv (deleteInternal n ms)"
  proof (cases "map_of (allReWrites ms) n")
    case (Some mr)
    let ?P = "\<lambda>r. parentName r \<noteq> n"
    have d: "distinct (map fst (rulesByExactModelMatch ms))" and i: "indexed (mset (stored_rules ms)) ms"
      using assms by (simp_all add: store_inv_def)
    have g: "genericRules (deleteInternal n ms) = filter ?P (genericRules ms)"
      using Some by (simp add: deleteInternal_def)
    have e: "exact_rules model (deleteInternal n ms) = filter ?P (exact_rules model ms)" for model
      using Some d by (intro exact_rules_delete) simp_all
    have r: "stored_rules (deleteInternal n ms) = filter ?P (stored_rules ms)"
      using assms unfolding stored_rules_def all store_inv_def by (intro stored_rules_delete) simp
    have "indexed (mset (stored_rules (deleteInternal n ms))) (deleteInternal n ms)"
      unfolding r mset_filter by (rule indexed_filter [OF i]) (simp_all add: g e)
    moreover have "distinct (map fst (rulesByExactModelMatch (deleteInternal n ms)))"
      using d Some by (simp add: deleteInternal_def distinct_map_filter o_def split_def)
    ultimately show ?thesis
      using assms by (auto simp: store_inv_def all g e oldest_first_filter distinct_map_filter AList.delete_eq)
  qed (use assms in \<open>simp add: deleteInternal_def\<close>)
qed

subsection \<open>Adding rules\<close>

lemma exact_rules_add_exact:
  "(case map_of (add_exact rr model m) model' of None \<Rightarrow> [] | Some rs \<Rightarrow> rs) =
   (case map_of m model' of None \<Rightarrow> [] | Some rs \<Rightarrow> rs) @ (if model' = model then [rr] else [])"
  by (simp add: add_exact_def update_conv' split: option.splits)

lemma fold_add_exact:
  assumes "distinct models"
  shows "(case map_of (fold (add_exact rr) models m) model of None \<Rightarrow> [] | Some rs \<Rightarrow> rs) =
    (case map_of m model of None \<Rightarrow> [] | Some rs \<Rightarrow> rs) @ (if model \<in> set models then [rr] else [])"
  using assms by (induction models arbitrary: m) (auto simp: exact_rules_add_exact)

lemma fold_add_exact_distinct: "distinct (map fst m) \<Longrightarrow> distinct (map fst (fold (add_exact rr) models m))"
  by (induction models arbitrary: m) (auto simp: add_exact_def distinct_update)

lemma add_rule_indexed:
  assumes "indexed M ms"
  shows "indexed (add_mset rr M) (add_rule rr ms)"
proof -
  have "exact_rules model (add_rule rr ms) = exact_rules model ms @ (if matches_exactly model rr then [rr] else [])" for model
    using set_exactModels [of rr] matches_not_generic [of model rr]
    by (auto simp: add_rule_def exact_rules_def fold_add_exact)
  then show ?thesis using assms by (simp add: indexed_def add_rule_def)
qed

lemma add_rules:
  "indexed M ms \<Longrightarrow> distinct (map fst (rulesByExactModelMatch ms)) \<Longrightarrow>
   indexed (M + mset (map f rules)) (fold (\<lambda>rule. add_rule (f rule)) rules ms) \<and>
   distinct (map fst (rulesByExactModelMatch (fold (\<lambda>rule. add_rule (f rule)) rules ms))) \<and>
   allReWrites (fold (\<lambda>rule. add_rule (f rule)) rules ms) = allReWrites ms"
proof (induction rules arbitrary: M ms)
  case (Cons r rs)
  have "distinct (map fst (rulesByExactModelMatch (add_rule (f r) ms)))" "allReWrites (add_rule (f r) ms) = allReWrites ms"
    using Cons.prems(2) by (simp_all add: add_rule_def fold_add_exact_distinct)
  then show ?case using Cons.IH [OF add_rule_indexed [OF Cons.prems(1), of "f r"]] by simp
qed simp

lemma stored_rules_update:
  assumes "map_of kvs n = None"
  shows "mset (concat (map (\<lambda>(n, mr). map (rule_with_metadata mr) (mr_Rules mr)) (AList.update n mr kvs))) =
    mset (concat (map (\<lambda>(n, mr). map (rule_with_metadata mr) (mr_Rules mr)) kvs)) + mset (map (rule_with_metadata mr) (mr_Rules mr))"
  using assms by (induction kvs) (auto split: if_splits)

lemma store_set_inv:
  assumes "store_inv ms" "sorts_slices sort_Slice"
  shows "store_inv (store_set sort_Slice mr ms)"
    "allReWrites (store_set sort_Slice mr ms) = AList.update (mr_Name mr) mr (AList.delete (mr_Name mr) (allReWrites ms))"
proof -
  define n where "n = mr_Name mr"
  define ms1 where "ms1 = deleteInternal n ms"
  define ms2 where "ms2 = ms1\<lparr>allReWrites := AList.update n mr (allReWrites ms1)\<rparr>"
  define ms3 where "ms3 = fold (\<lambda>rule. add_rule (rule_with_metadata mr rule)) (mr_Rules mr) ms2"
  have inv1: "store_inv ms1" and all1: "allReWrites ms1 = AList.delete n (allReWrites ms)"
    unfolding ms1_def by (rule deleteInternal_inv [OF assms(1)])+
  have new: "map_of (allReWrites ms1) n = None" by (simp add: all1 delete_conv')
  have res: "store_set sort_Slice mr ms = ms3\<lparr>genericRules := sort_Slice older (genericRules ms3),
      rulesByExactModelMatch := map (\<lambda>(model, rs). (model, sort_Slice older rs)) (rulesByExactModelMatch ms3)\<rparr>"
    by (simp add: store_set_def Let_def ms3_def ms2_def ms1_def n_def deleteInternal_def)
  have i2: "indexed (mset (stored_rules ms1)) ms2" "distinct (map fst (rulesByExactModelMatch ms2))"
    using inv1 by (simp_all add: store_inv_def ms2_def indexed_def exact_rules_def)
  note add = add_rules [OF i2, of "rule_with_metadata mr" "mr_Rules mr", folded ms3_def]
  have rules: "mset (stored_rules (store_set sort_Slice mr ms)) = mset (stored_rules ms1) + mset (map (rule_with_metadata mr) (mr_Rules mr))"
    using add stored_rules_update [OF new, of mr] by (simp add: stored_rules_def res ms2_def)
  show all: "allReWrites (store_set sort_Slice mr ms) = AList.update (mr_Name mr) mr (AList.delete (mr_Name mr) (allReWrites ms))"
    using add by (simp add: res ms2_def all1 n_def)
  have ex: "exact_rules model (store_set sort_Slice mr ms) = (case map_of (rulesByExactModelMatch ms3) model of
      None \<Rightarrow> [] | Some rs \<Rightarrow> sort_Slice older rs)" for model
    by (simp add: exact_rules_def res map_of_map split: option.splits)
  have ms: "mset (exact_rules model (store_set sort_Slice mr ms)) = mset (exact_rules model ms3)"
    "oldest_first (exact_rules model (store_set sort_Slice mr ms))" for model
    unfolding ex using sorts_slices_older [OF assms(2)]
    by (auto simp: exact_rules_def oldest_first_def split: option.splits)
  have "indexed (mset (stored_rules (store_set sort_Slice mr ms))) (store_set sort_Slice mr ms)"
    unfolding rules using add sorts_slices_older(1) [OF assms(2)] by (simp add: indexed_def ms(1)) (simp add: res)
  moreover have "oldest_first (genericRules (store_set sort_Slice mr ms))"
    using sorts_slices_older(2) [OF assms(2)] by (simp add: res oldest_first_def)
  moreover have "distinct (map fst (rulesByExactModelMatch (store_set sort_Slice mr ms)))"
    using add by (simp add: res o_def split_def)
  moreover have "distinct (map fst (allReWrites (store_set sort_Slice mr ms)))"
    "\<forall>(n, mr) \<in> set (allReWrites (store_set sort_Slice mr ms)). mr_Name mr = n"
    using inv1 new unfolding all all1 [unfolded n_def, symmetric] store_inv_def n_def
    by (auto simp: distinct_update dest!: set_update_subset)
  ultimately show "store_inv (store_set sort_Slice mr ms)" using ms(2) by (simp add: store_inv_def)
qed

subsection \<open>Which rule wins\<close>

datatype rewrite_op = SetRewrite model_rewrite | DeleteRewrite namespaced_name

fun rewrite_step :: "rewriteRuleWithMetadata sort_slice \<Rightarrow> rewrite_op \<Rightarrow> modelRewriteStore \<Rightarrow> modelRewriteStore" where
  "rewrite_step sort_Slice (SetRewrite mr) ms = store_set sort_Slice mr ms"
| "rewrite_step sort_Slice (DeleteRewrite nn) ms = store_delete nn ms"

text \<open>The reference: the rewrite objects alone, by name. The last operation comes first in the list.\<close>

fun rewrites_after :: "rewrite_op list \<Rightarrow> string \<Rightarrow> model_rewrite option" where
  "rewrites_after [] = (\<lambda>_. None)"
| "rewrites_after (SetRewrite mr # ops) = (rewrites_after ops)(mr_Name mr := Some mr)"
| "rewrites_after (DeleteRewrite nn # ops) = (rewrites_after ops)(nn_Name nn := None)"

definition candidate_rules :: "(string \<Rightarrow> model_rewrite option) \<Rightarrow> string \<Rightarrow> rewriteRuleWithMetadata set" where
  "candidate_rules rw model =
     (let rules = {rule_with_metadata mr rule | n mr rule. rw n = Some mr \<and> rule \<in> set (mr_Rules mr)};
          exact = {r \<in> rules. matches_exactly model r}
      in if exact \<noteq> {} then exact else {r \<in> rules. isGeneric r})"

lemma rewrite_steps_inv:
  assumes "sorts_slices sort_Slice"
  shows "store_inv (foldr (rewrite_step sort_Slice) ops newModelRewriteStore) \<and>
    map_of (allReWrites (foldr (rewrite_step sort_Slice) ops newModelRewriteStore)) = rewrites_after ops"
proof (induction ops)
  case (Cons op ops)
  then show ?case
    by (cases op) (auto simp: store_set_inv [OF _ assms] deleteInternal_inv store_delete_def update_conv' delete_conv')
qed (use store_inv_new in \<open>simp_all add: newModelRewriteStore_def\<close>)

lemma stored_rules_of_map:
  assumes "store_inv ms"
  shows "set (stored_rules ms) = {rule_with_metadata mr rule | n mr rule. map_of (allReWrites ms) n = Some mr \<and> rule \<in> set (mr_Rules mr)}"
  using assms map_of_eq_Some_iff [of "allReWrites ms"]
  by (fastforce simp: store_inv_def stored_rules_def)

lemma indexed_sets:
  assumes "indexed (mset rs) ms"
  shows "set (genericRules ms) = {r \<in> set rs. isGeneric r}" "set (exact_rules model ms) = {r \<in> set rs. matches_exactly model r}"
  using assms unfolding indexed_def by (metis mset_filter set_filter set_mset_mset)+

lemma getRule_first:
  "getRule model ms = (case exact_rules model ms @ (if exact_rules model ms = [] then genericRules ms else []) of
     [] \<Rightarrow> None | r # rs \<Rightarrow> Some (rm_rule r, parentName r))"
  by (auto simp: getRule_def exact_rules_def split: option.splits list.splits)

lemma getRule_oldest:
  assumes "store_inv ms" "map_of (allReWrites ms) = rw"
  shows "case getRule model ms of
       None \<Rightarrow> candidate_rules rw model = {}
     | Some (rule, parent) \<Rightarrow> \<exists>r \<in> candidate_rules rw model. rm_rule r = rule \<and> rm_parentRewriteName r = parent \<and>
         (\<forall>r' \<in> candidate_rules rw model. rm_createTimestamp r \<le> rm_createTimestamp r')"
proof -
  let ?l = "exact_rules model ms @ (if exact_rules model ms = [] then genericRules ms else [])"
  have ix: "indexed (mset (stored_rules ms)) ms" using assms(1) by (simp add: store_inv_def)
  have srt: "oldest_first ?l" using assms(1) by (simp add: store_inv_def)
  have "candidate_rules rw model = set ?l"
    using indexed_sets(1) [OF ix] indexed_sets(2) [OF ix, of model] unfolding candidate_rules_def Let_def assms(2) [symmetric]
      stored_rules_of_map [OF assms(1), symmetric] by (auto simp flip: set_empty)
  then show ?thesis
    using srt unfolding getRule_first by (cases ?l) (auto simp: oldest_first_def parentName_def)
qed

text \<open>
  C33: The rule store keeps the promised precedence. After any sequence of added, changed and
  deleted rewrite objects, whatever order \<open>sort.Slice\<close> gives to equal timestamps, a lookup
  returns a rule of an object that is still there (with that object's name): an oldest one among
  the rules that name the model, or if there is none an oldest one among the rules for all
  models. It returns nothing only if there is no such rule.
\<close>

theorem rewrite_precedence:
  assumes "sorts_slices sort_Slice" "ms = foldr (rewrite_step sort_Slice) ops newModelRewriteStore"
  shows "case getRule model ms of
       None \<Rightarrow> candidate_rules (rewrites_after ops) model = {}
     | Some (rule, parent) \<Rightarrow> \<exists>r \<in> candidate_rules (rewrites_after ops) model.
         rm_rule r = rule \<and> rm_parentRewriteName r = parent \<and>
         (\<forall>r' \<in> candidate_rules (rewrites_after ops) model. rm_createTimestamp r \<le> rm_createTimestamp r')"
  using rewrite_steps_inv [OF assms(1), of ops] unfolding assms(2) by (intro getRule_oldest) simp_all

theorem rewrite_precedence_witness:
  "let old = \<lparr>mr_Name = ''a'', mr_CreationTimestamp = 1, mr_Rules = [\<lparr>rr_Matches = [], rr_Targets = []\<rparr>]\<rparr>;
       new = \<lparr>mr_Name = ''b'', mr_CreationTimestamp = 2, mr_Rules = [\<lparr>rr_Matches = [Some ''m''], rr_Targets = []\<rparr>]\<rparr>;
       ms = foldr (rewrite_step insertion_sort) [SetRewrite new, SetRewrite old] newModelRewriteStore
   in map_option snd (getRule ''m'' ms) = Some ''b'' \<and> map_option snd (getRule ''x'' ms) = Some ''a'' \<and>
      (\<exists>r \<in> candidate_rules (rewrites_after [SetRewrite new, SetRewrite old]) ''m''. rm_parentRewriteName r = ''b'')"
proof -
  define old where "old = \<lparr>mr_Name = ''a'', mr_CreationTimestamp = 1, mr_Rules = [\<lparr>rr_Matches = [], rr_Targets = []\<rparr>]\<rparr>"
  define new where "new = \<lparr>mr_Name = ''b'', mr_CreationTimestamp = 2, mr_Rules = [\<lparr>rr_Matches = [Some ''m''], rr_Targets = []\<rparr>]\<rparr>"
  define ms where "ms = foldr (rewrite_step insertion_sort) [SetRewrite new, SetRewrite old] newModelRewriteStore"
  have g: "getRule ''m'' ms = Some (\<lparr>rr_Matches = [Some ''m''], rr_Targets = []\<rparr>, ''b'')"
    "getRule ''x'' ms = Some (\<lparr>rr_Matches = [], rr_Targets = []\<rparr>, ''a'')"
    unfolding ms_def old_def new_def by code_simp+
  show ?thesis
    using rewrite_precedence [OF insertion_sort_sorts ms_def, of "''m''"] g
    unfolding Let_def old_def [symmetric] new_def [symmetric] ms_def [symmetric] by auto
qed

end
