(* ===== verification/Director.thy ===== *)
theory Director
  imports Admission Rewrite_Props
begin

text \<open>
  The director: src/pkg/epp/requestcontrol/director.go, with the plugin configuration
  (request_control_config.go) and the execution of data plugins (plugin_executor.go).

  A \<open>director\<close> holds the interfaces: the parser, \<open>json.Marshal\<close>, admission, the candidates lookup,
  the scheduler, and the plugins. Plugins are functions of what they may read. A \<open>PreRequest\<close>
  plugin may change the headers, since it gets the header map of the request itself; a response
  body plugin may set the dynamic metadata. The state has the data store, the state \<open>'a\<close> of
  admission and lookup, the draws of the random source, the next address, how the data plugins
  end, and a log of the extension points that were run, with the plugins in order.
\<close>

subsection \<open>Plugins\<close>

record plugin_response =
  re_RequestId :: string
  re_Headers :: go_headers
  re_EndOfStream :: bool
  re_ReqMetadata :: "(string \<times> go_any) list option"
  re_Usage :: token_usage
  re_DynamicMetadata :: "dyn_metadata option"

record request_control_config =
  admissionPlugins :: "(string \<times> (llm_request \<Rightarrow> endpoint list \<Rightarrow> string option)) list"
  prepareDataPlugins :: "(string \<times> (llm_request \<Rightarrow> endpoint list \<Rightarrow> string option \<times> endpoint list)) list"
  preRequestPlugins :: "(string \<times> (schedulingResult \<Rightarrow> go_headers \<Rightarrow> go_headers)) list"
  responseReceivedPlugins :: "string list"
  responseStreamingPlugins :: "(string \<times> (llm_request option \<Rightarrow> endpoint_metadata option \<Rightarrow> plugin_response \<Rightarrow> dyn_metadata option)) list"

definition rc_NewConfig :: request_control_config where
  "rc_NewConfig = \<lparr>admissionPlugins = [], prepareDataPlugins = [], preRequestPlugins = [],
     responseReceivedPlugins = [], responseStreamingPlugins = []\<rparr>"

definition WithPreRequestPlugins ::
  "(string \<times> (schedulingResult \<Rightarrow> go_headers \<Rightarrow> go_headers)) list \<Rightarrow> request_control_config \<Rightarrow> request_control_config" where
  "WithPreRequestPlugins plugins c = c\<lparr>preRequestPlugins := plugins\<rparr>"

definition WithResponseReceivedPlugins :: "string list \<Rightarrow> request_control_config \<Rightarrow> request_control_config" where
  "WithResponseReceivedPlugins plugins c = c\<lparr>responseReceivedPlugins := plugins\<rparr>"

definition WithResponseStreamingPlugins ::
  "(string \<times> (llm_request option \<Rightarrow> endpoint_metadata option \<Rightarrow> plugin_response \<Rightarrow> dyn_metadata option)) list \<Rightarrow>
   request_control_config \<Rightarrow> request_control_config" where
  "WithResponseStreamingPlugins plugins c = c\<lparr>responseStreamingPlugins := plugins\<rparr>"

definition WithPrepareDataPlugins ::
  "(string \<times> (llm_request \<Rightarrow> endpoint list \<Rightarrow> string option \<times> endpoint list)) list \<Rightarrow> request_control_config \<Rightarrow> request_control_config" where
  "WithPrepareDataPlugins plugins c = c\<lparr>prepareDataPlugins := plugins\<rparr>"

definition WithAdmissionPlugins ::
  "(string \<times> (llm_request \<Rightarrow> endpoint list \<Rightarrow> string option)) list \<Rightarrow> request_control_config \<Rightarrow> request_control_config" where
  "WithAdmissionPlugins plugins c = c\<lparr>admissionPlugins := plugins\<rparr>"

text \<open>A plugin object, by the interfaces it implements.\<close>

record rc_plugin =
  po_name :: string
  po_PreRequest :: "(schedulingResult \<Rightarrow> go_headers \<Rightarrow> go_headers) option"
  po_ResponseHeader :: bool
  po_ResponseBody :: "(llm_request option \<Rightarrow> endpoint_metadata option \<Rightarrow> plugin_response \<Rightarrow> dyn_metadata option) option"
  po_PrepareData :: "(llm_request \<Rightarrow> endpoint list \<Rightarrow> string option \<times> endpoint list) option"
  po_Admission :: "(llm_request \<Rightarrow> endpoint list \<Rightarrow> string option) option"

definition named :: "string \<Rightarrow> 'p option \<Rightarrow> (string \<times> 'p) list" where
  "named name p = (case p of None \<Rightarrow> [] | Some f \<Rightarrow> [(name, f)])"

fun config_AddPlugins :: "rc_plugin list \<Rightarrow> request_control_config \<Rightarrow> request_control_config" where
  "config_AddPlugins [] c = c"
| "config_AddPlugins (p # ps) c =
     config_AddPlugins ps
       \<lparr>admissionPlugins = admissionPlugins c @ named (po_name p) (po_Admission p),
        prepareDataPlugins = prepareDataPlugins c @ named (po_name p) (po_PrepareData p),
        preRequestPlugins = preRequestPlugins c @ named (po_name p) (po_PreRequest p),
        responseReceivedPlugins = responseReceivedPlugins c @ (if po_ResponseHeader p then [po_name p] else []),
        responseStreamingPlugins = responseStreamingPlugins c @ named (po_name p) (po_ResponseBody p)\<rparr>"

definition OrderPrepareDataPlugins :: "string list \<Rightarrow> request_control_config \<Rightarrow> request_control_config" where
  "OrderPrepareDataPlugins sortedPluginNames c =
     (let nameToPlugin = fold (\<lambda>(name, p). AList.update name p) (prepareDataPlugins c) []
      in c\<lparr>prepareDataPlugins := List.map_filter (\<lambda>name. map_option (Pair name) (map_of nameToPlugin name)) sortedPluginNames\<rparr>)"

fun executePluginsAsDAG ::
  "(string \<times> (llm_request \<Rightarrow> endpoint list \<Rightarrow> string option \<times> endpoint list)) list \<Rightarrow> llm_request \<Rightarrow> endpoint list \<Rightarrow>
   string option \<times> endpoint list" where
  "executePluginsAsDAG [] req eps = (None, eps)"
| "executePluginsAsDAG ((name, run) # ps) req eps =
     (case run req eps of
        (Some err, eps1) \<Rightarrow> (Some (''prepare data plugin '' @ name @ '' failed: '' @ err), eps1)
      | (None, eps1) \<Rightarrow> executePluginsAsDAG ps req eps1)"

text \<open>The plugins end, or after some of them the context ends or the timeout comes.\<close>

datatype prepare_end = PrepareReturns | PrepareCtxDone nat | PrepareTimeout nat

definition prepareDataPluginsWithTimeout ::
  "prepare_end \<Rightarrow> (string \<times> (llm_request \<Rightarrow> endpoint list \<Rightarrow> string option \<times> endpoint list)) list \<Rightarrow> llm_request \<Rightarrow> endpoint list \<Rightarrow>
   string option \<times> endpoint list" where
  "prepareDataPluginsWithTimeout e plugins req eps =
     (case e of
        PrepareReturns \<Rightarrow> executePluginsAsDAG plugins req eps
      | PrepareCtxDone k \<Rightarrow> (Some ''context done'', snd (executePluginsAsDAG (take k plugins) req eps))
      | PrepareTimeout k \<Rightarrow> (Some ''prepare data plugin timed out'', snd (executePluginsAsDAG (take k plugins) req eps)))"

subsection \<open>The director\<close>

datatype hook_run =
    PreRequestRun "string list"
  | ResponseHeaderRun "string list"
  | ResponseBodyRun bool "string list"

record 'a director =
  dir_ParseRequest :: "string \<Rightarrow> go_headers \<Rightarrow> string + llm_request_body"
  dir_Marshal :: "(string \<times> go_any) list \<Rightarrow> string option"
  dir_Admit :: "request_context \<Rightarrow> int \<Rightarrow> datastore \<times> 'a \<Rightarrow> handle_outcome \<times> datastore \<times> 'a"
  dir_Locate :: "request_metadata \<Rightarrow> datastore \<times> 'a \<Rightarrow> endpoint list \<times> datastore \<times> 'a"
  dir_Schedule :: "llm_request \<Rightarrow> endpoint list \<Rightarrow> (string + schedulingResult) option"
  dir_plugins :: request_control_config

record 'a director_state =
  dr_env :: "datastore \<times> 'a"
  dr_draws :: "nat list"
  dr_next :: nat
  dr_prepare :: prepare_end
  dr_runs :: "hook_run list"

abbreviation dr_store :: "'a director_state \<Rightarrow> datastore" where
  "dr_store d \<equiv> fst (dr_env d)"

text \<open>\<open>rand.Intn n\<close> for positive \<open>n\<close>.\<close>

definition Intn :: "nat \<Rightarrow> 'a director_state \<Rightarrow> nat \<times> 'a director_state" where
  "Intn n d = (case dr_draws d of [] \<Rightarrow> (0, d) | x # xs \<Rightarrow> (x mod n, d\<lparr>dr_draws := xs\<rparr>))"

definition defaultPriority :: int where
  "defaultPriority = 0"

text \<open>A missing priority is set in the stored object, which the director shares.\<close>

definition getInferenceObjective :: "request_context \<Rightarrow> 'a director_state \<Rightarrow> int \<times> 'a director_state" where
  "getInferenceObjective reqCtx d =
     (case ObjectiveGet (rc_ObjectiveKey reqCtx) (dr_store d) of
        None \<Rightarrow> (defaultPriority, d)
      | Some obj \<Rightarrow>
          (case io_Priority obj of
             Some p \<Rightarrow> (p, d)
           | None \<Rightarrow> (defaultPriority, d\<lparr>dr_env := ((dr_store d)\<lparr>ds_objectives :=
               AList.update (rc_ObjectiveKey reqCtx) (obj\<lparr>io_Priority := Some defaultPriority\<rparr>) (ds_objectives (dr_store d))\<rparr>,
               snd (dr_env d))\<rparr>)))"

fun pick_weighted :: "target_model list \<Rightarrow> int \<Rightarrow> 32 word \<Rightarrow> string option" where
  "pick_weighted [] randomNum currentWeight = None"
| "pick_weighted (m # ms) randomNum currentWeight =
     (let currentWeight1 = currentWeight + tm_Weight m
      in if randomNum < sint currentWeight1 then Some (tm_ModelRewrite m) else pick_weighted ms randomNum currentWeight1)"

text \<open>\<open>None\<close>: \<open>rand.Intn\<close> panics because the sum of the weights is negative.\<close>

definition selectWeightedModel :: "target_model list \<Rightarrow> 'a director_state \<Rightarrow> (string \<times> 'a director_state) option" where
  "selectWeightedModel models d =
     (if length models = 0 then Some ([], d)
      else let totalWeight = fold (\<lambda>m w. w + tm_Weight m) models 0
           in if totalWeight = 0
              then let (i, d1) = Intn (length models) d in Some (tm_ModelRewrite (models ! i), d1)
              else if sint totalWeight \<le> 0 then None
              else let (randomNum, d1) = Intn (nat (sint totalWeight)) d
                   in Some ((case pick_weighted models (int randomNum) 0 of
                               Some m \<Rightarrow> m | None \<Rightarrow> tm_ModelRewrite (last models)), d1))"

definition applyWeightedModelRewrite :: "request_context \<Rightarrow> 'a director_state \<Rightarrow> (request_context \<times> 'a director_state) option" where
  "applyWeightedModelRewrite reqCtx d =
     (case ModelRewriteGet (rc_IncomingModelName reqCtx) (dr_store d) of
        None \<Rightarrow> Some (reqCtx, d)
      | Some (rewriteRule, modelRewriteName) \<Rightarrow>
          map_option (\<lambda>(m, d1). (reqCtx\<lparr>rc_TargetModelName := m\<rparr>, d1)) (selectWeightedModel (rr_Targets rewriteRule) d))"

text \<open>The outcome, the context, and the changed map (which is the payload of the parsed body as well).\<close>

definition mutateModel ::
  "request_context \<Rightarrow> (string \<times> go_any) list \<Rightarrow> 'a director_state \<Rightarrow>
   handle_outcome \<times> request_context \<times> (string \<times> go_any) list \<times> 'a director_state" where
  "mutateModel reqCtx bodyMap d =
     (case map_of bodyMap ''model'' of
        Some (AnyString m) \<Rightarrow>
          let rc1 = reqCtx\<lparr>rc_IncomingModelName := m\<rparr>;
              rc2 = (if rc_TargetModelName rc1 = [] then rc1\<lparr>rc_TargetModelName := m\<rparr> else rc1)
          in (case applyWeightedModelRewrite rc2 d of
                None \<Rightarrow> (HandledPanic, rc2, bodyMap, d)
              | Some (rc3, d1) \<Rightarrow> (HandledOk, rc3, AList.update ''model'' (AnyString (rc_TargetModelName rc3)) bodyMap, d1))
      | _ \<Rightarrow> (HandledErr (CommonError BadRequest ''model not found in request body''),
               reqCtx\<lparr>rc_IncomingModelName := []\<rparr>, bodyMap, d))"

definition mutateAndRepackage ::
  "'a director \<Rightarrow> request_context \<Rightarrow> (string \<times> go_any) list \<Rightarrow> 'a director_state \<Rightarrow>
   handle_outcome \<times> request_context \<times> (string \<times> go_any) list \<times> 'a director_state" where
  "mutateAndRepackage dir reqCtx bodyMap d =
     (case mutateModel reqCtx bodyMap d of
        (HandledOk, rc1, bodyMap1, d1) \<Rightarrow>
          (case dir_Marshal dir bodyMap1 of
             None \<Rightarrow> (HandledErr (CommonError Internal ''Error marshalling request body''), rc1, bodyMap1, d1)
           | Some bytes \<Rightarrow>
               (HandledOk, rc1\<lparr>rc_Request := (rc_Request rc1)\<lparr>rq_RawBody := bytes\<rparr>, rc_RequestSize := int (length bytes)\<rparr>, bodyMap1, d1))
      | r \<Rightarrow> r)"

definition processRequestBody ::
  "'a director \<Rightarrow> request_context \<Rightarrow> 'a director_state \<Rightarrow> handle_outcome \<times> request_context \<times> llm_request_body option \<times> 'a director_state" where
  "processRequestBody dir reqCtx d =
     (case dir_ParseRequest dir (rq_RawBody (rc_Request reqCtx)) (rq_Headers (rc_Request reqCtx)) of
        Inl err \<Rightarrow> (HandledErr (CommonError BadRequest err), reqCtx, None, d)
      | Inr llmRequestBody \<Rightarrow>
          let sized = reqCtx\<lparr>rc_RequestSize := int (length (rq_RawBody (rc_Request reqCtx)))\<rparr>
          in (case lb_Payload llmRequestBody of
                Some PayloadProto \<Rightarrow> (HandledOk, sized, Some llmRequestBody, d)
              | Some (PayloadMap v) \<Rightarrow>
                  (case mutateAndRepackage dir reqCtx v d of
                     (HandledOk, rc1, v1, d1) \<Rightarrow> (HandledOk, rc1, Some (llmRequestBody\<lparr>lb_Payload := Some (PayloadMap v1)\<rparr>), d1)
                   | (out, rc1, v1, d1) \<Rightarrow> (out, rc1, None, d1))
              | Some (RawPayload _) \<Rightarrow> (HandledOk, sized, Some llmRequestBody, d)
              | None \<Rightarrow> (HandledErr (CommonError BadRequest ''Unsupported llmRequest parsedBody''), reqCtx, None, d)))"

definition toSchedulerEndpoints :: "endpoint list \<Rightarrow> nat \<Rightarrow> endpoint list" where
  "toSchedulerEndpoints endpoints next =
     map (\<lambda>(i, e). sched_NewEndpoint (next + i) (GetMetadata e) (GetMetrics e) (Some (GetAttributes e))) (enumerate 0 endpoints)"

definition runPrepareDataPlugins :: "'a director \<Rightarrow> prepare_end \<Rightarrow> llm_request \<Rightarrow> endpoint list \<Rightarrow> string option \<times> endpoint list" where
  "runPrepareDataPlugins dir e req eps =
     (if length (prepareDataPlugins (dir_plugins dir)) = 0 then (None, eps)
      else prepareDataPluginsWithTimeout e (prepareDataPlugins (dir_plugins dir)) req eps)"

definition runAdmissionPlugins :: "'a director \<Rightarrow> llm_request \<Rightarrow> endpoint list \<Rightarrow> bool" where
  "runAdmissionPlugins dir req eps = list_all (\<lambda>(name, admit). admit req eps = None) (admissionPlugins (dir_plugins dir))"

text \<open>The plugins change the header map that the request context and the scheduling request share.\<close>

definition runPreRequestPlugins ::
  "'a director \<Rightarrow> schedulingResult \<Rightarrow> request_context \<Rightarrow> 'a director_state \<Rightarrow> request_context \<times> 'a director_state" where
  "runPreRequestPlugins dir result reqCtx d =
     (let ps = preRequestPlugins (dir_plugins dir);
          headers = fold (\<lambda>(name, f). f result) ps (rq_Headers (rc_Request reqCtx))
      in (reqCtx\<lparr>rc_Request := (rc_Request reqCtx)\<lparr>rq_Headers := headers\<rparr>,
                 rc_SchedulingRequest := map_option (\<lambda>req. req\<lparr>lr_Headers := headers\<rparr>) (rc_SchedulingRequest reqCtx)\<rparr>,
          d\<lparr>dr_runs := dr_runs d @ [PreRequestRun (map fst ps)]\<rparr>))"

definition prepareRequest ::
  "'a director \<Rightarrow> schedulingResult \<Rightarrow> request_context \<Rightarrow> 'a director_state \<Rightarrow> handle_outcome \<times> request_context \<times> 'a director_state" where
  "prepareRequest dir result reqCtx d =
     (if length (ProfileResults result) = 0
      then (HandledErr (CommonError Internal ''results must be greater than zero''), reqCtx, d)
      else case map_of (ProfileResults result) (PrimaryProfileName result) of
             Some (Some primary) \<Rightarrow>
               (case those (map GetMetadata (TargetEndpoints primary)) of
                  None \<Rightarrow> (HandledPanic, reqCtx, d)
                | Some targetMetadatas \<Rightarrow>
                    let targetEndpoints = map (\<lambda>md. JoinHostPort (md_Address md) (md_Port md)) targetMetadatas
                    in (case targetMetadatas of
                          [] \<Rightarrow> (HandledPanic, reqCtx, d)
                        | md # _ \<Rightarrow>
                            let (rc1, d1) = runPreRequestPlugins dir result
                                  (reqCtx\<lparr>rc_TargetPod := Some md, rc_TargetEndpoint := strings_Join targetEndpoints '',''\<rparr>) d
                            in (HandledOk, rc1, d1)))
           | _ \<Rightarrow> (HandledPanic, reqCtx, d))"

text \<open>From the located candidates to the target.\<close>

definition routeRequest ::
  "'a director \<Rightarrow> request_context \<Rightarrow> llm_request \<Rightarrow> 'a director_state \<Rightarrow> handle_outcome \<times> request_context \<times> 'a director_state" where
  "routeRequest dir reqCtx req d =
     (case dir_Locate dir (rq_Metadata (rc_Request reqCtx)) (dr_env d) of
        (endpointCandidates, env1) \<Rightarrow>
          let d1 = d\<lparr>dr_env := env1\<rparr>
          in if length endpointCandidates = 0
             then (HandledErr (CommonError ServiceUnavailable ''failed to find endpoint candidates for serving the request''), reqCtx, d1)
             else let snapshot = toSchedulerEndpoints endpointCandidates (dr_next d1);
                      d2 = d1\<lparr>dr_next := dr_next d1 + length endpointCandidates\<rparr>;
                      (prepErr, eps) = runPrepareDataPlugins dir (dr_prepare d2) req snapshot
                  in if \<not> runAdmissionPlugins dir req eps
                     then (HandledErr (CommonError Internal ''request cannot be admitted''), reqCtx, d2)
                     else (case dir_Schedule dir req eps of
                             None \<Rightarrow> (HandledPanic, reqCtx, d2)
                           | Some (Inl err) \<Rightarrow>
                               (HandledErr (CommonError ResourceExhausted (''failed to find target endpoint: '' @ err)), reqCtx, d2)
                           | Some (Inr result) \<Rightarrow> prepareRequest dir result reqCtx d2))"

definition HandleRequest ::
  "'a director \<Rightarrow> request_context \<Rightarrow> 'a director_state \<Rightarrow> handle_outcome \<times> request_context \<times> 'a director_state" where
  "HandleRequest dir reqCtx d =
     (case processRequestBody dir reqCtx d of
        (HandledOk, rc1, body, d1) \<Rightarrow>
          let (priority, d2) = getInferenceObjective rc1 d1;
              req = \<lparr>lr_RequestId = header_of RequestIdHeaderKey (rq_Headers (rc_Request rc1)),
                     lr_TargetModel = rc_TargetModelName rc1, lr_Body = body,
                     lr_Headers = rq_Headers (rc_Request rc1), lr_Priority = priority,
                     lr_RequestSizeBytes = rc_RequestSize rc1\<rparr>;
              rc2 = rc1\<lparr>rc_Priority := priority, rc_SchedulingRequest := Some req\<rparr>
          in (case dir_Admit dir rc2 priority (dr_env d2) of
                (HandledOk, env3) \<Rightarrow> routeRequest dir rc2 req (d2\<lparr>dr_env := env3\<rparr>)
              | (out, env3) \<Rightarrow> (out, rc2, d2\<lparr>dr_env := env3\<rparr>))
      | (out, rc1, body, d1) \<Rightarrow> (out, rc1, d1))"

definition HandleResponseHeader ::
  "'a director \<Rightarrow> request_context \<Rightarrow> 'a director_state \<Rightarrow> request_context \<times> 'a director_state" where
  "HandleResponseHeader dir reqCtx d =
     (reqCtx, d\<lparr>dr_runs := dr_runs d @ [ResponseHeaderRun (responseReceivedPlugins (dir_plugins dir))]\<rparr>)"

definition runResponseBodyPlugins ::
  "'a director \<Rightarrow> request_context \<Rightarrow> plugin_response \<Rightarrow> plugin_response" where
  "runResponseBodyPlugins dir reqCtx response =
     fold (\<lambda>(name, f) r. r\<lparr>re_DynamicMetadata := f (rc_SchedulingRequest reqCtx) (rc_TargetPod reqCtx) r\<rparr>)
       (responseStreamingPlugins (dir_plugins dir)) response"

definition HandleResponseBody ::
  "'a director \<Rightarrow> bool \<Rightarrow> request_context \<Rightarrow> 'a director_state \<Rightarrow> request_context \<times> 'a director_state" where
  "HandleResponseBody dir endOfStream reqCtx d =
     (let response = \<lparr>re_RequestId = header_of RequestIdHeaderKey (rq_Headers (rc_Request reqCtx)),
            re_Headers = rs_Headers (rc_Response reqCtx), re_EndOfStream = endOfStream, re_ReqMetadata = None,
            re_Usage = rc_Usage reqCtx, re_DynamicMetadata = None\<rparr>;
          response1 = runResponseBodyPlugins dir reqCtx response
      in (reqCtx\<lparr>rc_Response := (rc_Response reqCtx)\<lparr>rs_DynamicMetadata := re_DynamicMetadata response1\<rparr>\<rparr>,
          d\<lparr>dr_runs := dr_runs d @ [ResponseBodyRun endOfStream (map fst (responseStreamingPlugins (dir_plugins dir)))]\<rparr>))"

definition GetRandomEndpoint :: "'a director_state \<Rightarrow> endpoint_metadata option \<times> 'a director_state" where
  "GetRandomEndpoint d =
     (let pods = PodList AllPodsPredicate (dr_store d)
      in if length pods = 0 then (None, d)
         else let (number, d1) = Intn (length pods) d in (GetMetadata (pods ! number), d1))"

definition director_interface :: "'a director \<Rightarrow> 'a director_state director_ops" where
  "director_interface dir =
     \<lparr>do_HandleRequest = HandleRequest dir, do_HandleResponseHeader = HandleResponseHeader dir,
      do_HandleResponseBody = HandleResponseBody dir, do_GetRandomEndpoint = GetRandomEndpoint\<rparr>"

definition NewStreamingServer ::
  "'a director \<Rightarrow> (string \<Rightarrow> go_headers \<Rightarrow> bool \<Rightarrow> string + token_usage option) \<Rightarrow> go_headers \<Rightarrow> 'a director_state streaming_server" where
  "NewStreamingServer dir parse trace =
     \<lparr>ss_director = director_interface dir, ss_ParseResponse = parse, ss_traceHeaders = trace\<rparr>"

end
