(* ===== verification/Ext_Proc_Props.thy ===== *)
theory Ext_Proc_Props
  imports Ext_Proc
begin

text \<open>
  Correctness of the external processing server. The order of the messages to Envoy, the
  completion of a request and the forwarding of a response hold for every director that keeps
  the protocol part of the context; this contract is the locale \<open>director_contract\<close>.
\<close>

subsection \<open>The protocol part of a context\<close>

definition proto :: "request_context \<Rightarrow> stream_request_state \<times> bool \<times> bool \<times>
    processing_response option \<times> processing_response list \<times> processing_response option \<times>
    processing_response option \<times> processing_response list \<times> processing_response option" where
  "proto r = (rc_RequestState r, rc_ResponseComplete r, rc_modelServerStreaming r,
     rc_reqHeaderResp r, rc_reqBodyResp r, rc_reqTrailerResp r,
     rc_respHeaderResp r, rc_respBodyResp r, rc_respTrailerResp r)"

lemma proto_eqD:
  assumes "proto r' = proto r"
  shows "rc_RequestState r' = rc_RequestState r" "rc_ResponseComplete r' = rc_ResponseComplete r"
    "rc_modelServerStreaming r' = rc_modelServerStreaming r"
    "rc_reqHeaderResp r' = rc_reqHeaderResp r" "rc_reqBodyResp r' = rc_reqBodyResp r"
    "rc_reqTrailerResp r' = rc_reqTrailerResp r" "rc_respHeaderResp r' = rc_respHeaderResp r"
    "rc_respBodyResp r' = rc_respBodyResp r" "rc_respTrailerResp r' = rc_respTrailerResp r"
  using assms by (simp_all add: proto_def)

lemma proto_update [simp]:
  "proto (r\<lparr>rc_FairnessID := f\<rparr>) = proto r" "proto (r\<lparr>rc_ObjectiveKey := f\<rparr>) = proto r"
  "proto (r\<lparr>rc_TargetModelName := f\<rparr>) = proto r" "proto (r\<lparr>rc_IncomingModelName := f\<rparr>) = proto r"
  "proto (r\<lparr>rc_Request := q\<rparr>) = proto r" "proto (r\<lparr>rc_Response := p\<rparr>) = proto r"
  "proto (r\<lparr>rc_RequestSize := n\<rparr>) = proto r" "proto (r\<lparr>rc_ResponseSize := n\<rparr>) = proto r"
  "proto (r\<lparr>rc_RequestReceivedTimestamp := n\<rparr>) = proto r" "proto (r\<lparr>rc_Usage := u\<rparr>) = proto r"
  "proto (r\<lparr>rc_TargetEndpoint := f\<rparr>) = proto r" "proto (r\<lparr>rc_TargetPod := pod\<rparr>) = proto r"
  "proto (r\<lparr>rc_Priority := n\<rparr>) = proto r" "proto (r\<lparr>rc_SchedulingRequest := sr\<rparr>) = proto r"
  by (simp_all add: proto_def)

fun msg_rank :: "processing_response \<Rightarrow> nat" where
  "msg_rank (RequestHeadersResponse _ _) = 1"
| "msg_rank (RequestBodyResponse _) = 2"
| "msg_rank RequestTrailersResponse = 3"
| "msg_rank (ResponseHeadersResponse _) = 4"
| "msg_rank (ResponseBodyResponse _ _) = 5"
| "msg_rank ResponseTrailersResponse = 6"
| "msg_rank (ImmediateResponse _ _) = 7"

text \<open>
  The order Envoy requires: header, body, trailer, for the request and then for the response.
  Bodies and trailers may repeat, headers and the immediate response may not.
\<close>

definition before :: "processing_response \<Rightarrow> processing_response \<Rightarrow> bool" where
  "before a b \<longleftrightarrow> msg_rank a < msg_rank b \<or> msg_rank a = msg_rank b \<and> msg_rank a \<notin> {1, 4, 7}"

definition in_order :: "processing_response list \<Rightarrow> bool" where
  "in_order ms \<longleftrightarrow> sorted_wrt before ms"

fun state_bound :: "stream_request_state \<Rightarrow> nat" where
  "state_bound RequestReceived = 0"
| "state_bound HeaderRequestResponseComplete = 1"
| "state_bound BodyRequestResponsesComplete = 3"
| "state_bound TrailerRequestResponsesComplete = 3"
| "state_bound ResponseReceived = 3"
| "state_bound HeaderResponseResponseComplete = 5"
| "state_bound BodyResponseResponsesComplete = 6"
| "state_bound TrailerResponseResponsesComplete = 6"

definition shape :: "request_context \<Rightarrow> bool" where
  "shape r \<longleftrightarrow>
     (\<forall>m. rc_reqHeaderResp r = Some m \<longrightarrow> msg_rank m = 1) \<and>
     list_all (\<lambda>m. msg_rank m = 2) (rc_reqBodyResp r) \<and>
     (\<forall>m. rc_reqTrailerResp r = Some m \<longrightarrow> msg_rank m = 3) \<and>
     (\<forall>m. rc_respHeaderResp r = Some m \<longrightarrow> msg_rank m = 4) \<and>
     list_all (\<lambda>m. msg_rank m = 5) (rc_respBodyResp r) \<and>
     (\<forall>m. rc_respTrailerResp r = Some m \<longrightarrow> msg_rank m = 6)"

lemma shape_proto: "proto r' = proto r \<Longrightarrow> shape r' = shape r"
  by (simp add: shape_def proto_def)

definition ranked :: "bool \<times> request_context \<times> srv_io \<Rightarrow> bool" where
  "ranked = (\<lambda>(ok, r, io). shape r \<and> in_order (io_sent io) \<and>
     (ok \<longrightarrow> (\<forall>m \<in> set (io_sent io). msg_rank m \<le> state_bound (rc_RequestState r))))"

subsection \<open>Sending\<close>

lemma send_list_sent:
  "send_list ms io = (ok, io') \<Longrightarrow>
   \<exists>k. io_sent io' = io_sent io @ take k ms \<and> (ok \<longrightarrow> take k ms = ms)"
proof (induction ms arbitrary: io)
  case (Cons m ms)
  show ?case
  proof (cases "io_script io = [] \<or> hd (io_script io)")
    case True
    then obtain io1 where s: "srv_Send m io = (True, io1)" "io_sent io1 = io_sent io @ [m]"
      by (cases "io_script io") (auto simp: srv_Send_def)
    then obtain k where "io_sent io' = io_sent io1 @ take k ms" "ok \<longrightarrow> take k ms = ms"
      using Cons.prems Cons.IH [of io1] by auto
    then show ?thesis using s by (intro exI [of _ "Suc k"]) auto
  next
    case False
    then have "srv_Send m io = (False, io\<lparr>io_script := tl (io_script io)\<rparr>)"
      by (cases "io_script io") (auto simp: srv_Send_def)
    then show ?thesis using Cons.prems by (intro exI [of _ 0]) auto
  qed
qed auto

lemma send_list_ok:
  "io_script io = [] \<Longrightarrow> send_list ms io = (True, io\<lparr>io_sent := io_sent io @ ms\<rparr>)"
  by (induction ms arbitrary: io) (auto simp: srv_Send_def)

lemma same_rank_in_order:
  "\<forall>m \<in> set ms. msg_rank m = k \<Longrightarrow> length ms \<le> 1 \<or> k \<notin> {1, 4, 7} \<Longrightarrow> in_order ms"
  by (induction ms) (auto simp: in_order_def before_def Suc_le_eq)

lemma in_order_take: "in_order ms \<Longrightarrow> in_order (take k ms)"
  by (simp add: in_order_def sorted_wrt_take)

lemma ranked_stage:
  assumes x: "ranked x"
    and msgs: "\<And>r. guard r \<Longrightarrow> shape r \<Longrightarrow> (\<forall>m \<in> set (msgs r). msg_rank m = k) \<and>
        (length (msgs r) \<le> 1 \<and> state_bound (rc_RequestState r) < k \<or>
         k \<notin> {1, 4, 7} \<and> state_bound (rc_RequestState r) \<le> k)"
    and upd: "\<And>r. guard r \<Longrightarrow> shape r \<Longrightarrow> shape (upd r) \<and> k \<le> state_bound (rc_RequestState (upd r))"
  shows "ranked (send_stage guard msgs upd x)"
proof -
  obtain ok r io where xe: "x = (ok, r, io)" by (cases x)
  show ?thesis
  proof (cases "ok \<and> guard r")
    case False
    then show ?thesis using x by (auto simp: xe send_stage_def)
  next
    case True
    obtain ok1 io1 where sl: "send_list (msgs r) io = (ok1, io1)" by fastforce
    obtain n where n: "io_sent io1 = io_sent io @ take n (msgs r)"
      using send_list_sent [OF sl] by blast
    have r: "shape r" "in_order (io_sent io)" "\<forall>m \<in> set (io_sent io). msg_rank m \<le> state_bound (rc_RequestState r)"
      using x True by (auto simp: xe ranked_def)
    note m = msgs [OF _ r(1)] and u = upd [OF _ r(1)]
    have k: "\<forall>m \<in> set (msgs r). msg_rank m = k" using m True by blast
    have kt: "\<forall>m \<in> set (take n (msgs r)). msg_rank m = k" using k by (meson in_set_takeD)
    have "in_order (msgs r)" using same_rank_in_order [OF k] m True by auto
    then have "in_order (take n (msgs r))" by (rule in_order_take)
    moreover have "before a b" if a: "a \<in> set (io_sent io)" and b: "b \<in> set (take n (msgs r))" for a b
    proof -
      have "msg_rank a \<le> state_bound (rc_RequestState r)" "msg_rank b = k"
        using a b r(3) kt by simp_all
      then show ?thesis using m [OF conjunct2 [OF True]] unfolding before_def by (metis le_less le_trans not_le)
    qed
    ultimately have ord: "in_order (io_sent io1)"
      using r(2) by (simp add: n in_order_def sorted_wrt_append)
    have bnd: "msg_rank x \<le> k" if "x \<in> set (io_sent io1)" for x
      using that kt r(3) m [OF conjunct2 [OF True]] unfolding n
      by (metis Un_iff le_less order.trans set_append)
    have bnd': "\<forall>m \<in> set (io_sent io1). msg_rank m \<le> state_bound (rc_RequestState (upd r))"
      using bnd u True by (meson order.trans)
    show ?thesis using sl True ord bnd' r(1) u by (simp add: xe send_stage_def ranked_def)
  qed
qed

lemma ranked_send_request_header: "ranked x \<Longrightarrow> ranked (send_request_header x)"
  unfolding send_request_header_def by (rule ranked_stage [where k = 1]) (auto simp: shape_def list_all_iff)

lemma ranked_send_request_body: "ranked x \<Longrightarrow> ranked (send_request_body x)"
  unfolding send_request_body_def by (rule ranked_stage [where k = 2]) (auto simp: shape_def list_all_iff)

lemma ranked_send_request_trailer: "ranked x \<Longrightarrow> ranked (send_request_trailer x)"
  unfolding send_request_trailer_def by (rule ranked_stage [where k = 3]) (auto simp: shape_def list_all_iff)

lemma ranked_send_response_header: "ranked x \<Longrightarrow> ranked (send_response_header x)"
  unfolding send_response_header_def by (rule ranked_stage [where k = 4]) (auto simp: shape_def list_all_iff)

lemma ranked_send_response_body: "ranked x \<Longrightarrow> ranked (send_response_body x)"
  unfolding send_response_body_def by (rule ranked_stage [where k = 5]) (auto simp: shape_def list_all_iff)

lemma ranked_send_response_trailer: "ranked x \<Longrightarrow> ranked (send_response_trailer x)"
  unfolding send_response_trailer_def by (rule ranked_stage [where k = 6]) (auto simp: shape_def list_all_iff)

lemma ranked_updateStateAndSendIfNeeded:
  "ranked (True, r, io) \<Longrightarrow> ranked (updateStateAndSendIfNeeded r io)"
  unfolding updateStateAndSendIfNeeded_def
  by (intro ranked_send_response_trailer ranked_send_response_body ranked_send_response_header
      ranked_send_request_trailer ranked_send_request_body ranked_send_request_header)

subsection \<open>The contract of a director\<close>

fun in_response :: "stream_request_state \<Rightarrow> bool" where
  "in_response RequestReceived = False"
| "in_response HeaderRequestResponseComplete = False"
| "in_response BodyRequestResponsesComplete = False"
| "in_response TrailerRequestResponsesComplete = False"
| "in_response _ = True"

text \<open>
  A response ends with the end of its body or with trailers; \<open>end_once\<close> says that no end of the
  body follows such an end.
\<close>

fun is_body_end :: "stream_event \<Rightarrow> bool" where
  "is_body_end (Recv _ _ _ (ResponseBody _ eos)) = eos"
| "is_body_end _ = False"

fun ends_response :: "stream_event \<Rightarrow> bool" where
  "ends_response (Recv _ _ _ (ResponseBody _ eos)) = eos"
| "ends_response (Recv _ _ _ ResponseTrailers) = True"
| "ends_response _ = False"

fun end_once :: "stream_event list \<Rightarrow> bool" where
  "end_once [] = True"
| "end_once (ev # evs) = ((ends_response ev \<longrightarrow> \<not> list_ex is_body_end evs) \<and> end_once evs)"

fun is_response_headers :: "stream_event \<Rightarrow> bool" where
  "is_response_headers (Recv _ _ _ (ResponseHeaders _)) = True"
| "is_response_headers _ = False"

lemma not_in_response_bound: "\<not> in_response q \<Longrightarrow> state_bound q \<le> 3"
  by (cases q) auto

lemma stage_in_response:
  assumes "\<And>r. guard r \<Longrightarrow> in_response (rc_RequestState (upd r)) = in_response (rc_RequestState r)"
  shows "in_response (rc_RequestState (fst (snd (send_stage guard msgs upd x)))) =
         in_response (rc_RequestState (fst (snd x)))"
  using assms by (cases x) (auto simp: send_stage_def split: prod.splits)

lemma updateState_in_response:
  "in_response (rc_RequestState (fst (snd (updateStateAndSendIfNeeded r io)))) = in_response (rc_RequestState r)"
  unfolding updateStateAndSendIfNeeded_def send_response_trailer_def send_response_body_def
    send_response_header_def send_request_trailer_def send_request_body_def send_request_header_def
  by (subst stage_in_response, force)+ simp

lemma stage_complete:
  assumes "\<And>r. rc_ResponseComplete (upd r) = rc_ResponseComplete r" "\<And>r. shape r \<Longrightarrow> shape (upd r)"
    "shape (fst (snd x))"
  shows "rc_ResponseComplete (fst (snd (send_stage guard msgs upd x))) = rc_ResponseComplete (fst (snd x)) \<and>
         shape (fst (snd (send_stage guard msgs upd x)))"
  using assms by (cases x) (auto simp: send_stage_def split: prod.splits)

lemma updateState_complete:
  assumes "shape r"
  shows "rc_ResponseComplete (fst (snd (updateStateAndSendIfNeeded r io))) = rc_ResponseComplete r \<and>
         shape (fst (snd (updateStateAndSendIfNeeded r io)))"
proof -
  define P where "P x \<longleftrightarrow> rc_ResponseComplete (fst (snd x)) = rc_ResponseComplete r \<and> shape (fst (snd x))"
    for x :: "bool \<times> request_context \<times> srv_io"
  have "P (send_stage g m u x)"
    if "P x" "\<And>r. rc_ResponseComplete (u r) = rc_ResponseComplete r" "\<And>r. shape r \<Longrightarrow> shape (u r)" for g m u x
    using stage_complete [of u x g m] that by (simp add: P_def)
  then have "P (updateStateAndSendIfNeeded r io)" if "P (True, r, io)"
    using that unfolding updateStateAndSendIfNeeded_def send_response_trailer_def send_response_body_def
      send_response_header_def send_request_trailer_def send_request_body_def send_request_header_def
    by (simp add: shape_def)
  then show ?thesis using assms by (simp add: P_def)
qed

lemma shape_read_response_header: "proto (read_response_header h r) = (case proto r of
    (q, c, st, ms) \<Rightarrow> (q, c, rc_modelServerStreaming (read_response_header h r), ms))"
  by (simp add: read_response_header_def proto_def)

lemma fold_read_header_proto [simp]: "proto (fold read_header hs r) = proto r"
  by (induction hs arbitrary: r) (auto simp: read_header_def Let_def)

lemma fold_read_response_header:
  "shape (fold read_response_header hs r) = shape r"
  "rc_RequestState (fold read_response_header hs r) = rc_RequestState r"
  "rc_ResponseComplete (fold read_response_header hs r) = rc_ResponseComplete r"
  "rc_TargetPod (fold read_response_header hs r) = rc_TargetPod r"
  by (induction hs arbitrary: r; simp add: read_response_header_def shape_def)+

fun body_chunks :: "processing_response \<Rightarrow> char streamed_body list" where
  "body_chunks (ResponseBodyResponse c _) = [c]"
| "body_chunks _ = []"

lemma generateResponseBodyResponses_chunks:
  "concat (map body_chunks (generateResponseBodyResponses b eos dm)) = BuildChunkedBodyResponses b eos"
  "list_all (\<lambda>m. msg_rank m = 5) (generateResponseBodyResponses b eos dm)"
proof -
  have "concat (map body_chunks (map (\<lambda>c. ResponseBodyResponse c None) cs)) = cs" for cs
    by (induction cs) auto
  then show "concat (map body_chunks (generateResponseBodyResponses b eos dm)) = BuildChunkedBodyResponses b eos"
    "list_all (\<lambda>m. msg_rank m = 5) (generateResponseBodyResponses b eos dm)"
    by (cases "BuildChunkedBodyResponses b eos" rule: rev_cases;
        auto simp: generateResponseBodyResponses_def Let_def list_all_iff)+
qed

lemma GenerateRequestBodyResponses_rank:
  "list_all (\<lambda>m. msg_rank m = 2) (GenerateRequestBodyResponses b)"
  by (auto simp: GenerateRequestBodyResponses_def list_all_iff)

definition done_count :: "request_context \<Rightarrow> nat" where
  "done_count rc = (if rc_ResponseComplete rc then 1 else 0)"

text \<open>
  A stream whose response headers are sent and whose response is not complete; \<open>rw\<close> is the
  rewriting of the model name.
\<close>

definition serving :: "bool \<Rightarrow> (string \<Rightarrow> string) \<Rightarrow> 'd server_state \<Rightarrow> bool" where
  "serving streaming rw st \<longleftrightarrow>
     rc_RequestState (sv_ctx st) = HeaderResponseResponseComplete \<and> \<not> rc_ResponseComplete (sv_ctx st) \<and>
     rc_respBodyResp (sv_ctx st) = [] \<and> rc_respTrailerResp (sv_ctx st) = None \<and> io_script (sv_io st) = [] \<and>
     rc_modelServerStreaming (sv_ctx st) = streaming \<and>
     rw = (\<lambda>b. rewriteModelName b (rc_TargetModelName (sv_ctx st)) (rc_IncomingModelName (sv_ctx st)))"

definition response_bytes :: "processing_response list \<Rightarrow> string" where
  "response_bytes ms = concat (map sb_Body (concat (map body_chunks ms)))"

lemma response_bytes_append [simp]: "response_bytes (ms @ ns) = response_bytes ms @ response_bytes ns"
  by (simp add: response_bytes_def)

lemma response_bytes_generate [simp]: "response_bytes (generateResponseBodyResponses b eos dm) = b"
  by (simp add: response_bytes_def generateResponseBodyResponses_chunks)

lemma update_serving:
  assumes "rc_RequestState r = HeaderResponseResponseComplete" "io_script io = []" "rc_respTrailerResp r = None"
  shows "updateStateAndSendIfNeeded r io =
    (True, (if rc_ResponseComplete r then r\<lparr>rc_RequestState := BodyResponseResponsesComplete\<rparr> else r)\<lparr>rc_respBodyResp := []\<rparr>,
     io\<lparr>io_sent := io_sent io @ rc_respBodyResp r\<rparr>)"
  using assms by (simp add: updateStateAndSendIfNeeded_def send_response_trailer_def send_response_body_def
    send_response_header_def send_request_trailer_def send_request_body_def send_request_header_def
    send_stage_def send_list_ok)

definition body_events :: "gotime \<Rightarrow> string \<Rightarrow> (string \<times> go_any) list \<Rightarrow> string list \<Rightarrow> stream_event list" where
  "body_events now newID md cs = map (\<lambda>c. Recv now newID md (ResponseBody c False)) cs"

locale director_contract =
  fixes s :: "'d streaming_server" and completions :: "'d \<Rightarrow> nat"
  assumes HandleRequest: "do_HandleRequest (ss_director s) rc d = (out, rc', d') \<Longrightarrow>
      proto rc' = proto rc \<and> completions d' = completions d"
    and HandleResponseHeader: "do_HandleResponseHeader (ss_director s) rc d = (rc', d') \<Longrightarrow>
      proto rc' = proto rc \<and> rc_TargetPod rc' = rc_TargetPod rc \<and> completions d' = completions d"
    and HandleResponseBody: "do_HandleResponseBody (ss_director s) eos rc d = (rc', d') \<Longrightarrow>
      proto rc' = proto rc \<and> rc_TargetPod rc' = rc_TargetPod rc \<and>
      rc_TargetModelName rc' = rc_TargetModelName rc \<and> rc_IncomingModelName rc' = rc_IncomingModelName rc \<and>
      completions d' = completions d + (if eos then 1 else 0)"
    and GetRandomEndpoint: "do_GetRandomEndpoint (ss_director s) d = (ep, d') \<Longrightarrow> completions d' = completions d"
begin

lemma server_HandleResponseBody_eff:
  assumes "server_HandleResponseBody s rc b eos d = (rc', d')"
  shows "proto rc' = proto rc" "rc_TargetPod rc' = rc_TargetPod rc"
    "rc_TargetModelName rc' = rc_TargetModelName rc" "rc_IncomingModelName rc' = rc_IncomingModelName rc"
    "completions d' = completions d + (if eos then 1 else 0)"
  using HandleResponseBody [OF assms [unfolded server_HandleResponseBody_def Let_def]]
  by (auto simp: proto_def split: sum.splits option.splits)

lemma server_HandleResponseHeaders_eff:
  assumes "server_HandleResponseHeaders s rc hs d = (rc', d')"
  shows "proto rc' = proto rc" "rc_TargetPod rc' = rc_TargetPod rc" "completions d' = completions d"
  using HandleResponseHeader [OF assms [unfolded server_HandleResponseHeaders_def Let_def]]
  by (auto simp: proto_def)

lemma HandleRequestHeaders_eff:
  assumes "HandleRequestHeaders s now hs eos rc d = (err, rc', d')" "shape rc"
  shows "shape rc'" "rc_RequestState rc' = rc_RequestState rc"
    "rc_ResponseComplete rc' = rc_ResponseComplete rc" "completions d' = completions d"
proof -
  have "shape rc' \<and> rc_RequestState rc' = rc_RequestState rc \<and>
    rc_ResponseComplete rc' = rc_ResponseComplete rc \<and> completions d' = completions d"
  proof (cases eos)
    case True
    obtain ep d1 where g: "do_GetRandomEndpoint (ss_director s) d = (ep, d1)" by fastforce
    show ?thesis using assms True GetRandomEndpoint [OF g] g
      by (cases ep) (auto simp: HandleRequestHeaders_def Let_def shape_def generateRequestHeaderResponse_def)
  next
    case False
    then have "proto rc' = proto rc" "d' = d"
      using assms(1) by (auto simp: HandleRequestHeaders_def Let_def)
    then show ?thesis using shape_proto assms(2) proto_eqD by blast
  qed
  then show "shape rc'" "rc_RequestState rc' = rc_RequestState rc"
    "rc_ResponseComplete rc' = rc_ResponseComplete rc" "completions d' = completions d" by auto
qed

lemma finishResponse_eff:
  assumes "finishResponse s now body ms eos rc d = (rc', d')" "shape rc"
  shows "shape rc'" "rc_RequestState rc' = rc_RequestState rc" "rc_ResponseComplete rc'"
    "completions d' + done_count rc = completions d + 1"
proof -
  let ?r = "rc\<lparr>rc_ResponseComplete := True, rc_ResponseCompleteTimestamp := now\<rparr>"
  obtain r1 d1 where h: "server_HandleResponseBody s ?r body True d = (r1, d1)" by fastforce
  have p: "shape r1" using shape_proto [OF server_HandleResponseBody_eff(1) [OF h]] assms(2) by (simp add: shape_def)
  show "shape rc'" "rc_RequestState rc' = rc_RequestState rc" "rc_ResponseComplete rc'"
    "completions d' + done_count rc = completions d + 1"
    using assms h p proto_eqD [OF server_HandleResponseBody_eff(1) [OF h]]
      server_HandleResponseBody_eff(5) [OF h] generateResponseBodyResponses_chunks(2)
    by (auto simp: finishResponse_def done_count_def shape_def split: if_splits)
qed

lemma process_message_eff:
  assumes m: "process_message s now newID msg st = (out, st')" and sh: "shape (sv_ctx st)"
  shows "shape (sv_ctx st') \<and> sv_io st' = sv_io st \<and>
    rc_RequestState (sv_ctx st') = (case msg of ResponseHeaders _ \<Rightarrow> ResponseReceived | _ \<Rightarrow> rc_RequestState (sv_ctx st)) \<and>
    ((\<forall>c. msg = ResponseBody c True \<longrightarrow> \<not> rc_ResponseComplete (sv_ctx st)) \<longrightarrow>
     completions (sv_dir st') + done_count (sv_ctx st) = completions (sv_dir st) + done_count (sv_ctx st')) \<and>
    ((\<forall>c. msg \<noteq> ResponseBody c True) \<and> msg \<noteq> ResponseTrailers \<longrightarrow>
     rc_ResponseComplete (sv_ctx st') = rc_ResponseComplete (sv_ctx st))"
proof (cases msg)
  case (RequestHeaders hs eos)
  let ?r = "if ExtractHeaderValue hs RequestIdHeaderKey = []
      then (sv_ctx st)\<lparr>rc_Request := (rc_Request (sv_ctx st))\<lparr>rq_Headers :=
        AList.update RequestIdHeaderKey newID (rq_Headers (rc_Request (sv_ctx st)))\<rparr>\<rparr> else sv_ctx st"
  have r: "shape ?r" "rc_RequestState ?r = rc_RequestState (sv_ctx st)"
    "rc_ResponseComplete ?r = rc_ResponseComplete (sv_ctx st)"
    using sh by (simp_all add: shape_def)
  obtain err rc' d' where h: "HandleRequestHeaders s now hs eos ?r (sv_dir st) = (err, rc', d')"
    by (metis surj_pair)
  show ?thesis using m r HandleRequestHeaders_eff [OF h r(1)] h
    by (auto simp: RequestHeaders process_message_def Let_def done_count_def)
next
  case (RequestBody b eos)
  let ?r = "(sv_ctx st)\<lparr>rc_Request := (rc_Request (sv_ctx st))\<lparr>rq_RawBody := sv_body st @ b\<rparr>,
    rc_RequestSize := int (length (sv_body st @ b))\<rparr>"
  obtain o1 r1 d1 where h: "do_HandleRequest (ss_director s) ?r (sv_dir st) = (o1, r1, d1)" by (metis surj_pair)
  have "shape ?r" using sh by (simp add: shape_def)
  then have r1: "shape r1" using shape_proto conjunct1 [OF HandleRequest [OF h]] by metis
  have rank: "list_all (\<lambda>m. msg_rank m = 2) (GenerateRequestBodyResponses x)" for x
    by (rule GenerateRequestBodyResponses_rank)
  define r3 where "r3 = (case rc_SchedulingRequest r1 of
      Some req \<Rightarrow> (case lr_Body req of Some b \<Rightarrow> r1\<lparr>rc_modelServerStreaming := lb_Stream b\<rparr> | None \<Rightarrow> r1)
    | None \<Rightarrow> r1)"
  have r3: "shape r3" "rc_RequestState r3 = rc_RequestState r1" "rc_ResponseComplete r3 = rc_ResponseComplete r1"
    using r1 by (auto simp: r3_def shape_def split: option.splits)
  have r4: "shape (r3\<lparr>rc_reqHeaderResp := Some (generateRequestHeaderResponse s r3), rc_reqBodyResp := GenerateRequestBodyResponses x\<rparr>)" for x
    using r3(1) rank by (simp add: shape_def generateRequestHeaderResponse_def Let_def)
  have q: "rc_RequestState r1 = rc_RequestState (sv_ctx st)" "rc_ResponseComplete r1 = rc_ResponseComplete (sv_ctx st)"
    "completions d1 = completions (sv_dir st)"
    using proto_eqD(1,2) [OF conjunct1 [OF HandleRequest [OF h]]] HandleRequest [OF h] by simp_all
  show ?thesis
  proof (cases eos)
    case False
    then show ?thesis using m sh by (auto simp: RequestBody process_message_def)
  next
    case True
    have "(out, st') = (case o1 of HandledOk \<Rightarrow> (HandledOk, st\<lparr>sv_ctx := r3\<lparr>rc_reqHeaderResp := Some (generateRequestHeaderResponse s r3),
          rc_reqBodyResp := GenerateRequestBodyResponses (rq_RawBody (rc_Request r3))\<rparr>, sv_body := [], sv_dir := d1\<rparr>)
        | _ \<Rightarrow> (o1, st\<lparr>sv_ctx := r1, sv_body := [], sv_dir := d1\<rparr>))"
      using m True h by (cases o1) (auto simp: RequestBody process_message_def Let_def r3_def)
    then show ?thesis using r1 r3 r4 q by (cases o1) (auto simp: RequestBody done_count_def)
  qed
next
  case (ResponseHeaders hs)
  let ?r = "(fold read_response_header hs (sv_ctx st))\<lparr>rc_RequestState := ResponseReceived\<rparr>"
  obtain r1 d1 where h: "server_HandleResponseHeaders s ?r hs (sv_dir st) = (r1, d1)" by fastforce
  have "shape ?r" using sh fold_read_response_header(1) [of hs "sv_ctx st"] by (simp add: shape_def)
  then have r1: "shape r1" using shape_proto server_HandleResponseHeaders_eff(1) [OF h] by metis
  have st': "st' = st\<lparr>sv_ctx := r1\<lparr>rc_respHeaderResp := Some (ResponseHeadersResponse (generateResponseHeaders r1))\<rparr>, sv_dir := d1\<rparr>"
    using m h by (auto simp: ResponseHeaders process_message_def Let_def)
  have q: "rc_RequestState r1 = ResponseReceived" "rc_ResponseComplete r1 = rc_ResponseComplete (sv_ctx st)"
    "completions d1 = completions (sv_dir st)"
    using proto_eqD(1,2) [OF server_HandleResponseHeaders_eff(1) [OF h]] server_HandleResponseHeaders_eff(3) [OF h]
    by (simp_all add: fold_read_response_header(3))
  show ?thesis using r1 q by (simp add: st' ResponseHeaders done_count_def shape_def)
next
  case (ResponseBody b eos)
  show ?thesis
  proof (cases "rc_modelServerStreaming (sv_ctx st)")
    case True
    let ?r = "if eos then (sv_ctx st)\<lparr>rc_ResponseComplete := True, rc_ResponseCompleteTimestamp := now\<rparr> else sv_ctx st"
    obtain r1 d1 where h: "server_HandleResponseBody s ?r b eos (sv_dir st) = (r1, d1)" by fastforce
    have "shape ?r" using sh by (simp add: shape_def)
    then have r1: "shape r1" using shape_proto server_HandleResponseBody_eff(1) [OF h] by metis
    define bs where "bs = generateResponseBodyResponses
        (rewriteModelName b (rc_TargetModelName r1) (rc_IncomingModelName r1)) eos (rs_DynamicMetadata (rc_Response r1))"
    have st': "st' = st\<lparr>sv_ctx := r1\<lparr>rc_respBodyResp := bs\<rparr>, sv_dir := d1\<rparr>"
      using m h True by (auto simp: ResponseBody process_message_def Let_def bs_def)
    have bs: "list_all (\<lambda>m. msg_rank m = 5) bs" by (simp add: bs_def generateResponseBodyResponses_chunks)
    have q: "rc_RequestState r1 = rc_RequestState (sv_ctx st)"
      "rc_ResponseComplete r1 = (eos \<or> rc_ResponseComplete (sv_ctx st))"
      "completions d1 = completions (sv_dir st) + (if eos then 1 else 0)"
      using proto_eqD(1,2) [OF server_HandleResponseBody_eff(1) [OF h]] server_HandleResponseBody_eff(5) [OF h]
      by simp_all
    show ?thesis using r1 q bs by (cases eos) (simp_all add: st' ResponseBody done_count_def shape_def)
  next
    case False
    obtain r1 d1 where h: "finishResponse s now (sv_body st @ b) False True (sv_ctx st) (sv_dir st) = (r1, d1)"
      by fastforce
    show ?thesis using m False h sh finishResponse_eff [OF h sh]
      by (auto simp: ResponseBody process_message_def Let_def done_count_def split: if_splits)
  qed
next
  case ResponseTrailers
  obtain r1 d1 where h: "finishResponse s now (sv_body st) (rc_modelServerStreaming (sv_ctx st)) False (sv_ctx st) (sv_dir st) = (r1, d1)"
    by fastforce
  show ?thesis using m h sh finishResponse_eff [OF h sh]
    by (auto simp: ResponseTrailers process_message_def Let_def done_count_def shape_def)
next
  case RequestTrailers
  then show ?thesis using m sh by (auto simp: process_message_def)
qed

subsubsection \<open>Order\<close>

lemma process_step_ranked:
  assumes st: "ranked (True, sv_ctx st, sv_io st)"
    and hd: "is_response_headers ev \<Longrightarrow> \<not> in_response (rc_RequestState (sv_ctx st))"
    and step: "process_step s ev st = (res, st')"
  shows "in_order (io_sent (sv_io st')) \<and>
    (res = None \<longrightarrow> ranked (True, sv_ctx st', sv_io st') \<and>
       in_response (rc_RequestState (sv_ctx st')) = (is_response_headers ev \<or> in_response (rc_RequestState (sv_ctx st))))"
proof (cases ev)
  case (Recv now newID metadata msg)
  define st0 where "st0 = st\<lparr>sv_ctx := (sv_ctx st)\<lparr>rc_Request := (rc_Request (sv_ctx st))\<lparr>rq_Metadata := Some metadata\<rparr>\<rparr>\<rparr>"
  have p0: "proto (sv_ctx st0) = proto (sv_ctx st)" by (simp add: st0_def)
  have io0: "sv_io st0 = sv_io st" by (simp add: st0_def)
  have sh0: "shape (sv_ctx st0)" "in_order (io_sent (sv_io st))"
    "\<And>m. m \<in> set (io_sent (sv_io st)) \<Longrightarrow> msg_rank m \<le> state_bound (rc_RequestState (sv_ctx st))"
    using st shape_proto [OF p0] by (auto simp: ranked_def)
  obtain out st1 where pm: "process_message s now newID msg st0 = (out, st1)" by fastforce
  note eff = process_message_eff [OF pm sh0(1)]
  have io1: "sv_io st1 = sv_io st" using eff io0 by simp
  have q1: "rc_RequestState (sv_ctx st1) = (if is_response_headers ev then ResponseReceived else rc_RequestState (sv_ctx st))"
    using eff proto_eqD(1) [OF p0] by (cases msg) (simp_all add: Recv)
  have r1: "ranked (True, sv_ctx st1, sv_io st1)"
  proof -
    have "state_bound (rc_RequestState (sv_ctx st)) \<le> state_bound (rc_RequestState (sv_ctx st1))"
      using q1 hd not_in_response_bound [of "rc_RequestState (sv_ctx st)"] by auto
    then show ?thesis using eff sh0 io1 by (auto simp: ranked_def intro: order.trans)
  qed
  have app: "in_order (io_sent (sv_io st) @ [ImmediateResponse c b])" for c b
  proof -
    have "msg_rank m \<le> 6" if "m \<in> set (io_sent (sv_io st))" for m
      using sh0(3) [OF that] by (cases "rc_RequestState (sv_ctx st)") auto
    then have "before m (ImmediateResponse c b)" if "m \<in> set (io_sent (sv_io st))" for m
      using that by (force simp: before_def)
    then show ?thesis using sh0(2) by (simp add: in_order_def sorted_wrt_append)
  qed
  show ?thesis
  proof (cases out)
    case HandledPanic
    then show ?thesis using step pm io1 sh0 by (auto simp: Recv process_step_def Let_def st0_def [symmetric])
  next
    case (HandledErr err)
    show ?thesis
    proof (cases "BuildErrResponse err")
      case (Inl e)
      then show ?thesis using step pm io1 sh0 HandledErr
        by (auto simp: Recv process_step_def Let_def st0_def [symmetric])
    next
      case (Inr resp)
      then obtain c where resp: "resp = ImmediateResponse c (error_Error err)"
        by (auto simp: BuildErrResponse_def Let_def split: error_code.splits)
      obtain ok io2 where snd: "srv_Send resp (sv_io st1) = (ok, io2)" by fastforce
      then have "io_sent io2 = io_sent (sv_io st) \<or> io_sent io2 = io_sent (sv_io st) @ [resp]"
        using io1 by (auto simp: srv_Send_def split: list.splits if_splits)
      then show ?thesis using step pm snd HandledErr Inr resp app sh0
        by (auto simp: Recv process_step_def Let_def st0_def [symmetric])
    qed
  next
    case HandledOk
    obtain ok rc2 io2 where u: "updateStateAndSendIfNeeded (sv_ctx st1) (sv_io st1) = (ok, rc2, io2)"
      by (metis surj_pair)
    have "ranked (ok, rc2, io2)" using ranked_updateStateAndSendIfNeeded [OF r1] u by simp
    moreover have "in_response (rc_RequestState rc2) = in_response (rc_RequestState (sv_ctx st1))"
      using updateState_in_response [of "sv_ctx st1" "sv_io st1"] u by simp
    moreover have "res = (if ok then None else Some (ReturnErr ''failed to send response back to Envoy''))"
      "st' = st1\<lparr>sv_ctx := rc2, sv_io := io2\<rparr>"
      using step pm u HandledOk by (auto simp: Recv process_step_def Let_def st0_def [symmetric])
    ultimately show ?thesis using q1 by (auto simp: ranked_def)
  qed
qed (use step st in \<open>auto simp: process_step_def ranked_def\<close>)

lemma process_defer_io [simp]: "sv_io (process_defer s st) = sv_io st"
  by (simp add: process_defer_def split: prod.splits)

lemma process_loop_in_order:
  assumes "ranked (True, sv_ctx st, sv_io st)"
    and "length (filter is_response_headers evs) + (if in_response (rc_RequestState (sv_ctx st)) then 1 else 0) \<le> (1 :: nat)"
    and "process_loop s evs st = (res, st')"
  shows "in_order (io_sent (sv_io st'))"
  using assms
proof (induction evs arbitrary: st)
  case Nil
  then show ?case by (auto simp: ranked_def)
next
  case (Cons ev evs)
  obtain r1 st1 where step: "process_step s ev st = (r1, st1)" by fastforce
  have hd: "is_response_headers ev \<Longrightarrow> \<not> in_response (rc_RequestState (sv_ctx st))"
    using Cons.prems(2) by (auto split: if_splits)
  note eff = process_step_ranked [OF Cons.prems(1) hd step]
  show ?case
  proof (cases r1)
    case (Some r)
    then show ?thesis using Cons.prems(3) step eff by auto
  next
    case None
    then show ?thesis using Cons.IH [of st1] Cons.prems eff step by (auto split: if_splits)
  qed
qed

lemma Process_in_order:
  assumes "length (filter is_response_headers evs) \<le> 1" "Process s evs sends d = (res, st')"
  shows "in_order (io_sent (sv_io st'))"
  by (rule process_loop_in_order [OF _ _ assms(2) [unfolded Process_def]])
    (use assms(1) in \<open>simp_all add: ranked_def shape_def new_request_context_def in_order_def\<close>)

subsubsection \<open>Completion\<close>

lemma process_step_completes:
  assumes sh: "shape (sv_ctx st)" and once: "is_body_end ev \<Longrightarrow> \<not> rc_ResponseComplete (sv_ctx st)"
    and step: "process_step s ev st = (res, st')"
  shows "completions (sv_dir st') + done_count (sv_ctx st) = completions (sv_dir st) + done_count (sv_ctx st') \<and>
    shape (sv_ctx st') \<and> (\<not> ends_response ev \<longrightarrow> rc_ResponseComplete (sv_ctx st') = rc_ResponseComplete (sv_ctx st))"
proof (cases ev)
  case (Recv now newID metadata msg)
  define st0 where "st0 = st\<lparr>sv_ctx := (sv_ctx st)\<lparr>rc_Request := (rc_Request (sv_ctx st))\<lparr>rq_Metadata := Some metadata\<rparr>\<rparr>\<rparr>"
  have p0: "proto (sv_ctx st0) = proto (sv_ctx st)" and d0: "sv_dir st0 = sv_dir st" by (simp_all add: st0_def)
  have sh0: "shape (sv_ctx st0)" using sh shape_proto [OF p0] by simp
  obtain out st1 where pm: "process_message s now newID msg st0 = (out, st1)" by fastforce
  note eff = process_message_eff [OF pm sh0]
  have c0: "rc_ResponseComplete (sv_ctx st0) = rc_ResponseComplete (sv_ctx st)" by (rule proto_eqD(2) [OF p0])
  have dc0: "done_count (sv_ctx st0) = done_count (sv_ctx st)" by (simp add: done_count_def c0)
  have "\<forall>c. msg = ResponseBody c True \<longrightarrow> \<not> rc_ResponseComplete (sv_ctx st0)" using once c0 by (auto simp: Recv)
  then have q1: "completions (sv_dir st1) + done_count (sv_ctx st) = completions (sv_dir st) + done_count (sv_ctx st1)"
    "shape (sv_ctx st1)" using eff d0 dc0 by simp_all
  have q2: "rc_ResponseComplete (sv_ctx st1) = rc_ResponseComplete (sv_ctx st)" if "\<not> ends_response ev"
  proof -
    have "(\<forall>c. msg \<noteq> ResponseBody c True) \<and> msg \<noteq> ResponseTrailers" using that by (auto simp: Recv)
    then show ?thesis using eff c0 by simp
  qed
  obtain ok rc2 io2 where u: "updateStateAndSendIfNeeded (sv_ctx st1) (sv_io st1) = (ok, rc2, io2)"
    by (metis surj_pair)
  have rc2: "rc_ResponseComplete rc2 = rc_ResponseComplete (sv_ctx st1)" "shape rc2"
    using updateState_complete [of "sv_ctx st1" "sv_io st1"] q1(2) u by simp_all
  have "sv_dir st' = sv_dir st1 \<and> (sv_ctx st' = sv_ctx st1 \<or> sv_ctx st' = rc2)"
    using step pm u by (cases out) (auto simp: Recv process_step_def Let_def st0_def [symmetric] split: sum.splits prod.splits)
  then show ?thesis using q1 q2 rc2 by (auto simp: done_count_def)
qed (use step sh in \<open>auto simp: process_step_def\<close>)

lemma process_loop_completes:
  assumes "shape (sv_ctx st)" "end_once evs" "rc_ResponseComplete (sv_ctx st) \<Longrightarrow> \<not> list_ex is_body_end evs"
    and "process_loop s evs st = (Some r, st')"
  shows "completions (sv_dir st') + done_count (sv_ctx st) =
    completions (sv_dir st) + (if rc_TargetPod (sv_ctx st') \<noteq> None \<or> rc_ResponseComplete (sv_ctx st') then 1 else 0)"
  using assms
proof (induction evs arbitrary: st)
  case (Cons ev evs)
  obtain r1 st1 where step: "process_step s ev st = (r1, st1)" by fastforce
  have once: "is_body_end ev \<Longrightarrow> \<not> rc_ResponseComplete (sv_ctx st)" using Cons.prems(3) by auto
  note eff = process_step_completes [OF Cons.prems(1) once step]
  show ?case
  proof (cases r1)
    case None
    have "\<not> list_ex is_body_end evs" if "rc_ResponseComplete (sv_ctx st1)"
      using that eff Cons.prems(2,3) by (cases "ends_response ev") auto
    then show ?thesis using Cons.IH [of st1] Cons.prems(2,4) eff step None by auto
  next
    case (Some r')
    obtain rc2 d2 where h: "do_HandleResponseBody (ss_director s) True (sv_ctx st1) (sv_dir st1) = (rc2, d2)" by fastforce
    have "st' = process_defer s st1" using Some Cons.prems(4) step by simp
    then show ?thesis using eff HandleResponseBody [OF h] h proto_eqD(2) [OF conjunct1 [OF HandleResponseBody [OF h]]]
      by (auto simp: process_defer_def done_count_def split: if_splits)
  qed
qed simp

lemma Process_completes:
  assumes "end_once evs" "Process s evs sends d = (Some r, st')"
  shows "completions (sv_dir st') =
    completions d + (if rc_TargetPod (sv_ctx st') \<noteq> None \<or> rc_ResponseComplete (sv_ctx st') then 1 else 0)"
proof -
  let ?st = "\<lparr>sv_ctx = new_request_context, sv_body = [], sv_dir = d, sv_io = \<lparr>io_sent = [], io_script = sends\<rparr>\<rparr>"
  have "shape (sv_ctx ?st)" "\<not> rc_ResponseComplete (sv_ctx ?st)"
    by (simp_all add: shape_def new_request_context_def)
  then show ?thesis using process_loop_completes [of ?st, OF _ assms(1) _ assms(2) [unfolded Process_def]]
    by (simp add: done_count_def)
qed

subsubsection \<open>Forwarding the response\<close>

lemma step_streaming:
  assumes "serving True rw st"
  shows "\<exists>st' ms. process_step s (Recv now newID md (ResponseBody c eos)) st = (None, st') \<and>
    io_sent (sv_io st') = io_sent (sv_io st) @ ms \<and> response_bytes ms = rw c \<and>
    (if eos then rc_RequestState (sv_ctx st') = BodyResponseResponsesComplete else serving True rw st')"
proof -
  let ?c0 = "(sv_ctx st)\<lparr>rc_Request := (rc_Request (sv_ctx st))\<lparr>rq_Metadata := Some md\<rparr>\<rparr>"
  let ?c1 = "if eos then ?c0\<lparr>rc_ResponseComplete := True, rc_ResponseCompleteTimestamp := now\<rparr> else ?c0"
  obtain rc d where h: "server_HandleResponseBody s ?c1 c eos (sv_dir st) = (rc, d)" by fastforce
  note eff = server_HandleResponseBody_eff [OF h]
  define bs where "bs = generateResponseBodyResponses
     (rewriteModelName c (rc_TargetModelName rc) (rc_IncomingModelName rc)) eos (rs_DynamicMetadata (rc_Response rc))"
  define r1 where "r1 = rc\<lparr>rc_respBodyResp := bs\<rparr>"
  have p: "rc_RequestState rc = HeaderResponseResponseComplete" "rc_ResponseComplete rc = eos"
    "rc_respTrailerResp rc = None" "rc_modelServerStreaming rc"
    "rc_TargetModelName rc = rc_TargetModelName (sv_ctx st)" "rc_IncomingModelName rc = rc_IncomingModelName (sv_ctx st)"
    using assms proto_eqD [OF eff(1)] eff(3,4) by (auto simp: serving_def)
  have u: "updateStateAndSendIfNeeded r1 (sv_io st) =
    (True, (if eos then r1\<lparr>rc_RequestState := BodyResponseResponsesComplete\<rparr> else r1)\<lparr>rc_respBodyResp := []\<rparr>,
     (sv_io st)\<lparr>io_sent := io_sent (sv_io st) @ bs\<rparr>)"
    using assms p by (subst update_serving) (auto simp: r1_def serving_def)
  have pm: "process_message s now newID (ResponseBody c eos) (st\<lparr>sv_ctx := ?c0\<rparr>) = (HandledOk, st\<lparr>sv_ctx := r1, sv_dir := d\<rparr>)"
    using assms h by (simp add: process_message_def serving_def bs_def r1_def)
  have "process_step s (Recv now newID md (ResponseBody c eos)) st =
    (None, st\<lparr>sv_ctx := (if eos then r1\<lparr>rc_RequestState := BodyResponseResponsesComplete\<rparr> else r1)\<lparr>rc_respBodyResp := []\<rparr>,
      sv_dir := d, sv_io := (sv_io st)\<lparr>io_sent := io_sent (sv_io st) @ bs\<rparr>\<rparr>)"
    using pm u by (simp add: process_step_def Let_def)
  moreover have "response_bytes bs = rw c" using assms p by (simp add: bs_def serving_def)
  ultimately show ?thesis using assms p by (auto simp: serving_def r1_def)
qed

lemma step_buffering:
  assumes "serving False rw st"
  shows "\<exists>st' ms. process_step s (Recv now newID md (ResponseBody c eos)) st = (None, st') \<and>
    io_sent (sv_io st') = io_sent (sv_io st) @ ms \<and> response_bytes ms = (if eos then rw (sv_body st @ c) else []) \<and>
    sv_body st' = sv_body st @ c \<and>
    (if eos then rc_RequestState (sv_ctx st') = BodyResponseResponsesComplete else serving False rw st')"
proof (cases eos)
  case False
  let ?c0 = "(sv_ctx st)\<lparr>rc_Request := (rc_Request (sv_ctx st))\<lparr>rq_Metadata := Some md\<rparr>\<rparr>"
  have u: "updateStateAndSendIfNeeded ?c0 (sv_io st) = (True, ?c0\<lparr>rc_respBodyResp := []\<rparr>, sv_io st)"
    using assms by (subst update_serving) (auto simp: serving_def)
  have "process_step s (Recv now newID md (ResponseBody c eos)) st =
    (None, st\<lparr>sv_ctx := ?c0\<lparr>rc_respBodyResp := []\<rparr>, sv_body := sv_body st @ c\<rparr>)"
    using assms False u by (simp add: process_step_def process_message_def serving_def Let_def)
  then show ?thesis using assms False by (auto simp: serving_def response_bytes_def)
next
  case True
  let ?c0 = "(sv_ctx st)\<lparr>rc_Request := (rc_Request (sv_ctx st))\<lparr>rq_Metadata := Some md\<rparr>\<rparr>"
  let ?c1 = "?c0\<lparr>rc_ResponseComplete := True, rc_ResponseCompleteTimestamp := now\<rparr>"
  obtain rc d where h: "server_HandleResponseBody s ?c1 (sv_body st @ c) True (sv_dir st) = (rc, d)" by fastforce
  note eff = server_HandleResponseBody_eff [OF h]
  define bs where "bs = generateResponseBodyResponses
     (rewriteModelName (sv_body st @ c) (rc_TargetModelName rc) (rc_IncomingModelName rc)) True (rs_DynamicMetadata (rc_Response rc))"
  define r1 where "r1 = rc\<lparr>rc_respBodyResp := bs\<rparr>"
  have p: "rc_RequestState rc = HeaderResponseResponseComplete" "rc_ResponseComplete rc"
    "rc_respTrailerResp rc = None"
    "rc_TargetModelName rc = rc_TargetModelName (sv_ctx st)" "rc_IncomingModelName rc = rc_IncomingModelName (sv_ctx st)"
    using assms proto_eqD [OF eff(1)] eff(3,4) by (auto simp: serving_def)
  have u: "updateStateAndSendIfNeeded r1 (sv_io st) =
    (True, r1\<lparr>rc_RequestState := BodyResponseResponsesComplete, rc_respBodyResp := []\<rparr>,
     (sv_io st)\<lparr>io_sent := io_sent (sv_io st) @ bs\<rparr>)"
    using assms p by (subst update_serving) (auto simp: r1_def serving_def)
  have pm: "process_message s now newID (ResponseBody c True) (st\<lparr>sv_ctx := ?c0\<rparr>) =
    (HandledOk, st\<lparr>sv_ctx := r1, sv_body := sv_body st @ c, sv_dir := d\<rparr>)"
    using assms h by (simp add: process_message_def finishResponse_def serving_def bs_def r1_def Let_def)
  have "process_step s (Recv now newID md (ResponseBody c True)) st =
    (None, st\<lparr>sv_ctx := r1\<lparr>rc_RequestState := BodyResponseResponsesComplete, rc_respBodyResp := []\<rparr>,
      sv_body := sv_body st @ c, sv_dir := d, sv_io := (sv_io st)\<lparr>io_sent := io_sent (sv_io st) @ bs\<rparr>\<rparr>)"
    using pm u by (simp add: process_step_def Let_def)
  moreover have "response_bytes bs = rw (sv_body st @ c)" using assms p by (simp add: bs_def serving_def)
  ultimately show ?thesis using True by auto
qed

lemma forward_response:
  assumes "serving streaming rw st"
  shows "\<exists>st' ms. process_loop s (body_events now newID md cs @ [Recv now newID md (ResponseBody c True)]) st = (None, st') \<and>
    io_sent (sv_io st') = io_sent (sv_io st) @ ms \<and>
    response_bytes ms = (if streaming then concat (map rw cs) @ rw c else rw (sv_body st @ concat cs @ c)) \<and>
    rc_RequestState (sv_ctx st') = BodyResponseResponsesComplete"
  using assms
proof (induction cs arbitrary: st)
  case Nil
  show ?case
  proof (cases streaming)
    case True
    then show ?thesis using step_streaming [of rw st now newID md c True] Nil by (auto simp: body_events_def)
  next
    case False
    then show ?thesis using step_buffering [of rw st now newID md c True] Nil by (auto simp: body_events_def)
  qed
next
  case (Cons b cs)
  obtain st1 ms1 where st1: "process_step s (Recv now newID md (ResponseBody b False)) st = (None, st1)"
    "io_sent (sv_io st1) = io_sent (sv_io st) @ ms1" "serving streaming rw st1"
    "response_bytes ms1 = (if streaming then rw b else [])" "\<not> streaming \<Longrightarrow> sv_body st1 = sv_body st @ b"
    using step_streaming [of rw st now newID md b False] step_buffering [of rw st now newID md b False] Cons.prems
    by (cases streaming) auto
  obtain st2 ms2 where st2: "process_loop s (body_events now newID md cs @ [Recv now newID md (ResponseBody c True)]) st1 = (None, st2)"
    "io_sent (sv_io st2) = io_sent (sv_io st1) @ ms2"
    "response_bytes ms2 = (if streaming then concat (map rw cs) @ rw c else rw (sv_body st1 @ concat cs @ c))"
    "rc_RequestState (sv_ctx st2) = BodyResponseResponsesComplete"
    using Cons.IH [OF st1(3)] by blast
  have "process_loop s (body_events now newID md (b # cs) @ [Recv now newID md (ResponseBody c True)]) st = (None, st2)"
    using st1(1) st2(1) by (simp add: body_events_def)
  moreover have "io_sent (sv_io st2) = io_sent (sv_io st) @ (ms1 @ ms2)" using st1(2) st2(2) by simp
  moreover have "response_bytes (ms1 @ ms2) =
      (if streaming then concat (map rw (b # cs)) @ rw c else rw (sv_body st @ concat (b # cs) @ c))"
    using st1(4,5) st2(3) by auto
  ultimately show ?case using st2(4) by blast
qed

end

end
