(* ===== verification/Reconcilers.thy ===== *)
theory Reconcilers
  imports Datastore
begin

text \<open>
  The reconcilers that carry changes of Kubernetes objects into the data store:
  src/pkg/epp/controller. A reconciler gets the name of an object and fetches it; what it gets
  is an argument. A result is the error that makes the controller retry, if any, and the store
  after the call; \<open>None\<close> is a panic.
\<close>

datatype 'a fetched = Found 'a | NotFound | FetchError string

type_synonym reconciled = "(string option \<times> datastore) option"

subsection \<open>Pools (inferencepool_reconciler.go)\<close>

record inference_pool =
  ip_Name :: string
  ip_Namespace :: string
  ip_Deleting :: bool
  ip_MatchLabels :: "(string \<times> string) list"
  ip_TargetPorts :: "32 word list"

definition InferencePoolToEndpointPool :: "inference_pool \<Rightarrow> endpoint_pool" where
  "InferencePoolToEndpointPool ip =
     \<lparr>pool_Selector = ip_MatchLabels ip, pool_TargetPorts = map sint (ip_TargetPorts ip),
      pool_Namespace = ip_Namespace ip, pool_Name = ip_Name ip\<rparr>"

definition pool_Reconcile ::
  "((string \<times> string) list \<Rightarrow> (string \<times> string) list \<Rightarrow> bool) \<Rightarrow> pod_reader \<Rightarrow> inference_pool fetched \<Rightarrow> datastore \<Rightarrow> reconciled" where
  "pool_Reconcile labels_Equals reader fetch ds =
     (case fetch of
        NotFound \<Rightarrow> map_option (Pair None) (ds_Clear ds)
      | FetchError err \<Rightarrow> Some (Some (''unable to get InferencePool - '' @ err), ds)
      | Found pool \<Rightarrow>
          if ip_Deleting pool then map_option (Pair None) (ds_Clear ds)
          else map_option (\<lambda>(err, ds1). (map_option (\<lambda>e. ''failed to update datastore - '' @ e) err, ds1))
                 (PoolSet labels_Equals reader (Some (InferencePoolToEndpointPool pool)) ds))"

subsection \<open>Pods (pod_reconciler.go)\<close>

definition updateDatastore ::
  "((string \<times> string) list \<Rightarrow> (string \<times> string) list \<Rightarrow> bool) \<Rightarrow> pod \<Rightarrow> datastore \<Rightarrow> datastore option" where
  "updateDatastore selector_Matches p ds =
     (if \<not> IsPodReady p \<or> \<not> PoolLabelsMatch selector_Matches (pd_Labels p) ds
      then PodDelete (pd_Name p) ds
      else map_option snd (PodUpdateOrAddIfNotExist p ds))"

definition pod_Reconcile ::
  "((string \<times> string) list \<Rightarrow> (string \<times> string) list \<Rightarrow> bool) \<Rightarrow> string \<Rightarrow> pod fetched \<Rightarrow> datastore \<Rightarrow> reconciled" where
  "pod_Reconcile selector_Matches name fetch ds =
     (if \<not> PoolHasSynced ds then Some (None, ds)
      else case fetch of
             NotFound \<Rightarrow> map_option (Pair None) (PodDelete name ds)
           | FetchError err \<Rightarrow> Some (Some (''unable to get pod - '' @ err), ds)
           | Found p \<Rightarrow> map_option (Pair None) (updateDatastore selector_Matches p ds))"

text \<open>The filter of the watch: which events lead to a call of the reconciler.\<close>

datatype 'a watch_event = CreateEvent 'a | UpdateEvent 'a 'a | DeleteEvent 'a | GenericEvent 'a

fun passes_filter :: "('a \<Rightarrow> bool) \<Rightarrow> 'a watch_event \<Rightarrow> bool" where
  "passes_filter P (CreateEvent x) \<longleftrightarrow> P x"
| "passes_filter P (UpdateEvent old new) \<longleftrightarrow> P old \<or> P new"
| "passes_filter P (DeleteEvent x) \<longleftrightarrow> P x"
| "passes_filter P (GenericEvent x) \<longleftrightarrow> P x"

definition pod_event_filter ::
  "((string \<times> string) list \<Rightarrow> (string \<times> string) list \<Rightarrow> bool) \<Rightarrow> datastore \<Rightarrow> pod watch_event \<Rightarrow> bool" where
  "pod_event_filter selector_Matches ds = passes_filter (\<lambda>p. PoolLabelsMatch selector_Matches (pd_Labels p) ds)"

subsection \<open>Objectives and rewrites\<close>

record pool_ref =
  pr_Name :: string
  pr_Group :: string

record objective_object =
  oo_Objective :: inference_objective
  oo_Deleting :: bool
  oo_PoolRef :: pool_ref

record rewrite_object =
  ro_Rewrite :: model_rewrite
  ro_Deleting :: bool
  ro_PoolRef :: "pool_ref option"

definition objective_Reconcile ::
  "pool_ref \<Rightarrow> namespaced_name \<Rightarrow> objective_object fetched \<Rightarrow> datastore \<Rightarrow> string option \<times> datastore" where
  "objective_Reconcile pool nn fetch ds =
     (case fetch of
        FetchError err \<Rightarrow> (Some (''unable to get InferenceObjective - '' @ err), ds)
      | NotFound \<Rightarrow> (None, ObjectiveDelete nn ds)
      | Found obj \<Rightarrow>
          if oo_Deleting obj \<or> pr_Name (oo_PoolRef obj) \<noteq> pr_Name pool \<or> pr_Group (oo_PoolRef obj) \<noteq> pr_Group pool
          then (None, ObjectiveDelete nn ds)
          else (None, ObjectiveSet (oo_Objective obj) ds))"

definition objective_eventPredicate :: "pool_ref \<Rightarrow> objective_object \<Rightarrow> bool" where
  "objective_eventPredicate pool obj \<longleftrightarrow>
     pr_Name (oo_PoolRef obj) = pr_Name pool \<and> pr_Group (oo_PoolRef obj) = pr_Group pool"

definition rewrite_Reconcile ::
  "rewriteRuleWithMetadata sort_slice \<Rightarrow> pool_ref \<Rightarrow> namespaced_name \<Rightarrow> rewrite_object fetched \<Rightarrow> datastore \<Rightarrow>
   string option \<times> datastore" where
  "rewrite_Reconcile sort_Slice pool nn fetch ds =
     (case fetch of
        FetchError err \<Rightarrow> (Some (''unable to get InferenceModelRewrite - '' @ err), ds)
      | NotFound \<Rightarrow> (None, ModelRewriteDelete nn ds)
      | Found obj \<Rightarrow>
          let isPoolRefUnmatch = (case ro_PoolRef obj of
                None \<Rightarrow> True
              | Some ref \<Rightarrow> pr_Name ref \<noteq> pr_Name pool \<or> pr_Group ref \<noteq> pr_Group pool)
          in if ro_Deleting obj \<or> isPoolRefUnmatch then (None, ModelRewriteDelete nn ds)
             else (None, ModelRewriteSet sort_Slice (ro_Rewrite obj) ds))"

definition rewrite_eventPredicate :: "pool_ref \<Rightarrow> rewrite_object \<Rightarrow> bool" where
  "rewrite_eventPredicate pool obj \<longleftrightarrow>
     (case ro_PoolRef obj of None \<Rightarrow> False | Some ref \<Rightarrow> pr_Name ref = pr_Name pool \<and> pr_Group ref = pr_Group pool)"

end
