(* ===== verification/Datastore_Props.thy ===== *)
theory Datastore_Props
  imports Reconcilers Rewrite_Props
begin

text \<open>
  Correctness of the endpoints in the data store. The abstract view \<open>meta_of\<close> of a store is the
  map from endpoint names to metadata; each operation is a function of this view. The invariant
  \<open>ds_inv\<close> says that an endpoint is stored under its own name and that, if there are polling
  sources, a collector runs for exactly the stored endpoints.
\<close>

subsection \<open>Names of endpoints\<close>

lemma Itoa_nat: "Itoa (int n) = nat_digits n"
  by (simp add: Itoa_def)

lemma no_dash_in_digits: "CHR ''-'' \<notin> set (nat_digits n)"
  using nat_digits_set [of n] by auto

lemma endpoint_name_inj:
  assumes "createEndpointNamespacedName p i = createEndpointNamespacedName q j"
  shows "pd_Name p = pd_Name q \<and> pd_Namespace p = pd_Namespace q \<and> i = j"
proof -
  have "(pd_Name p @ ''-rank'') @ CHR ''-'' # nat_digits i = (pd_Name q @ ''-rank'') @ CHR ''-'' # nat_digits j"
    using assms by (simp add: createEndpointNamespacedName_def Itoa_nat)
  from append_last_char [OF this no_dash_in_digits no_dash_in_digits]
  show ?thesis using assms nat_digits_inj by (auto simp: createEndpointNamespacedName_def)
qed

subsection \<open>The invariant and the abstract view\<close>

definition ds_inv :: "datastore \<Rightarrow> bool" where
  "ds_inv ds \<longleftrightarrow>
     distinct (map fst (ds_pods ds)) \<and>
     (\<forall>k ep. (k, ep) \<in> set (ds_pods ds) \<longrightarrow> (\<exists>md. GetMetadata ep = Some md \<and> md_NamespacedName md = k)) \<and>
     (rt_pollers (ds_epf ds) > 0 \<longrightarrow> set (rt_collectors (ds_epf ds)) = fst ` set (ds_pods ds))"

definition meta_of :: "datastore \<Rightarrow> namespaced_name \<Rightarrow> endpoint_metadata option" where
  "meta_of ds k = (case map_of (ds_pods ds) k of None \<Rightarrow> None | Some ep \<Rightarrow> GetMetadata ep)"

text \<open>What the operations on endpoints leave alone.\<close>

definition same_env :: "datastore \<Rightarrow> datastore \<Rightarrow> bool" where
  "same_env ds ds' \<longleftrightarrow>
     ds_pool ds' = ds_pool ds \<and> ds_objectives ds' = ds_objectives ds \<and> ds_modelRewrites ds' = ds_modelRewrites ds \<and>
     ds_modelServerMetricsPort ds' = ds_modelServerMetricsPort ds \<and>
     rt_pollers (ds_epf ds') = rt_pollers (ds_epf ds) \<and> rt_start_ok (ds_epf ds') = rt_start_ok (ds_epf ds)"

definition startable :: "datastore \<Rightarrow> bool" where
  "startable ds \<longleftrightarrow> (\<forall>k. rt_start_ok (ds_epf ds) k)"

lemma same_env_refl [simp]: "same_env ds ds"
  by (simp add: same_env_def)

lemma same_env_trans: "same_env ds ds' \<Longrightarrow> same_env ds' ds'' \<Longrightarrow> same_env ds ds''"
  by (simp add: same_env_def)

lemma startable_same_env: "same_env ds ds' \<Longrightarrow> startable ds' = startable ds"
  by (simp add: same_env_def startable_def)

lemma ds_inv_lookup:
  assumes "ds_inv ds" "map_of (ds_pods ds) k = Some ep"
  obtains md where "GetMetadata ep = Some md" "md_NamespacedName md = k"
  using assms map_of_SomeD [of "ds_pods ds" k ep] unfolding ds_inv_def by blast

lemma meta_of_None: "ds_inv ds \<Longrightarrow> meta_of ds k = None \<longleftrightarrow> map_of (ds_pods ds) k = None"
  by (auto simp: meta_of_def split: option.splits elim: ds_inv_lookup)

lemma meta_of_Some: "ds_inv ds \<Longrightarrow> meta_of ds k = Some md \<Longrightarrow> md_NamespacedName md = k"
  by (auto simp: meta_of_def split: option.splits elim: ds_inv_lookup)

lemma collectors_match: "ds_inv ds \<Longrightarrow> rt_pollers (ds_epf ds) > 0 \<Longrightarrow> set (rt_collectors (ds_epf ds)) = dom (meta_of ds)"
  using meta_of_None [of ds] unfolding ds_inv_def by (auto simp: dom_def map_of_eq_None_iff)

subsection \<open>Removing endpoints\<close>

lemma release_endpoint:
  assumes "ds_inv ds" "map_of (ds_pods ds) k = Some ep"
  shows "\<exists>epf. runtime_ReleaseEndpoint ep (ds_epf ds) = Some epf \<and>
    (let ds' = ds\<lparr>ds_pods := AList.delete k (ds_pods ds), ds_epf := epf\<rparr>
     in ds_inv ds' \<and> same_env ds ds' \<and> meta_of ds' = (meta_of ds)(k := None))"
proof -
  obtain md where md: "GetMetadata ep = Some md" "md_NamespacedName md = k" using ds_inv_lookup [OF assms] .
  define epf where "epf = (dispatchEndpointEvent EventDelete ep (ds_epf ds))
    \<lparr>rt_collectors := filter (\<lambda>k'. k' \<noteq> k) (rt_collectors (ds_epf ds))\<rparr>"
  define ds' where "ds' = ds\<lparr>ds_pods := AList.delete k (ds_pods ds), ds_epf := epf\<rparr>"
  have "runtime_ReleaseEndpoint ep (ds_epf ds) = Some epf"
    by (simp add: runtime_ReleaseEndpoint_def md epf_def)
  moreover have "fst ` set (AList.delete k (ds_pods ds)) = fst ` set (ds_pods ds) - {k}"
    by (auto simp: AList.delete_eq image_iff)
  then have "ds_inv ds'"
    using assms(1) unfolding ds_inv_def ds'_def epf_def dispatchEndpointEvent_def
    by (auto simp: distinct_map_filter AList.delete_eq)
  moreover have "same_env ds ds'" by (simp add: same_env_def ds'_def epf_def dispatchEndpointEvent_def)
  moreover have "meta_of ds' = (meta_of ds)(k := None)" by (auto simp: meta_of_def ds'_def delete_conv')
  ultimately show ?thesis unfolding Let_def ds'_def by blast
qed

lemma remove_where_spec:
  assumes "ds_inv ds" "distinct (map fst kvs)" "\<forall>(k, ep) \<in> set kvs. map_of (ds_pods ds) k = Some ep"
  shows "\<exists>ds'. remove_where P kvs ds = Some ds' \<and> ds_inv ds' \<and> same_env ds ds' \<and>
    meta_of ds' = (\<lambda>k. case meta_of ds k of None \<Rightarrow> None | Some md \<Rightarrow> if k \<in> fst ` set kvs \<and> P md then None else Some md)"
  using assms
proof (induction kvs arbitrary: ds)
  case Nil
  show ?case using Nil by (auto split: option.splits)
next
  case (Cons kv kvs)
  obtain k ep where kv: "kv = (k, ep)" by (cases kv)
  have look: "map_of (ds_pods ds) k = Some ep" using Cons.prems(3) kv by auto
  obtain md where md: "GetMetadata ep = Some md" "md_NamespacedName md = k"
    using ds_inv_lookup [OF Cons.prems(1) look] .
  have mk: "meta_of ds k = Some md" by (simp add: meta_of_def look md)
  show ?case
  proof (cases "P md")
    case False
    obtain ds' where "remove_where P kvs ds = Some ds'" "ds_inv ds'" "same_env ds ds'"
      "meta_of ds' = (\<lambda>k. case meta_of ds k of None \<Rightarrow> None | Some md \<Rightarrow> if k \<in> fst ` set kvs \<and> P md then None else Some md)"
      using Cons.IH [OF Cons.prems(1)] Cons.prems(2,3) kv by auto
    then show ?thesis using False kv md mk by (auto split: option.splits)
  next
    case True
    obtain epf where rel: "runtime_ReleaseEndpoint ep (ds_epf ds) = Some epf"
      and d: "let ds' = ds\<lparr>ds_pods := AList.delete k (ds_pods ds), ds_epf := epf\<rparr>
        in ds_inv ds' \<and> same_env ds ds' \<and> meta_of ds' = (meta_of ds)(k := None)"
      using release_endpoint [OF Cons.prems(1) look] by blast
    define ds1 where "ds1 = ds\<lparr>ds_pods := AList.delete k (ds_pods ds), ds_epf := epf\<rparr>"
    have d1: "ds_inv ds1" "same_env ds ds1" "meta_of ds1 = (meta_of ds)(k := None)"
      using d by (simp_all add: Let_def ds1_def)
    have "\<forall>(k', ep') \<in> set kvs. map_of (ds_pods ds1) k' = Some ep'"
    proof (clarify)
      fix k' ep' assume "(k', ep') \<in> set kvs"
      moreover from this have "k' \<noteq> k" using Cons.prems(2) kv by force
      ultimately show "map_of (ds_pods ds1) k' = Some ep'" using Cons.prems(3) by (auto simp: ds1_def delete_conv')
    qed
    then obtain ds' where ds': "remove_where P kvs ds1 = Some ds'" "ds_inv ds'" "same_env ds1 ds'"
      "meta_of ds' = (\<lambda>k. case meta_of ds1 k of None \<Rightarrow> None | Some md \<Rightarrow> if k \<in> fst ` set kvs \<and> P md then None else Some md)"
      using Cons.IH [OF d1(1)] Cons.prems(2) kv by auto
    have "remove_where P (kv # kvs) ds = Some ds'"
      using ds'(1) True by (simp add: kv md rel ds1_def)
    moreover have "meta_of ds' = (\<lambda>k. case meta_of ds k of None \<Rightarrow> None | Some md \<Rightarrow> if k \<in> fst ` set (kv # kvs) \<and> P md then None else Some md)"
      using True mk kv unfolding ds'(4) d1(3) by (auto split: option.splits)
    ultimately show ?thesis using ds'(2) same_env_trans [OF d1(2) ds'(3)] by blast
  qed
qed

lemma remove_where_all:
  assumes "ds_inv ds"
  shows "\<exists>ds'. remove_where P (ds_pods ds) ds = Some ds' \<and> ds_inv ds' \<and> same_env ds ds' \<and>
    meta_of ds' = (\<lambda>k. case meta_of ds k of None \<Rightarrow> None | Some md \<Rightarrow> if P md then None else Some md)"
proof -
  have d: "distinct (map fst (ds_pods ds))" using assms by (simp add: ds_inv_def)
  obtain ds' where ds': "remove_where P (ds_pods ds) ds = Some ds'" "ds_inv ds'" "same_env ds ds'"
    "meta_of ds' = (\<lambda>k. case meta_of ds k of None \<Rightarrow> None | Some md \<Rightarrow> if k \<in> fst ` set (ds_pods ds) \<and> P md then None else Some md)"
    using remove_where_spec [OF assms d, of P] d by auto
  have "k \<in> fst ` set (ds_pods ds)" if "meta_of ds k = Some md" for k md
    using that by (force simp: meta_of_def split: option.splits dest: map_of_SomeD)
  then have "meta_of ds' = (\<lambda>k. case meta_of ds k of None \<Rightarrow> None | Some md \<Rightarrow> if P md then None else Some md)"
    unfolding ds'(4) by (intro ext) (simp split: option.split)
  then show ?thesis using ds'(1-3) by blast
qed

subsection \<open>Adding endpoints\<close>

lemma ds_inv_update:
  assumes "ds_inv ds" "md_NamespacedName md = k" "GetMetadata ep = Some md" "rt_pollers epf = rt_pollers (ds_epf ds)"
    "rt_pollers epf > 0 \<Longrightarrow> set (rt_collectors epf) = insert k (set (rt_collectors (ds_epf ds)))"
  shows "ds_inv (ds\<lparr>ds_pods := AList.update k ep (ds_pods ds), ds_epf := epf\<rparr>)"
proof -
  have "\<exists>md. GetMetadata e = Some md \<and> md_NamespacedName md = k'"
    if "(k', e) \<in> set (AList.update k ep (ds_pods ds))" for k' e
    using set_update_subset [OF that] assms(1-3) unfolding ds_inv_def by blast
  moreover have "fst ` set (AList.update k ep (ds_pods ds)) = insert k (fst ` set (ds_pods ds))" by (simp add: dom_update)
  ultimately show ?thesis using assms unfolding ds_inv_def by (simp add: distinct_update)
qed

lemma store_endpoint_spec:
  assumes "ds_inv ds" "startable ds"
  shows "ds_inv (snd (store_endpoint md (b, ds))) \<and> same_env ds (snd (store_endpoint md (b, ds))) \<and>
    meta_of (snd (store_endpoint md (b, ds))) = (meta_of ds)(md_NamespacedName md \<mapsto> md)"
proof (cases "map_of (ds_pods ds) (md_NamespacedName md)")
  case (Some ep)
  let ?ep = "ep\<lparr>GetMetadata := Some md\<rparr>" and ?k = "md_NamespacedName md"
  have "?k \<in> fst ` set (ds_pods ds)" using Some by (force dest: map_of_SomeD)
  then have c: "rt_pollers (ds_epf ds) > 0 \<longrightarrow> insert ?k (set (rt_collectors (ds_epf ds))) = set (rt_collectors (ds_epf ds))"
    using assms(1) by (auto simp: ds_inv_def)
  have "ds_inv (ds\<lparr>ds_pods := AList.update ?k ?ep (ds_pods ds), ds_epf := ds_epf ds\<rparr>)"
    by (rule ds_inv_update [OF assms(1), of md]) (use c in auto)
  then show ?thesis using Some by (auto simp: store_endpoint_def Let_def same_env_def meta_of_def update_conv')
next
  case None
  let ?k = "md_NamespacedName md"
  have new: "?k \<notin> set (rt_collectors (ds_epf ds))" if "rt_pollers (ds_epf ds) > 0"
    using assms(1) that None by (simp add: ds_inv_def map_of_eq_None_iff)
  obtain ep epf where ne: "runtime_NewEndpoint md (ds_epf ds) = (Some ep, epf)" "GetMetadata ep = Some md"
    "rt_pollers epf = rt_pollers (ds_epf ds)" "rt_start_ok epf = rt_start_ok (ds_epf ds)"
    "rt_pollers (ds_epf ds) > 0 \<longrightarrow> set (rt_collectors epf) = insert ?k (set (rt_collectors (ds_epf ds)))"
    using assms(2) new
    by (cases "rt_pollers (ds_epf ds) = 0")
      (simp_all add: runtime_NewEndpoint_def Let_def startable_def dl_NewEndpoint_def dispatchEndpointEvent_def)
  define ds' where "ds' = ds\<lparr>ds_pods := AList.update ?k (ep\<lparr>GetMetadata := Some md\<rparr>) (ds_pods ds), ds_epf := epf\<rparr>"
  have "ds_inv ds'"
    unfolding ds'_def by (rule ds_inv_update [OF assms(1), of md]) (use ne(3,5) in simp_all)
  moreover have "same_env ds ds'" using ne(3,4) by (simp add: same_env_def ds'_def)
  moreover have "meta_of ds' = (meta_of ds)(?k \<mapsto> md)" by (auto simp: meta_of_def ds'_def update_conv')
  moreover have "snd (store_endpoint md (b, ds)) = ds'"
    by (simp add: store_endpoint_def Let_def None ne(1) ds'_def)
  ultimately show ?thesis by simp
qed

lemma fold_store_endpoint:
  assumes "ds_inv ds" "startable ds"
  shows "ds_inv (snd (fold store_endpoint mds (b, ds))) \<and> same_env ds (snd (fold store_endpoint mds (b, ds))) \<and>
    meta_of (snd (fold store_endpoint mds (b, ds))) = fold (\<lambda>md m. m(md_NamespacedName md \<mapsto> md)) mds (meta_of ds)"
  using assms
proof (induction mds arbitrary: b ds)
  case (Cons md mds)
  obtain b1 ds1 where se: "store_endpoint md (b, ds) = (b1, ds1)" by (cases "store_endpoint md (b, ds)")
  have d1: "ds_inv ds1" "same_env ds ds1" "meta_of ds1 = (meta_of ds)(md_NamespacedName md \<mapsto> md)"
    using store_endpoint_spec [OF Cons.prems, of md b] by (simp_all add: se)
  then show ?case
    using Cons.IH [OF d1(1), of b1] Cons.prems(2) startable_same_env [OF d1(2)] same_env_trans [OF d1(2)] by (simp add: se)
qed simp

lemma drop_inactive_spec:
  assumes "ds_inv ds"
  shows "\<exists>ds'. drop_inactive p active ips ds = Some ds' \<and> ds_inv ds' \<and> same_env ds ds' \<and>
    meta_of ds' = (\<lambda>k. if k \<in> createEndpointNamespacedName p ` fst ` {ip \<in> set ips. snd ip \<notin> set active} then None else meta_of ds k)"
  using assms
proof (induction p active ips ds rule: drop_inactive.induct)
  case (1 p active ds)
  then show ?case by simp
next
  case (2 p active idx port ips ds)
  let ?nn = "createEndpointNamespacedName p idx"
  have set_eq: "{ip \<in> set ((idx, port) # ips). snd ip \<notin> set active} =
    (if port \<in> set active then {} else {(idx, port)}) \<union> {ip \<in> set ips. snd ip \<notin> set active}" by auto
  consider (active) "port \<in> set active" | (absent) "port \<notin> set active" "map_of (ds_pods ds) ?nn = None"
    | (there) ep where "port \<notin> set active" "map_of (ds_pods ds) ?nn = Some ep" by fastforce
  then show ?case
  proof cases
    case active
    then show ?thesis using 2 unfolding set_eq by simp
  next
    case absent
    then have "meta_of ds ?nn = None" by (simp add: meta_of_def)
    moreover obtain ds' where "drop_inactive p active ips ds = Some ds'" "ds_inv ds'" "same_env ds ds'"
      "meta_of ds' = (\<lambda>k. if k \<in> createEndpointNamespacedName p ` fst ` {ip \<in> set ips. snd ip \<notin> set active} then None else meta_of ds k)"
      using 2(2) [OF absent(1) refl absent(2)] 2(4) by blast
    ultimately show ?thesis using absent unfolding set_eq by (intro exI [of _ ds']) (auto simp: fun_eq_iff)
  next
    case (there ep)
    obtain epf where rel: "runtime_ReleaseEndpoint ep (ds_epf ds) = Some epf"
      and d: "let ds' = ds\<lparr>ds_pods := AList.delete ?nn (ds_pods ds), ds_epf := epf\<rparr>
        in ds_inv ds' \<and> same_env ds ds' \<and> meta_of ds' = (meta_of ds)(?nn := None)"
      using release_endpoint [OF 2(4) there(2)] by blast
    define ds1 where "ds1 = ds\<lparr>ds_pods := AList.delete ?nn (ds_pods ds), ds_epf := epf\<rparr>"
    have d1: "ds_inv ds1" "same_env ds ds1" "meta_of ds1 = (meta_of ds)(?nn := None)"
      using d by (simp_all add: Let_def ds1_def)
    obtain ds' where ds': "drop_inactive p active ips ds1 = Some ds'" "ds_inv ds'" "same_env ds1 ds'"
      "meta_of ds' = (\<lambda>k. if k \<in> createEndpointNamespacedName p ` fst ` {ip \<in> set ips. snd ip \<notin> set active} then None else meta_of ds1 k)"
      using 2(3) [OF there(1) refl there(2) rel, folded ds1_def] d1(1) by blast
    have "drop_inactive p active ((idx, port) # ips) ds = Some ds'"
      using there rel ds'(1) by (simp add: Let_def ds1_def)
    moreover have "meta_of ds' = (\<lambda>k. if k \<in> createEndpointNamespacedName p ` fst ` {ip \<in> set ((idx, port) # ips). snd ip \<notin> set active} then None else meta_of ds k)"
      unfolding ds'(4) d1(3) set_eq using there(1) by (auto simp: fun_eq_iff)
    ultimately show ?thesis using ds'(2) same_env_trans [OF d1(2) ds'(3)] by blast
  qed
qed

subsection \<open>One pod\<close>

text \<open>
  The names that belong to a pod, and the endpoints it should have: one for each target port of
  the pool that is active on the pod.
\<close>

definition owned :: "endpoint_pool \<Rightarrow> pod \<Rightarrow> namespaced_name set" where
  "owned pool p = createEndpointNamespacedName p ` {..<length (pool_TargetPorts pool)}"

definition active_ranks :: "endpoint_pool \<Rightarrow> pod \<Rightarrow> (nat \<times> int) list" where
  "active_ranks pool p =
     filter (\<lambda>(idx, port). port \<in> set (extractActivePorts p (pool_TargetPorts pool))) (enumerate 0 (pool_TargetPorts pool))"

definition expected :: "datastore \<Rightarrow> endpoint_pool \<Rightarrow> pod \<Rightarrow> namespaced_name \<Rightarrow> endpoint_metadata option" where
  "expected ds pool p =
     map_of (map (\<lambda>ip. (createEndpointNamespacedName p (fst ip), rank_metadata ds pool p ip)) (active_ranks pool p))"

lemma expected_None:
  "expected ds pool p k = None \<longleftrightarrow> \<not> (\<exists>idx < length (pool_TargetPorts pool). k = createEndpointNamespacedName p idx \<and>
     pool_TargetPorts pool ! idx \<in> set (extractActivePorts p (pool_TargetPorts pool)))"
  by (force simp: expected_def active_ranks_def map_of_eq_None_iff in_set_enumerate_eq)

lemma expected_not_owned: "k \<notin> owned pool p \<Longrightarrow> expected ds pool p k = None"
  by (auto simp: expected_None owned_def)

lemma expected_env: "same_env ds ds' \<Longrightarrow> expected ds' pool p = expected ds pool p"
  by (simp add: expected_def rank_metadata_def same_env_def)

lemma rank_metadata_name [simp]: "md_NamespacedName (rank_metadata ds pool p ip) = createEndpointNamespacedName p (fst ip)"
  by (simp add: rank_metadata_def Let_def split_def)

lemma fold_updates:
  "distinct (map g xs) \<Longrightarrow>
   fold (\<lambda>x m. m(g x \<mapsto> h x)) xs m k = (case map_of (map (\<lambda>x. (g x, h x)) xs) k of None \<Rightarrow> m k | Some v \<Rightarrow> Some v)"
proof (induction xs arbitrary: m)
  case (Cons x xs)
  have "map_of (map (\<lambda>x. (g x, h x)) xs) (g x) = None" using Cons.prems by (auto simp: map_of_eq_None_iff)
  then show ?case using Cons by (auto split: option.splits)
qed simp

lemma podUpdate_spec:
  assumes "ds_inv ds" "startable ds"
  shows "\<exists>b ds'. podUpdateOrAddIfNotExist p (Some pool) ds = Some (b, ds') \<and> ds_inv ds' \<and> same_env ds ds' \<and>
    meta_of ds' = (\<lambda>k. if k \<in> owned pool p then expected ds pool p k else meta_of ds k)"
proof -
  define ports where "ports = pool_TargetPorts pool"
  define active where "active = extractActivePorts p ports"
  define mds where "mds = map (rank_metadata ds pool p) (active_ranks pool p)"
  obtain b ds1 where f: "fold store_endpoint mds (True, ds) = (b, ds1)" by (cases "fold store_endpoint mds (True, ds)")
  have d1: "ds_inv ds1" "same_env ds ds1" "meta_of ds1 = fold (\<lambda>md m. m(md_NamespacedName md \<mapsto> md)) mds (meta_of ds)"
    using fold_store_endpoint [OF assms, of mds True] by (simp_all add: f)
  obtain ds' where ds': "drop_inactive p active (enumerate 0 ports) ds1 = Some ds'" "ds_inv ds'" "same_env ds1 ds'"
    "meta_of ds' = (\<lambda>k. if k \<in> createEndpointNamespacedName p ` fst ` {ip \<in> set (enumerate 0 ports). snd ip \<notin> set active}
       then None else meta_of ds1 k)"
    using drop_inactive_spec [OF d1(1)] by blast
  have idle: "fst ` {ip \<in> set (enumerate 0 ports). snd ip \<notin> set active} = {i. i < length ports \<and> ports ! i \<notin> set active}"
    by (force simp: in_set_enumerate_eq image_iff)
  have dist: "distinct (map (\<lambda>ip. createEndpointNamespacedName p (fst ip)) (active_ranks pool p))"
    unfolding active_ranks_def distinct_map
    by (auto simp: inj_on_def in_set_enumerate_eq distinct_enumerate dest: endpoint_name_inj)
  have m1: "meta_of ds1 k = (case expected ds pool p k of None \<Rightarrow> meta_of ds k | Some v \<Rightarrow> Some v)" for k
    unfolding d1(3) mds_def fold_map o_def rank_metadata_name expected_def by (rule fold_updates [OF dist])
  have "meta_of ds' k = (if k \<in> owned pool p then expected ds pool p k else meta_of ds k)" for k
  proof (cases "k \<in> owned pool p")
    case True
    then obtain idx where idx: "idx < length ports" "k = createEndpointNamespacedName p idx"
      by (auto simp: owned_def ports_def)
    have "k \<in> createEndpointNamespacedName p ` {i. i < length ports \<and> ports ! i \<notin> set active} \<longleftrightarrow> ports ! idx \<notin> set active"
      using idx by (auto dest: endpoint_name_inj)
    moreover have "expected ds pool p k = None \<longleftrightarrow> ports ! idx \<notin> set active"
      using idx unfolding expected_None active_def ports_def by (auto dest: endpoint_name_inj)
    ultimately show ?thesis using True unfolding ds'(4) idle m1 by (auto split: option.splits)
  next
    case False
    then have "k \<notin> createEndpointNamespacedName p ` {i. i < length ports \<and> ports ! i \<notin> set active}"
      by (auto simp: owned_def ports_def)
    then show ?thesis using False expected_not_owned [OF False] unfolding ds'(4) idle m1 by simp
  qed
  moreover have "podUpdateOrAddIfNotExist p (Some pool) ds = Some (b, ds')"
    using f ds'(1) by (simp add: podUpdateOrAddIfNotExist_def Let_def mds_def active_ranks_def active_def ports_def)
  ultimately show ?thesis using ds'(2) same_env_trans [OF d1(2) ds'(3)] by blast
qed

subsection \<open>All pods\<close>

definition pod_key :: "pod \<Rightarrow> string \<times> string" where
  "pod_key p = (pd_Name p, pd_Namespace p)"

definition owner :: "endpoint_pool \<Rightarrow> pod list \<Rightarrow> namespaced_name \<Rightarrow> pod option" where
  "owner pool items k = find (\<lambda>p. k \<in> owned pool p) (filter IsPodReady items)"

definition expected_endpoints ::
  "datastore \<Rightarrow> endpoint_pool \<Rightarrow> pod list \<Rightarrow> namespaced_name \<Rightarrow> endpoint_metadata option" where
  "expected_endpoints ds pool items k =
     (case owner pool items k of None \<Rightarrow> None | Some p \<Rightarrow> expected ds pool p k)"

lemma owned_disjoint: "pod_key p \<noteq> pod_key q \<Longrightarrow> owned pool p \<inter> owned pool q = {}"
  by (auto simp: owned_def pod_key_def dest: endpoint_name_inj)

lemma resync_pods_spec:
  assumes "ds_inv ds" "startable ds" "distinct (map pod_key items)"
  shows "\<exists>ds'. resync_pods pool items ds = Some ds' \<and> ds_inv ds' \<and> same_env ds ds' \<and>
    meta_of ds' = (\<lambda>k. case owner pool items k of None \<Rightarrow> meta_of ds k | Some p \<Rightarrow> expected ds pool p k)"
  using assms
proof (induction items arbitrary: ds)
  case Nil
  then show ?case by (simp add: owner_def)
next
  case (Cons p items)
  show ?case
  proof (cases "IsPodReady p")
    case False
    then show ?thesis using Cons by (simp add: owner_def)
  next
    case True
    obtain b ds1 where d1: "podUpdateOrAddIfNotExist p (Some pool) ds = Some (b, ds1)" "ds_inv ds1" "same_env ds ds1"
      "meta_of ds1 = (\<lambda>k. if k \<in> owned pool p then expected ds pool p k else meta_of ds k)"
      using podUpdate_spec [OF Cons.prems(1,2)] by blast
    obtain ds' where ds': "resync_pods pool items ds1 = Some ds'" "ds_inv ds'" "same_env ds1 ds'"
      "meta_of ds' = (\<lambda>k. case owner pool items k of None \<Rightarrow> meta_of ds1 k | Some p \<Rightarrow> expected ds1 pool p k)"
      using Cons.IH [OF d1(2)] Cons.prems startable_same_env [OF d1(3)] by auto
    have "owner pool items k = None" if "k \<in> owned pool p" for k
      using that Cons.prems(3) owned_disjoint [of p _ pool] by (auto simp: owner_def find_None_iff image_iff)
    then have "meta_of ds' = (\<lambda>k. case owner pool (p # items) k of None \<Rightarrow> meta_of ds k | Some p \<Rightarrow> expected ds pool p k)"
      using True unfolding ds'(4) d1(4) expected_env [OF d1(3)]
      by (intro ext) (auto simp: owner_def split: option.splits)
    moreover have "resync_pods pool (p # items) ds = Some ds'" using True d1(1) ds'(1) by simp
    ultimately show ?thesis using ds'(2) same_env_trans [OF d1(3) ds'(3)] by blast
  qed
qed

lemma activeEndpoints_owner: "k \<in> set (activeEndpoints pool items) \<longleftrightarrow> owner pool items k \<noteq> None"
  by (auto simp: activeEndpoints_def owner_def find_None_iff owned_def)

lemma podResyncAll_spec:
  assumes "ds_inv ds" "startable ds" "distinct (map pod_key items)"
    and "reader (pool_Selector pool) (pool_Namespace pool) = Inr items"
  shows "\<exists>ds'. podResyncAll reader pool ds = Some (Inr ds') \<and> ds_inv ds' \<and> same_env ds ds' \<and>
    meta_of ds' = expected_endpoints ds pool items"
proof -
  obtain ds1 where d1: "resync_pods pool items ds = Some ds1" "ds_inv ds1" "same_env ds ds1"
    "meta_of ds1 = (\<lambda>k. case owner pool items k of None \<Rightarrow> meta_of ds k | Some p \<Rightarrow> expected ds pool p k)"
    using resync_pods_spec [OF assms(1-3)] by blast
  obtain ds' where ds': "remove_where (\<lambda>md. md_NamespacedName md \<notin> set (activeEndpoints pool items)) (ds_pods ds1) ds1 = Some ds'"
    "ds_inv ds'" "same_env ds1 ds'"
    "meta_of ds' = (\<lambda>k. case meta_of ds1 k of None \<Rightarrow> None
       | Some md \<Rightarrow> if md_NamespacedName md \<notin> set (activeEndpoints pool items) then None else Some md)"
    using remove_where_all [OF d1(2)] by blast
  have "meta_of ds' k = expected_endpoints ds pool items k" for k
    using meta_of_Some [OF d1(2), of k] unfolding ds'(4) activeEndpoints_owner
    by (auto simp: d1(4) expected_endpoints_def split: option.splits)
  then show ?thesis
    using d1(1) ds' same_env_trans [OF d1(3) ds'(3)] assms(4) by (auto simp: podResyncAll_def)
qed

text \<open>
  C34: A change of the pool synchronizes the endpoints. When \<open>PoolSet\<close> gets a first pool, or one
  with another selector or other ports, and the pods can be listed, the store afterwards has
  exactly one endpoint for each ready pod and each target port that is active on it, under the
  name of the pod and its rank and with the pod's address, port and labels; everything else is
  gone, and data is collected for exactly these endpoints.
\<close>

theorem PoolSet_syncs_endpoints:
  assumes "ds_inv ds" "startable ds" "distinct (map pod_key items)"
    and "reader (pool_Selector pool) (pool_Namespace pool) = Inr items"
    and "case ds_pool ds of None \<Rightarrow> True
         | Some old \<Rightarrow> \<not> labels_Equals (pool_Selector old) (pool_Selector pool) \<or> pool_TargetPorts old \<noteq> pool_TargetPorts pool"
  shows "\<exists>ds'. PoolSet labels_Equals reader (Some pool) ds = Some (None, ds') \<and> ds_inv ds' \<and> PoolGet ds' = Inr pool \<and>
    meta_of ds' = expected_endpoints ds pool items \<and>
    (rt_pollers (ds_epf ds) > 0 \<longrightarrow> set (rt_collectors (ds_epf ds')) = dom (expected_endpoints ds pool items))"
proof -
  define ds1 where "ds1 = ds\<lparr>ds_pool := Some pool\<rparr>"
  have inv1: "ds_inv ds1" "startable ds1" using assms(1,2) by (simp_all add: ds1_def ds_inv_def startable_def)
  have ex: "expected_endpoints ds1 pool items = expected_endpoints ds pool items"
    by (simp add: fun_eq_iff expected_endpoints_def expected_def rank_metadata_def ds1_def split: option.split)
  obtain ds' where ds': "podResyncAll reader pool ds1 = Some (Inr ds')" "ds_inv ds'" "same_env ds1 ds'"
    "meta_of ds' = expected_endpoints ds pool items"
    using podResyncAll_spec [of ds1 items reader pool] inv1 assms(3,4) unfolding ex by blast
  have "PoolSet labels_Equals reader (Some pool) ds = Some (None, ds')"
    using assms(5) ds'(1) by (cases "ds_pool ds") (auto simp: PoolSet_def Let_def simp flip: ds1_def)
  moreover have "PoolGet ds' = Inr pool" "rt_pollers (ds_epf ds') = rt_pollers (ds_epf ds)"
    using ds'(3) by (simp_all add: PoolGet_def same_env_def ds1_def)
  ultimately show ?thesis using ds'(2,4) collectors_match [OF ds'(2)] by auto
qed

lemma PodDelete_spec:
  assumes "ds_inv ds"
  shows "\<exists>ds'. PodDelete name ds = Some ds' \<and> ds_inv ds' \<and> same_env ds ds' \<and>
    meta_of ds' = (\<lambda>k. case meta_of ds k of None \<Rightarrow> None | Some md \<Rightarrow> if md_PodName md = name then None else Some md)"
  using remove_where_all [OF assms] unfolding PodDelete_def .

text \<open>
  C35: A pod event brings the store in line with the pod. Once there is a pool, the reconciler
  replaces the endpoints of a ready pod that matches the selector by one endpoint for each
  active port and leaves the endpoints of all other pods alone; for a pod that is gone, not
  ready or does not match it removes the endpoints of that pod name and no others. It never
  panics, and collectors run for exactly the endpoints that are left.
\<close>

theorem pod_Reconcile_exact:
  assumes "ds_inv ds" "startable ds" "ds_pool ds = Some pool" "fetch = Found p \<and> pd_Name p = name \<or> fetch = NotFound"
  shows "\<exists>ds'. pod_Reconcile selector_Matches name fetch ds = Some (None, ds') \<and> ds_inv ds' \<and> ds_pool ds' = Some pool \<and>
    meta_of ds' = (if fetch = Found p \<and> IsPodReady p \<and> selector_Matches (pool_Selector pool) (pd_Labels p)
      then (\<lambda>k. if k \<in> owned pool p then expected ds pool p k else meta_of ds k)
      else (\<lambda>k. case meta_of ds k of None \<Rightarrow> None | Some md \<Rightarrow> if md_PodName md = name then None else Some md))"
proof -
  obtain ds1 where d1: "PodDelete name ds = Some ds1" "ds_inv ds1" "same_env ds ds1"
    "meta_of ds1 = (\<lambda>k. case meta_of ds k of None \<Rightarrow> None | Some md \<Rightarrow> if md_PodName md = name then None else Some md)"
    using PodDelete_spec [OF assms(1)] by blast
  obtain b ds2 where d2: "podUpdateOrAddIfNotExist p (Some pool) ds = Some (b, ds2)" "ds_inv ds2" "same_env ds ds2"
    "meta_of ds2 = (\<lambda>k. if k \<in> owned pool p then expected ds pool p k else meta_of ds k)"
    using podUpdate_spec [OF assms(1,2)] by blast
  have pools: "ds_pool ds1 = Some pool" "ds_pool ds2 = Some pool" using d1(3) d2(3) assms(3) by (simp_all add: same_env_def)
  show ?thesis
  proof (cases "fetch = Found p \<and> IsPodReady p \<and> selector_Matches (pool_Selector pool) (pd_Labels p)")
    case True
    then have "pod_Reconcile selector_Matches name fetch ds = Some (None, ds2)"
      using assms(3,4) d2(1) by (simp add: pod_Reconcile_def PoolHasSynced_def updateDatastore_def PoolLabelsMatch_def PodUpdateOrAddIfNotExist_def)
    then show ?thesis using True d2 pools by simp
  next
    case False
    then have "pod_Reconcile selector_Matches name fetch ds = Some (None, ds1)"
      using assms(3,4) d1(1) by (auto simp: pod_Reconcile_def PoolHasSynced_def updateDatastore_def PoolLabelsMatch_def)
    then show ?thesis using False d1 pools by auto
  qed
qed

definition sample_pool :: endpoint_pool where
  "sample_pool = \<lparr>pool_Selector = [(''app'', ''llm'')], pool_TargetPorts = [8000, 8001], pool_Namespace = ''n'', pool_Name = ''pool''\<rparr>"

definition sample_pod :: "string \<Rightarrow> string \<Rightarrow> pod" where
  "sample_pod name ports = \<lparr>pd_Name = name, pd_Namespace = ''n'', pd_PodIP = ''10.0.0.1'', pd_Labels = [(''app'', ''llm'')],
     pd_Annotations = [(activePortsAnnotation, ports)], pd_Deleting = False, pd_Conditions = [(''Ready'', ''True'')]\<rparr>"

definition sample_store :: datastore where
  "sample_store = NewDatastore \<lparr>rt_pollers = 1, rt_collectors = [], rt_events = [], rt_next = 0, rt_start_ok = (\<lambda>_. True)\<rparr> 0"

lemma sample_store_ok: "ds_inv sample_store" "startable sample_store" "ds_pool sample_store = None"
  by (simp_all add: sample_store_def NewDatastore_def ds_inv_def startable_def)

abbreviation sample_pods :: "pod list" where
  "sample_pods \<equiv> [sample_pod ''a'' ''8001'', sample_pod ''b'' ''9'']"

lemma sample_active:
  "extractActivePorts (sample_pod ''a'' ''8001'') (pool_TargetPorts sample_pool) = [8001]"
  "extractActivePorts (sample_pod ''b'' ''9'') (pool_TargetPorts sample_pool) = []"
  by code_simp+

lemma sample_ready: "IsPodReady (sample_pod name ports)"
  by (simp add: IsPodReady_def sample_pod_def)

lemma sample_pool_ports: "pool_TargetPorts sample_pool = [8000, 8001]"
  by (simp add: sample_pool_def)

lemma sample_owned: "createEndpointNamespacedName (sample_pod n ports) i \<in> owned sample_pool (sample_pod n' ports') \<longleftrightarrow> n = n' \<and> i < 2"
  by (auto simp: owned_def sample_pool_ports sample_pod_def createEndpointNamespacedName_def dest!: endpoint_name_inj
      [unfolded createEndpointNamespacedName_def, of "sample_pod n ports" i "sample_pod n' ports'", unfolded sample_pod_def, simplified])

lemma sample_expected:
  "expected ds sample_pool (sample_pod ''a'' ''8001'') (createEndpointNamespacedName (sample_pod ''a'' ''8001'') 1) \<noteq> None"
  "expected ds sample_pool (sample_pod ''b'' ''9'') k = None"
  unfolding expected_None sample_active by (auto simp: sample_pool_ports intro: exI [of _ "1 :: nat"])

theorem PoolSet_syncs_endpoints_witness:
  "\<exists>ds'. PoolSet (=) (\<lambda>_ _. Inr sample_pods) (Some sample_pool) sample_store = Some (None, ds') \<and>
     meta_of ds' (createEndpointNamespacedName (sample_pod ''a'' ''8001'') 1) \<noteq> None \<and>
     meta_of ds' (createEndpointNamespacedName (sample_pod ''b'' ''9'') 0) = None"
proof -
  have "distinct (map pod_key sample_pods)" by (simp add: pod_key_def sample_pod_def)
  moreover have "expected_endpoints sample_store sample_pool sample_pods (createEndpointNamespacedName (sample_pod ''a'' ''8001'') 1) \<noteq> None"
    "expected_endpoints sample_store sample_pool sample_pods (createEndpointNamespacedName (sample_pod ''b'' ''9'') 0) = None"
    using sample_expected by (simp_all add: expected_endpoints_def owner_def sample_ready sample_owned)
  ultimately show ?thesis
    using PoolSet_syncs_endpoints [of sample_store sample_pods "\<lambda>_ _. Inr sample_pods" sample_pool "(=)"]
      sample_store_ok by auto
qed

theorem pod_Reconcile_exact_witness:
  "\<exists>ds'. pod_Reconcile (=) ''a'' (Found (sample_pod ''a'' ''8001'')) (sample_store\<lparr>ds_pool := Some sample_pool\<rparr>) = Some (None, ds') \<and>
     meta_of ds' (createEndpointNamespacedName (sample_pod ''a'' ''8001'') 1) \<noteq> None"
proof -
  let ?ds = "sample_store\<lparr>ds_pool := Some sample_pool\<rparr>"
  have "ds_inv ?ds" "startable ?ds" using sample_store_ok by (simp_all add: ds_inv_def startable_def)
  moreover have "pool_Selector sample_pool = pd_Labels (sample_pod ''a'' ''8001'')" "pd_Name (sample_pod ''a'' ''8001'') = ''a''"
    by (simp_all add: sample_pool_def sample_pod_def)
  ultimately show ?thesis
    using pod_Reconcile_exact [of ?ds sample_pool "Found (sample_pod ''a'' ''8001'')" "sample_pod ''a'' ''8001''" "''a''" "(=)"]
      sample_expected(1) sample_ready sample_owned by auto
qed

text \<open>
  A failed synchronization is not repeated: \<open>PoolSet\<close> stores the new pool before it lists the
  pods, so the retry of the reconciler finds the pool unchanged, does not list the pods and
  reports success with the endpoints it had before.
\<close>

theorem PoolSet_retry_skips_sync:
  assumes "\<And>sel. labels_Equals sel sel"
    and "PoolSet labels_Equals reader (Some pool) ds = Some (Some err, ds1)"
  shows "PoolSet labels_Equals reader' (Some pool) ds1 = Some (None, ds1) \<and> ds_pods ds1 = ds_pods ds"
  using assms by (auto simp: PoolSet_def Let_def split: if_splits option.splits sum.splits)

text \<open>A data layer without polling sources reports the end of an endpoint, but not its start.\<close>

lemma no_add_event_without_pollers:
  "\<lbrakk>rt_pollers r = 0; runtime_NewEndpoint md r = (Some ep, r1); runtime_ReleaseEndpoint ep r1 = Some r2\<rbrakk> \<Longrightarrow>
   rt_events r2 = rt_events r @ [(EventDelete, ep)]"
  by (auto simp: runtime_NewEndpoint_def Let_def runtime_ReleaseEndpoint_def dispatchEndpointEvent_def split: option.splits)

end
