(* ===== verification/Director_Props.thy ===== *)
theory Director_Props
  imports Director Ext_Proc_Props Datastore_Props
begin

text \<open>
  The director provides what the external processing server relies on: \<open>director_contract\<close> is
  interpreted on it, and the properties of a stream follow for the composition of both. Then
  come the routing of a request and the errors it may end with.
\<close>

subsection \<open>The director keeps the contract\<close>

fun is_completion :: "hook_run \<Rightarrow> bool" where
  "is_completion (ResponseBodyRun eos _) = eos"
| "is_completion _ = False"

definition completion_runs :: "'a director_state \<Rightarrow> nat" where
  "completion_runs d = length (filter is_completion (dr_runs d))"

lemma Intn_runs: "Intn n d = (i, d') \<Longrightarrow> dr_runs d' = dr_runs d"
  by (auto simp: Intn_def split: list.splits)

lemma selectWeightedModel_runs: "selectWeightedModel ms d = Some (m, d') \<Longrightarrow> dr_runs d' = dr_runs d"
  by (auto simp: selectWeightedModel_def Let_def split: if_splits prod.splits dest: Intn_runs)

lemma applyWeightedModelRewrite_eff:
  "applyWeightedModelRewrite rc d = Some (rc', d') \<Longrightarrow>
   proto rc' = proto rc \<and> dr_runs d' = dr_runs d \<and> rc_Request rc' = rc_Request rc"
  by (auto simp: applyWeightedModelRewrite_def split: option.splits dest: selectWeightedModel_runs)

lemma mutateModel_eff:
  "mutateModel rc m d = (out, rc', m', d') \<Longrightarrow>
   proto rc' = proto rc \<and> dr_runs d' = dr_runs d \<and> rc_Request rc' = rc_Request rc"
  by (auto simp: mutateModel_def Let_def split: option.splits go_any.splits if_splits dest!: applyWeightedModelRewrite_eff)

lemma mutateAndRepackage_eff:
  "mutateAndRepackage dir rc m d = (out, rc', m', d') \<Longrightarrow>
   proto rc' = proto rc \<and> dr_runs d' = dr_runs d \<and> rq_Metadata (rc_Request rc') = rq_Metadata (rc_Request rc)"
  by (auto simp: mutateAndRepackage_def split: prod.splits handle_outcome.splits option.splits dest!: mutateModel_eff)

lemma processRequestBody_eff:
  "processRequestBody dir rc d = (out, rc', b, d') \<Longrightarrow>
   proto rc' = proto rc \<and> dr_runs d' = dr_runs d \<and> rq_Metadata (rc_Request rc') = rq_Metadata (rc_Request rc)"
  by (auto simp: processRequestBody_def Let_def
      split: sum.splits option.splits request_payload.splits prod.splits handle_outcome.splits dest!: mutateAndRepackage_eff)

lemma getInferenceObjective_eff: "getInferenceObjective rc d = (p, d') \<Longrightarrow> dr_runs d' = dr_runs d"
  by (auto simp: getInferenceObjective_def split: option.splits)

lemma prepareRequest_eff:
  "prepareRequest dir r rc d = (out, rc', d') \<Longrightarrow> proto rc' = proto rc \<and> completion_runs d' = completion_runs d"
  by (auto simp: prepareRequest_def runPreRequestPlugins_def Let_def completion_runs_def
      split: if_splits option.splits list.splits)

lemma routeRequest_eff:
  "routeRequest dir rc req d = (out, rc', d') \<Longrightarrow> proto rc' = proto rc \<and> completion_runs d' = completion_runs d"
  by (auto simp: routeRequest_def Let_def completion_runs_def [of "d\<lparr>dr_env := e\<rparr>" for e]
      split: prod.splits if_splits option.splits sum.splits dest!: prepareRequest_eff) (simp_all add: completion_runs_def)

lemma HandleRequest_eff:
  assumes "HandleRequest dir rc d = (out, rc', d')"
  shows "proto rc' = proto rc \<and> completion_runs d' = completion_runs d"
proof -
  obtain out1 rc1 b d1 where p: "processRequestBody dir rc d = (out1, rc1, b, d1)" by (metis surj_pair)
  have e1: "proto rc1 = proto rc" "completion_runs d1 = completion_runs d"
    using processRequestBody_eff [OF p] by (simp_all add: completion_runs_def)
  obtain prio d2 where o: "getInferenceObjective rc1 d1 = (prio, d2)" by fastforce
  have e2: "completion_runs d2 = completion_runs d1" using getInferenceObjective_eff [OF o] by (simp add: completion_runs_def)
  show ?thesis
    using assms e1 e2
    by (auto simp: HandleRequest_def p o Let_def split: handle_outcome.splits prod.splits dest!: routeRequest_eff)
      (simp_all add: completion_runs_def)
qed

interpretation directed: director_contract "NewStreamingServer dir parse trace" completion_runs for dir parse trace
proof unfold_locales
  fix rc d out rc' d'
  assume "do_HandleRequest (ss_director (NewStreamingServer dir parse trace)) rc d = (out, rc', d')"
  then show "proto rc' = proto rc \<and> completion_runs d' = completion_runs d"
    by (intro HandleRequest_eff) (simp add: NewStreamingServer_def director_interface_def)
next
  fix rc rc' and d d' :: "'a director_state"
  assume "do_HandleResponseHeader (ss_director (NewStreamingServer dir parse trace)) rc d = (rc', d')"
  then show "proto rc' = proto rc \<and> rc_TargetPod rc' = rc_TargetPod rc \<and> completion_runs d' = completion_runs d"
    by (auto simp: NewStreamingServer_def director_interface_def HandleResponseHeader_def completion_runs_def)
next
  fix eos rc rc' and d d' :: "'a director_state"
  assume "do_HandleResponseBody (ss_director (NewStreamingServer dir parse trace)) eos rc d = (rc', d')"
  then show "proto rc' = proto rc \<and> rc_TargetPod rc' = rc_TargetPod rc \<and>
      rc_TargetModelName rc' = rc_TargetModelName rc \<and> rc_IncomingModelName rc' = rc_IncomingModelName rc \<and>
      completion_runs d' = completion_runs d + (if eos then 1 else 0)"
    by (auto simp: NewStreamingServer_def director_interface_def HandleResponseBody_def Let_def completion_runs_def)
next
  fix ep and d d' :: "'a director_state"
  assume "do_GetRandomEndpoint (ss_director (NewStreamingServer dir parse trace)) d = (ep, d')"
  then show "completion_runs d' = completion_runs d"
    by (auto simp: NewStreamingServer_def director_interface_def GetRandomEndpoint_def Let_def completion_runs_def
        split: if_splits prod.splits dest!: Intn_runs)
qed

subsection \<open>Streams\<close>

definition sample_director :: "unit director" where
  "sample_director = \<lparr>dir_ParseRequest = (\<lambda>body hs. Inr \<lparr>lb_Completions = None, lb_ChatCompletions = None, lb_Responses = None,
       lb_Conversations = None, lb_Embeddings = None, lb_Payload = Some (RawPayload body), lb_Stream = False\<rparr>),
     dir_Marshal = (\<lambda>_. None), dir_Admit = (\<lambda>_ _ env. (HandledOk, env)),
     dir_Locate = (\<lambda>md env. (Locate (NewDatastoreEndpointCandidates []) (fst env) md, env)),
     dir_Schedule = (\<lambda>req eps. the (Schedule \<lparr>sch_profileHandler = SingleProfileHandler,
       sch_profiles = [(''p'', profile_Run (WithPicker (random_Pick 1 id) NewSchedulerProfile) id)]\<rparr> req eps)),
     dir_plugins = rc_NewConfig\<rparr>"

definition sample_state :: "(namespaced_name \<times> endpoint) list \<Rightarrow> unit director_state" where
  "sample_state pods = \<lparr>dr_env = (empty_store\<lparr>ds_pods := pods\<rparr>, ()), dr_draws = [], dr_next = 0, dr_prepare = PrepareReturns, dr_runs = []\<rparr>"

definition sample_server :: "unit director_state streaming_server" where
  "sample_server = NewStreamingServer sample_director (\<lambda>_ _ _. Inr None) []"

text \<open>
  C37: The replies of a stream come in the order of the protocol, whatever the proxy sends and
  whatever fails: request headers, request body, response headers, response body, response
  trailers. Headers are sent at most once in each direction, the chunks of a body follow each
  other, and an immediate response is the last message and the only one of its kind. The proxy
  sends the response headers at most once.
\<close>

theorem stream_replies_in_order:
  assumes "length (filter is_response_headers evs) \<le> 1" "Process (NewStreamingServer dir parse trace) evs sends d = (res, st')"
  shows "in_order (io_sent (sv_io st'))"
  using directed.Process_in_order [OF assms] .

theorem stream_replies_in_order_witness:
  "in_order (io_sent (sv_io (snd (Process sample_server
     [Recv 0 ''id'' [] (ResponseHeaders []), Recv 1 ''id'' [] (ResponseBody ''x'' True), RecvEOF] [] (sample_state [])))))"
  unfolding sample_server_def by (rule stream_replies_in_order [OF _ prod.collapse [symmetric]]) simp

text \<open>
  C38: The completion hooks run exactly once. When a stream has ended, in whatever way (also
  after an error, a lost client or a panic of the request handler), the response body plugins
  have been called with the end of the stream exactly once if the request was scheduled or its
  response was completed, and never otherwise. The proxy ends the response body at most once.
\<close>

theorem completion_hooks_once:
  assumes "end_once evs" "Process (NewStreamingServer dir parse trace) evs sends d = (Some r, st')"
  shows "completion_runs (sv_dir st') =
    completion_runs d + (if rc_TargetPod (sv_ctx st') \<noteq> None \<or> rc_ResponseComplete (sv_ctx st') then 1 else 0)"
  using directed.Process_completes [OF assms] .

lemma sample_stream_ends:
  "fst (Process sample_server [Recv 0 ''id'' [] (ResponseBody ''x'' True), RecvEOF] [] (sample_state [])) = Some ReturnNil"
  "rc_ResponseComplete (sv_ctx (snd (Process sample_server [Recv 0 ''id'' [] (ResponseBody ''x'' True), RecvEOF] [] (sample_state []))))"
  by (simp_all add: Process_def process_step_def process_message_def finishResponse_def server_HandleResponseBody_def
      new_request_context_def Let_def sample_server_def NewStreamingServer_def director_interface_def HandleResponseBody_def
      updateStateAndSendIfNeeded_def send_request_header_def send_request_body_def send_request_trailer_def
      send_response_header_def send_response_body_def send_response_trailer_def send_stage_def process_defer_def)

theorem completion_hooks_once_witness:
  "completion_runs (sv_dir (snd (Process sample_server [Recv 0 ''id'' [] (ResponseBody ''x'' True), RecvEOF] [] (sample_state [])))) = 1"
proof -
  let ?evs = "[Recv 0 ''id'' [] (ResponseBody ''x'' True), RecvEOF]"
  have "Process (NewStreamingServer sample_director (\<lambda>_ _ _. Inr None) []) ?evs [] (sample_state []) =
    (Some ReturnNil, snd (Process sample_server ?evs [] (sample_state [])))"
    using sample_stream_ends(1) by (simp add: prod_eq_iff flip: sample_server_def)
  from completion_hooks_once [OF _ this] show ?thesis
    using sample_stream_ends(2) by (simp add: sample_state_def completion_runs_def)
qed


definition sample_serving :: "unit director_state server_state" where
  "sample_serving = \<lparr>sv_ctx = new_request_context\<lparr>rc_RequestState := HeaderResponseResponseComplete\<rparr>, sv_body = [],
     sv_dir = sample_state [], sv_io = \<lparr>io_sent = [], io_script = []\<rparr>\<rparr>"


subsection \<open>Routing\<close>

definition repository_pickers :: "picker_fn set" where
  "repository_pickers = range (\<lambda>(n, draw). max_score_Pick n draw) \<union> range (\<lambda>(n, draw). random_Pick n draw)"

lemma picker_targets:
  assumes "pick \<in> repository_pickers"
  shows "set (TargetEndpoints (pick ses)) \<subseteq> se_Endpoint ` set ses"
proof -
  obtain n draw where "pick = max_score_Pick n draw \<or> pick = random_Pick n draw"
    using assms by (auto simp: repository_pickers_def)
  then obtain ses' k where "mset ses' = mset ses" "TargetEndpoints (pick ses) = map se_Endpoint (take k ses')"
    using max_score_Pick_spec [of ses n draw] random_Pick_spec [of ses n draw] by blast
  then show ?thesis by (metis image_mono list.set_map set_mset_mset set_take_subset)
qed

definition repository_profile :: "schedulerProfile \<Rightarrow> bool" where
  "repository_profile p \<longleftrightarrow> set (sp_filters p) \<subseteq> repository_filters \<and> fst ` set (sp_scorers p) \<subseteq> repository_scorers \<and>
     set_option (sp_picker p) \<subseteq> repository_pickers"

lemma profile_Run_targets:
  assumes "repository_profile p" "profile_Run p order req cands = Some (Inr r)"
  shows "set (TargetEndpoints r) \<subseteq> set cands"
proof -
  obtain eps m pick where run: "runFilterPlugins (sp_filters p) req cands = Some eps"
    "runScorerPlugins (sp_scorers p) req eps = Some m" "sp_picker p = Some pick"
    and r: "r = pick (map (\<lambda>(e, score). \<lparr>se_Endpoint = e, se_Score = score\<rparr>) (Shuffle order m))"
    using assms(2) by (auto simp: profile_Run_def runPickerPlugin_def split: option.splits if_splits)
  have "\<forall>f \<in> set (sp_filters p). filter_plugin f" "\<forall>(sc, w) \<in> set (sp_scorers p). scorer sc"
    using assms(1) repository_filter repository_scorer by (auto simp: repository_profile_def)
  then have "set eps \<subseteq> set cands" "fst ` set m = set eps"
    using runFilterPlugins_keeps [OF run(1)] set_scored [OF run(2)] by (auto simp: image_image)
  moreover have "pick \<in> repository_pickers" using assms(1) run(3) by (simp add: repository_profile_def)
  from picker_targets [OF this, of "map (\<lambda>(e, score). \<lparr>se_Endpoint = e, se_Score = score\<rparr>) (Shuffle order m)"]
  have "set (TargetEndpoints r) \<subseteq> fst ` set m" unfolding r by (simp add: image_image split_def)
  ultimately show ?thesis by blast
qed

text \<open>The scheduler of one profile under the single profile handler.\<close>

definition single_scheduler :: "string \<Rightarrow> schedulerProfile \<Rightarrow> (nat \<Rightarrow> nat) \<Rightarrow> scheduler" where
  "single_scheduler name p order = \<lparr>sch_profileHandler = SingleProfileHandler, sch_profiles = [(name, profile_Run p order)]\<rparr>"

lemma single_scheduler_result:
  assumes "Schedule (single_scheduler name p order) req eps = Some (Some (Inr result))"
  shows "\<exists>r. profile_Run p order req eps = Some (Inr r) \<and> result = \<lparr>ProfileResults = [(name, Some r)], PrimaryProfileName = name\<rparr>"
  using assms schedule_loop_single [of "single_scheduler name p order" req eps]
  by (auto simp: single_scheduler_def Schedule_def SingleProfileHandler_def single_ProcessResults_def
      split: option.splits sum.splits)

text \<open>Data plugins add attributes to the endpoints and leave the metadata alone.\<close>

definition keeps_metadata :: "request_control_config \<Rightarrow> bool" where
  "keeps_metadata c \<longleftrightarrow> (\<forall>(name, run) \<in> set (prepareDataPlugins c). \<forall>req eps. map GetMetadata (snd (run req eps)) = map GetMetadata eps)"

lemma executePluginsAsDAG_metadata:
  "\<forall>(name, run) \<in> set ps. \<forall>req eps. map GetMetadata (snd (run req eps)) = map GetMetadata eps \<Longrightarrow>
   map GetMetadata (snd (executePluginsAsDAG ps req eps)) = map GetMetadata eps"
proof (induction ps req eps rule: executePluginsAsDAG.induct)
  case (2 name run ps req eps)
  obtain err eps1 where r: "run req eps = (err, eps1)" by fastforce
  have "map GetMetadata (snd (run req eps)) = map GetMetadata eps" using 2(2) by auto
  then show ?case using 2 r by (cases err) auto
qed simp

lemma runPrepareDataPlugins_metadata:
  assumes "keeps_metadata (dir_plugins dir)"
  shows "map GetMetadata (snd (runPrepareDataPlugins dir e req eps)) = map GetMetadata eps"
proof -
  have "map GetMetadata (snd (executePluginsAsDAG (take k (prepareDataPlugins (dir_plugins dir))) req eps)) = map GetMetadata eps" for k
    using assms set_take_subset [of k "prepareDataPlugins (dir_plugins dir)"] unfolding keeps_metadata_def
    by (intro executePluginsAsDAG_metadata) blast
  moreover have "map GetMetadata (snd (executePluginsAsDAG (prepareDataPlugins (dir_plugins dir)) req eps)) = map GetMetadata eps"
    using assms by (intro executePluginsAsDAG_metadata) (simp add: keeps_metadata_def)
  ultimately show ?thesis
    by (simp add: runPrepareDataPlugins_def prepareDataPluginsWithTimeout_def split: prepare_end.split)
qed

lemma toSchedulerEndpoints_metadata: "map GetMetadata (toSchedulerEndpoints eps n) = map GetMetadata eps"
  by (simp add: toSchedulerEndpoints_def sched_NewEndpoint_def split_def o_def flip: map_map [of GetMetadata snd, unfolded o_def])

lemma prepareRequest_targets:
  assumes "prepareRequest dir \<lparr>ProfileResults = [(name, Some r)], PrimaryProfileName = name\<rparr> rc d = (HandledOk, rc', d')"
  shows "\<exists>mds. those (map GetMetadata (TargetEndpoints r)) = Some mds \<and> mds \<noteq> [] \<and> rc_TargetPod rc' = Some (hd mds) \<and>
    rc_TargetEndpoint rc' = strings_Join (map (\<lambda>md. JoinHostPort (md_Address md) (md_Port md)) mds) '',''"
    "rc_Priority rc' = rc_Priority rc" "dr_env d' = dr_env d"
  using assms by (auto simp: prepareRequest_def runPreRequestPlugins_def Let_def split: option.splits list.splits)

lemma those_Some: "those xs = Some ys \<Longrightarrow> xs = map Some ys"
  by (induction xs arbitrary: ys) (auto split: option.splits)

lemma those_set: "those (map f xs) = Some ys \<Longrightarrow> Some ` set ys = f ` set xs"
  using those_Some [of "map f xs" ys] by (metis list.set_map)

lemma routeRequest_ok:
  assumes "routeRequest dir rc req d = (HandledOk, rc', d')"
    and loc: "dir_Locate dir (rq_Metadata (rc_Request rc)) (dr_env d) = (cands, env1)"
    and pr: "runPrepareDataPlugins dir (dr_prepare d) req (toSchedulerEndpoints cands (dr_next d)) = (e, eps)"
  shows "\<exists>result. dir_Schedule dir req eps = Some (Inr result) \<and>
    prepareRequest dir result rc (d\<lparr>dr_env := env1, dr_next := dr_next d + length cands\<rparr>) = (HandledOk, rc', d')"
proof -
  have cands: "cands \<noteq> []" using assms(1) loc by (cases cands) (simp_all add: routeRequest_def)
  have admit: "runAdmissionPlugins dir req eps"
    using assms(1) by (cases "runAdmissionPlugins dir req eps") (simp_all add: routeRequest_def loc pr cands)
  note route = assms(1) [unfolded routeRequest_def loc prod.case Let_def]
  show ?thesis
  proof (cases "dir_Schedule dir req eps")
    case None
    then show ?thesis using route by (simp add: pr cands admit)
  next
    case (Some result)
    then show ?thesis using route by (cases result) (simp_all add: pr cands admit)
  qed
qed

lemma routeRequest_target:
  assumes "\<forall>req eps. Schedule (single_scheduler name p order) req eps = Some (dir_Schedule dir req eps)"
    "repository_profile p" "keeps_metadata (dir_plugins dir)"
    "dir_Locate dir (rq_Metadata (rc_Request rc)) (dr_env d) = (cands, env1)"
    "routeRequest dir rc req d = (HandledOk, rc', d')"
  shows "\<exists>mds. mds \<noteq> [] \<and> rc_TargetPod rc' = Some (hd mds) \<and>
    rc_TargetEndpoint rc' = strings_Join (map (\<lambda>md. JoinHostPort (md_Address md) (md_Port md)) mds) '','' \<and>
    Some ` set mds \<subseteq> GetMetadata ` set cands"
    "rc_Priority rc' = rc_Priority rc" "dr_env d' = env1"
proof -
  define d2 where "d2 = d\<lparr>dr_env := env1, dr_next := dr_next d + length cands\<rparr>"
  obtain e eps where pr: "runPrepareDataPlugins dir (dr_prepare d) req (toSchedulerEndpoints cands (dr_next d)) = (e, eps)"
    by (rule prod.exhaust)
  obtain result where res: "dir_Schedule dir req eps = Some (Inr result)"
    and prep: "prepareRequest dir result rc d2 = (HandledOk, rc', d')"
    using routeRequest_ok [OF assms(5,4) pr, folded d2_def] by (elim exE conjE)
  obtain r where r: "profile_Run p order req eps = Some (Inr r)"
    "result = \<lparr>ProfileResults = [(name, Some r)], PrimaryProfileName = name\<rparr>"
    using single_scheduler_result [of name p order req eps result] assms(1) [rule_format, of req eps] unfolding res by blast
  obtain mds where mds: "those (map GetMetadata (TargetEndpoints r)) = Some mds" "mds \<noteq> []"
    "rc_TargetPod rc' = Some (hd mds)"
    "rc_TargetEndpoint rc' = strings_Join (map (\<lambda>md. JoinHostPort (md_Address md) (md_Port md)) mds) '',''"
    using prepareRequest_targets(1) [OF prep [unfolded r(2)]] by blast
  have "map GetMetadata eps = map GetMetadata cands"
    using runPrepareDataPlugins_metadata [OF assms(3), of "dr_prepare d" req "toSchedulerEndpoints cands (dr_next d)"]
    by (simp add: pr toSchedulerEndpoints_metadata)
  from arg_cong [OF this, of set] have "GetMetadata ` set eps = GetMetadata ` set cands" by simp
  then have "Some ` set mds \<subseteq> GetMetadata ` set cands"
    using image_mono [OF profile_Run_targets [OF assms(2) r(1)], of GetMetadata] by (simp only: those_set [OF mds(1)])
  then show "\<exists>mds. mds \<noteq> [] \<and> rc_TargetPod rc' = Some (hd mds) \<and>
    rc_TargetEndpoint rc' = strings_Join (map (\<lambda>md. JoinHostPort (md_Address md) (md_Port md)) mds) '','' \<and>
    Some ` set mds \<subseteq> GetMetadata ` set cands"
    using mds(2-4) by blast
  show "rc_Priority rc' = rc_Priority rc" "dr_env d' = env1"
    using prepareRequest_targets(2,3) [OF prep [unfolded r(2)]] by (simp_all add: d2_def)
qed

lemma HandleRequest_routes:
  assumes "HandleRequest dir rc d = (HandledOk, rc', d')"
  shows "\<exists>rc2 env req d2. dir_Admit dir rc2 (rc_Priority rc2) env = (HandledOk, dr_env d2) \<and>
    rq_Metadata (rc_Request rc2) = rq_Metadata (rc_Request rc) \<and> routeRequest dir rc2 req d2 = (HandledOk, rc', d')"
proof -
  obtain out1 rc1 b d1 where p: "processRequestBody dir rc d = (out1, rc1, b, d1)" by (metis surj_pair)
  have md: "rq_Metadata (rc_Request rc1) = rq_Metadata (rc_Request rc)" using processRequestBody_eff [OF p] by simp
  obtain prio d2 where o: "getInferenceObjective rc1 d1 = (prio, d2)" by (metis surj_pair)
  have out1: "out1 = HandledOk" using assms unfolding HandleRequest_def p by (cases out1) simp_all
  define req where "req = \<lparr>lr_RequestId = header_of RequestIdHeaderKey (rq_Headers (rc_Request rc1)),
    lr_TargetModel = rc_TargetModelName rc1, lr_Body = b, lr_Headers = rq_Headers (rc_Request rc1), lr_Priority = prio,
    lr_RequestSizeBytes = rc_RequestSize rc1\<rparr>"
  define rc2 where "rc2 = rc1\<lparr>rc_Priority := prio, rc_SchedulingRequest := Some req\<rparr>"
  obtain out2 env1 where adm: "dir_Admit dir rc2 prio (dr_env d2) = (out2, env1)" by (metis surj_pair)
  have "HandleRequest dir rc d = (case (out2, env1) of
      (HandledOk, env3) \<Rightarrow> routeRequest dir rc2 req (d2\<lparr>dr_env := env3\<rparr>)
    | (out, env3) \<Rightarrow> (out, rc2, d2\<lparr>dr_env := env3\<rparr>))"
    unfolding HandleRequest_def p out1 o Let_def prod.case handle_outcome.case adm [symmetric] rc2_def req_def ..
  then have "out2 = HandledOk \<and> routeRequest dir rc2 req (d2\<lparr>dr_env := env1\<rparr>) = (HandledOk, rc', d')"
    using assms by (cases out2) simp_all
  moreover have "rc_Priority rc2 = prio" "rq_Metadata (rc_Request rc2) = rq_Metadata (rc_Request rc)"
    using md by (simp_all add: rc2_def)
  moreover have "env1 = dr_env (d2\<lparr>dr_env := env1\<rparr>)" by simp
  ultimately show ?thesis using adm by metis
qed

lemma Locate_subset:
  assumes "subset_list md = Some l" "\<not> DisableEndpointSubsetFilter cfg" "Some m \<in> GetMetadata ` set (Locate cfg ds md)"
  shows "md_Address m \<in> set (subset_hosts l)"
proof -
  obtain e where "e \<in> set (Locate cfg ds md)" "GetMetadata e = Some m" using assms(3) by force
  then show ?thesis using assms(1,2) by (auto simp: Locate_def PodList_def Let_def split: if_splits)
qed

text \<open>
  C40: A request is only routed after admission, and only to endpoints that may serve it. With a
  profile of the repository's filters, scorers and pickers, and data plugins that leave the
  metadata of endpoints alone, a request that is handled without an error was admitted with its
  priority; its target is the first of a non-empty list of endpoints that the data store held,
  as the admission left it, as candidates for the metadata of the request; the destination
  header lists exactly their addresses. If the request carries a subset filter, all of them are
  in the subset.
\<close>

theorem routed_to_admitted_candidate:
  assumes "\<forall>req eps. Schedule (single_scheduler name p order) req eps = Some (dir_Schedule dir req eps)"
    "repository_profile p" "keeps_metadata (dir_plugins dir)"
    "dir_Locate dir = (\<lambda>md env. (Locate cfg (fst env) md, env))"
    "HandleRequest dir rc d = (HandledOk, rc', d')"
  shows "(\<exists>rc2 env. rq_Metadata (rc_Request rc2) = rq_Metadata (rc_Request rc) \<and>
      dir_Admit dir rc2 (rc_Priority rc') env = (HandledOk, dr_env d')) \<and>
    (\<exists>mds. mds \<noteq> [] \<and> rc_TargetPod rc' = Some (hd mds) \<and>
      rc_TargetEndpoint rc' = strings_Join (map (\<lambda>md. JoinHostPort (md_Address md) (md_Port md)) mds) '','' \<and>
      Some ` set mds \<subseteq> GetMetadata ` set (Locate cfg (dr_store d') (rq_Metadata (rc_Request rc))) \<and>
      (\<forall>l. subset_list (rq_Metadata (rc_Request rc)) = Some l \<longrightarrow> \<not> DisableEndpointSubsetFilter cfg \<longrightarrow>
         md_Address ` set mds \<subseteq> set (subset_hosts l)))"
proof -
  obtain rc2 env req d2 where h: "dir_Admit dir rc2 (rc_Priority rc2) env = (HandledOk, dr_env d2)"
    "rq_Metadata (rc_Request rc2) = rq_Metadata (rc_Request rc)" "routeRequest dir rc2 req d2 = (HandledOk, rc', d')"
    using HandleRequest_routes [OF assms(5)] by blast
  have loc: "dir_Locate dir (rq_Metadata (rc_Request rc2)) (dr_env d2) =
      (Locate cfg (fst (dr_env d2)) (rq_Metadata (rc_Request rc)), dr_env d2)"
    by (simp only: assms(4) h(2))
  note route = routeRequest_target [OF assms(1-3) loc h(3)]
  obtain mds where mds: "mds \<noteq> []" "rc_TargetPod rc' = Some (hd mds)"
    "rc_TargetEndpoint rc' = strings_Join (map (\<lambda>md. JoinHostPort (md_Address md) (md_Port md)) mds) '',''"
    "Some ` set mds \<subseteq> GetMetadata ` set (Locate cfg (dr_store d') (rq_Metadata (rc_Request rc)))"
    using route(1) unfolding route(3) by blast
  have "md_Address ` set mds \<subseteq> set (subset_hosts l)"
    if "subset_list (rq_Metadata (rc_Request rc)) = Some l" "\<not> DisableEndpointSubsetFilter cfg" for l
    using Locate_subset [OF that] mds(4) by blast
  then show ?thesis using h(1,2) mds unfolding route(2,3) by blast
qed

lemma single_scheduler_ends: "Schedule (single_scheduler name p order) req eps = Some (the (Schedule (single_scheduler name p order) req eps))"
  using schedule_loop_single [of "single_scheduler name p order" req eps]
  by (auto simp: single_scheduler_def Schedule_def split: option.splits)

definition sample_profile_picker :: schedulerProfile where
  "sample_profile_picker = WithPicker (random_Pick 1 id) NewSchedulerProfile"

lemma sample_schedules:
  "the (Schedule (single_scheduler name sample_profile_picker id) req [e]) =
     Some (Inr \<lparr>ProfileResults = [(name, Some \<lparr>TargetEndpoints = [e]\<rparr>)], PrimaryProfileName = name\<rparr>)"
proof -
  have "profile_Run sample_profile_picker id req [e] = Some (Inr \<lparr>TargetEndpoints = [e]\<rparr>)"
    by (simp add: sample_profile_picker_def profile_Run_def runScorerPlugins_def runPickerPlugin_def WithPicker_def NewSchedulerProfile_def score_each_def
        Shuffle_def random_Pick_def targets_def)
  then show ?thesis
    using schedule_loop_single [of "single_scheduler name sample_profile_picker id" req "[e]"]
    by (simp add: single_scheduler_def Schedule_def SingleProfileHandler_def single_ProcessResults_def)
qed

definition sample_metadata :: request_metadata where
  "sample_metadata = Some [(SubsetFilterNamespace, AnyMap [(SubsetFilterKey, AnyList [AnyString ''a:1''])])]"

definition sample_request :: request_context where
  "sample_request = new_request_context\<lparr>rc_Request := (rc_Request new_request_context)\<lparr>rq_Metadata := sample_metadata\<rparr>\<rparr>"

lemma sample_hosts: "subset_list sample_metadata = Some [AnyString ''a:1'']" "subset_hosts [AnyString ''a:1''] = [''a'']"
  by (simp_all add: sample_metadata_def subset_list_def subset_hosts_def List.map_filter_def)

lemma sample_located:
  "Locate (NewDatastoreEndpointCandidates []) (empty_store\<lparr>ds_pods := [(nn, sample_endpoint 1 5)]\<rparr>) sample_metadata = [sample_endpoint 1 5]"
  by (simp add: Locate_def PodList_def sample_hosts NewDatastoreEndpointCandidates_def sample_endpoint_def)

lemma sample_routed:
  assumes "dr_store d = empty_store\<lparr>ds_pods := [(nn, sample_endpoint 1 5)]\<rparr>" "rq_Metadata (rc_Request rc) = sample_metadata"
  shows "fst (routeRequest sample_director rc req d) = HandledOk"
proof -
  have s: "dir_Schedule sample_director = (\<lambda>req eps. the (Schedule (single_scheduler ''p'' sample_profile_picker id) req eps))"
    by (simp add: sample_director_def single_scheduler_def sample_profile_picker_def)
  have l: "dir_Locate sample_director sample_metadata (dr_env d) = ([sample_endpoint 1 5], dr_env d)"
    using sample_located assms(1) by (simp add: sample_director_def)
  have p: "dir_plugins sample_director = rc_NewConfig" by (simp add: sample_director_def)
  show ?thesis
    by (simp add: routeRequest_def assms(2) l s p runPrepareDataPlugins_def runAdmissionPlugins_def rc_NewConfig_def
        toSchedulerEndpoints_def sample_schedules prepareRequest_def sched_NewEndpoint_def runPreRequestPlugins_def Let_def sample_endpoint_def)
qed

lemma sample_handled:
  "fst (HandleRequest sample_director sample_request (sample_state [(nn, sample_endpoint 1 5)])) = HandledOk"
proof -
  have "ObjectiveGet key (empty_store\<lparr>ds_pods := pods\<rparr>) = None" for key pods
    by (simp add: ObjectiveGet_def empty_store_def NewDatastore_def)
  then show ?thesis
    by (simp add: HandleRequest_def processRequestBody_def getInferenceObjective_def sample_routed sample_state_def sample_request_def
        Let_def sample_director_def [THEN arg_cong, of dir_ParseRequest] sample_director_def [THEN arg_cong, of dir_Admit])
qed

theorem routed_to_admitted_candidate_witness:
  "\<exists>rc' d' mds. HandleRequest sample_director sample_request (sample_state [(\<lparr>nn_Name = ''e'', nn_Namespace = ''n''\<rparr>, sample_endpoint 1 5)]) =
     (HandledOk, rc', d') \<and> mds \<noteq> [] \<and> rc_TargetPod rc' = Some (hd mds) \<and> md_Address ` set mds \<subseteq> {''a''}"
proof -
  let ?d = "sample_state [(\<lparr>nn_Name = ''e'', nn_Namespace = ''n''\<rparr>, sample_endpoint 1 5)]"
  obtain rc' d' where h: "HandleRequest sample_director sample_request ?d = (HandledOk, rc', d')"
    using sample_handled by (metis prod.collapse)
  have "\<forall>req eps. Schedule (single_scheduler ''p'' sample_profile_picker id) req eps = Some (dir_Schedule sample_director req eps)"
    using single_scheduler_ends [of "''p''" sample_profile_picker id] by (simp add: sample_director_def single_scheduler_def sample_profile_picker_def)
  moreover have "repository_profile sample_profile_picker"
    by (auto simp: repository_profile_def sample_profile_picker_def WithPicker_def NewSchedulerProfile_def repository_pickers_def
        intro: range_eqI [where x = "(1, id)"])
  moreover have "keeps_metadata (dir_plugins sample_director)"
    by (simp add: sample_director_def keeps_metadata_def rc_NewConfig_def)
  moreover have "dir_Locate sample_director = (\<lambda>md env. (Locate (NewDatastoreEndpointCandidates []) (fst env) md, env))"
    by (simp add: sample_director_def)
  ultimately obtain mds where "mds \<noteq> []" "rc_TargetPod rc' = Some (hd mds)"
    "\<forall>l. subset_list (rq_Metadata (rc_Request sample_request)) = Some l \<longrightarrow>
       \<not> DisableEndpointSubsetFilter (NewDatastoreEndpointCandidates []) \<longrightarrow> md_Address ` set mds \<subseteq> set (subset_hosts l)"
    using routed_to_admitted_candidate [OF _ _ _ _ h, of "''p''" sample_profile_picker id "NewDatastoreEndpointCandidates []"] by blast
  then show ?thesis using h
    by (simp add: sample_request_def sample_hosts NewDatastoreEndpointCandidates_def) blast
qed

end
